(* ===== verification/Prelude.thy ===== *)
theory Prelude
  imports Main "HOL-Library.Word"
begin

text \<open>
  Shared vocabulary of the development: the byte and machine-integer types of the Go code,
  and Go errors as values.

  A Go error is either a sentinel (an \<^verbatim>\<open>errors.New\<close> variable, compared by identity) or
  the value of one \<^verbatim>\<open>fmt.Errorf\<close> call, kept as its format string and arguments, so that
  two different failures never collapse into one value. An argument printed by \<^verbatim>\<open>%w\<close>
  (\<open>AWrap\<close>) stays reachable for \<^verbatim>\<open>errors.Is\<close>; one printed by \<^verbatim>\<open>%s\<close> or
  \<^verbatim>\<open>%v\<close> (\<open>AText\<close>) does not.
\<close>

section \<open>Machine types\<close>

type_synonym byte = "8 word"
type_synonym bytes = "byte list"
type_synonym uint32 = "32 word"
type_synonym uint64 = "64 word"

text \<open>A Go \<^verbatim>\<open>[]byte(s)\<close> conversion: strings are byte sequences already.\<close>

definition bytes_of_string :: "string \<Rightarrow> bytes" where
  "bytes_of_string s = map of_char s"

definition string_of_bytes :: "bytes \<Rightarrow> string" where
  "string_of_bytes bs = map (\<lambda>b. char_of (unat b)) bs"

lemma string_of_bytes_of_string [simp]: "string_of_bytes (bytes_of_string s) = s"
proof -
  have "char_of (unat (of_char c :: byte)) = c" for c
  proof -
    have "(of_char c :: byte) = of_nat (of_char c)" by (simp only: of_nat_of_char)
    then have "unat (of_char c :: byte) = of_char c mod 2 ^ 8"
      by (simp only: unat_of_nat len_of_numeral_defs) simp
    moreover have "of_char c < (256 :: nat)" using nat_of_char_less_256 .
    ultimately show ?thesis by simp
  qed
  then show ?thesis by (simp add: string_of_bytes_def bytes_of_string_def comp_def)
qed

lemma bytes_of_string_inject: "bytes_of_string a = bytes_of_string b \<longleftrightarrow> a = b"
  by (metis string_of_bytes_of_string)

text \<open>Arithmetic on \<^verbatim>\<open>int64\<close> (and so on \<^verbatim>\<open>time.Duration\<close>) wraps around.\<close>

definition wrap64 :: "int \<Rightarrow> int" where
  "wrap64 x = (x + 2 ^ 63) mod 2 ^ 64 - 2 ^ 63"

lemma wrap64_id: "- (2 ^ 63) \<le> x \<Longrightarrow> x < 2 ^ 63 \<Longrightarrow> wrap64 x = x"
  by (simp add: wrap64_def)

lemma wrap64_bounds: "- (2 ^ 63) \<le> wrap64 x \<and> wrap64 x < 2 ^ 63"
  by (simp add: wrap64_def algebra_simps)

section \<open>Errors\<close>

datatype go_error =
    Sentinel string
  | Errorf string "go_arg list"
and go_arg =
    AStr string
  | ABytes bytes
  | AInt int
  | AWrap go_error
  | AText go_error

type_synonym 'a result = "go_error + 'a"

fun err_is :: "go_error \<Rightarrow> string \<Rightarrow> bool"
  and args_is :: "go_arg list \<Rightarrow> string \<Rightarrow> bool" where
  "err_is (Sentinel s) t = (s = t)"
| "err_is (Errorf f as) t = args_is as t"
| "args_is [] t = False"
| "args_is (AWrap e # as) t = (err_is e t \<or> args_is as t)"
| "args_is (_ # as) t = args_is as t"

end
