(* ===== verification/GoBuf.thy ===== *)
theory GoBuf
  imports Prelude
begin

text \<open>
  The parts of Go's runtime and standard library the wire contract is written over: byte
  slices with their spare capacity (so that a reused buffer still holds its old bytes),
  \<^verbatim>\<open>bufio.Writer\<close> over a sink that may refuse bytes, \<^verbatim>\<open>bufio.Reader\<close> with
  \<^verbatim>\<open>io.ReadFull\<close>, and \<^verbatim>\<open>sync.Pool\<close>. The locales state what the contract relies on:
  \<open>byte_sink\<close> (a writer appends what it accepts), \<open>clean_pool\<close> (a pool hands out clean
  objects only) and \<open>message_codec\<close> (messages written back to back are read back in order).
\<close>

section \<open>Slices\<close>

record slice =
  vis :: bytes
  spare :: bytes

definition slice_nil :: slice where
  "slice_nil = \<lparr>vis = [], spare = []\<rparr>"

definition slice_of :: "bytes \<Rightarrow> slice" where
  "slice_of bs = \<lparr>vis = bs, spare = []\<rparr>"

definition slice_cap :: "slice \<Rightarrow> nat" where
  "slice_cap s = length (vis s) + length (spare s)"

text \<open>\<^verbatim>\<open>s[:n]\<close> for \<open>n\<close> up to the capacity: the bytes of the backing array show through.\<close>

definition slice_upto :: "nat \<Rightarrow> slice \<Rightarrow> slice" where
  "slice_upto n s = \<lparr>vis = take n (vis s @ spare s), spare = drop n (vis s @ spare s)\<rparr>"

text \<open>
  \<^verbatim>\<open>append(s, p...)\<close>: in place when the capacity suffices, into a new array otherwise;
  \<open>grow\<close> is the extra capacity the runtime then allocates.
\<close>

definition slice_append :: "(nat \<Rightarrow> nat \<Rightarrow> nat) \<Rightarrow> slice \<Rightarrow> bytes \<Rightarrow> slice" where
  "slice_append grow s p =
     (if length p \<le> length (spare s)
      then \<lparr>vis = vis s @ p, spare = drop (length p) (spare s)\<rparr>
      else \<lparr>vis = vis s @ p,
            spare = replicate (grow (slice_cap s) (length (vis s) + length p)) 0\<rparr>)"

lemma vis_slice_append [simp]: "vis (slice_append grow s p) = vis s @ p"
  by (simp add: slice_append_def)

lemma vis_slice_upto_0 [simp]: "vis (slice_upto 0 s) = []"
  by (simp add: slice_upto_def)

lemma cap_slice_upto [simp]: "slice_cap (slice_upto n s) = slice_cap s"
  by (simp add: slice_upto_def slice_cap_def)

lemma length_vis_upto: "n \<le> slice_cap s \<Longrightarrow> length (vis (slice_upto n s)) = n"
  by (simp add: slice_upto_def slice_cap_def)

text \<open>Overwriting the first bytes of a slice, as a read into it does.\<close>

definition fill :: "bytes \<Rightarrow> bytes \<Rightarrow> bytes" where
  "fill got b = got @ drop (length got) b"

lemma fill_exact [simp]: "length got = length b \<Longrightarrow> fill got b = got"
  by (simp add: fill_def)

lemma length_fill [simp]: "length got \<le> length b \<Longrightarrow> length (fill got b) = length b"
  by (simp add: fill_def)

section \<open>bufio.Writer\<close>

text \<open>
  The sink below the writer accepts \<open>room\<close> more bytes (\<open>None\<close>: any number); a write beyond
  that takes what fits and fails, which is the contract of \<^verbatim>\<open>io.Writer\<close>.
\<close>

record bufw =
  bsize :: nat
  bbuf :: bytes
  sunk :: bytes
  room :: "nat option"
  werr :: "go_error option"

definition sink_err :: go_error where
  "sink_err = Sentinel ''write failed''"

definition stream :: "bufw \<Rightarrow> bytes" where
  "stream w = sunk w @ bbuf w"

definition sink_write :: "bufw \<Rightarrow> bytes \<Rightarrow> nat \<times> go_error option \<times> bufw" where
  "sink_write w p =
     (case room w of
        None \<Rightarrow> (length p, None, w\<lparr>sunk := sunk w @ p\<rparr>)
      | Some k \<Rightarrow>
          (if length p \<le> k
           then (length p, None, w\<lparr>sunk := sunk w @ p, room := Some (k - length p)\<rparr>)
           else (k, Some sink_err, w\<lparr>sunk := sunk w @ take k p, room := Some 0\<rparr>)))"

definition bw_available :: "bufw \<Rightarrow> nat" where
  "bw_available w = bsize w - length (bbuf w)"

definition bw_flush :: "bufw \<Rightarrow> bufw" where
  "bw_flush w =
     (if werr w \<noteq> None then w
      else if bbuf w = [] then w
      else case sink_write w (bbuf w) of (n, err, w') \<Rightarrow>
        w'\<lparr>bbuf := drop n (bbuf w), werr := err\<rparr>)"

definition bw_write_byte :: "bufw \<Rightarrow> byte \<Rightarrow> bufw \<times> go_error option" where
  "bw_write_byte w c =
     (if werr w \<noteq> None then (w, werr w)
      else let w1 = (if bw_available w = 0 then bw_flush w else w) in
        if werr w1 \<noteq> None then (w1, werr w1)
        else (w1\<lparr>bbuf := bbuf w1 @ [c]\<rparr>, None))"

lemma sink_write_None: "sink_write w p = (n, None, w') \<Longrightarrow> n = length p"
  by (auto simp: sink_write_def split: option.splits if_splits)

lemma diff_less_add_length: "xs \<noteq> [] \<Longrightarrow> (n::nat) - k < n + length xs"
  by (cases xs) auto

function (sequential) bw_write :: "bufw \<Rightarrow> bytes \<Rightarrow> bufw \<times> go_error option" where
  "bw_write w p =
     (if werr w \<noteq> None then (w, werr w)
      else if length p \<le> bw_available w then (w\<lparr>bbuf := bbuf w @ p\<rparr>, None)
      else if bbuf w = [] then
        (case sink_write w p of
           (n, None, w') \<Rightarrow> bw_write w' (drop n p)
         | (n, Some e, w') \<Rightarrow> (w'\<lparr>werr := Some e\<rparr>, Some e))
      else
        (let n = bw_available w;
             w' = bw_flush (w\<lparr>bbuf := bbuf w @ take n p\<rparr>)
         in if werr w' \<noteq> None then (w', werr w') else bw_write w' (drop n p)))"
  by pat_completeness auto
termination
  by (relation "measure (\<lambda>(w, p). length p + length (bbuf w))")
    (auto simp: bw_flush_def sink_write_def bw_available_def Let_def
      intro: diff_less_add_length split: option.splits if_splits)

declare bw_write.simps [simp del]

section \<open>What a writer promises\<close>

text \<open>
  The contract the wire code relies on: a write that succeeds has appended all its bytes, one
  that fails has appended a prefix of them, and over an unlimited sink every write succeeds.
\<close>

locale byte_sink =
  fixes put :: "'w \<Rightarrow> bytes \<Rightarrow> 'w \<times> go_error option"
    and put1 :: "'w \<Rightarrow> byte \<Rightarrow> 'w \<times> go_error option"
    and contents :: "'w \<Rightarrow> bytes"
    and ok :: "'w \<Rightarrow> bool"
    and unlimited :: "'w \<Rightarrow> bool"
  assumes put_ok: "ok w \<Longrightarrow> put w p = (w', None) \<Longrightarrow> ok w' \<and> contents w' = contents w @ p"
    and put_fail: "ok w \<Longrightarrow> put w p = (w', Some e) \<Longrightarrow> \<exists>n. contents w' = contents w @ take n p"
    and put_unlimited: "ok w \<Longrightarrow> unlimited w \<Longrightarrow> \<exists>w'. put w p = (w', None) \<and> unlimited w'"
    and put1_ok: "ok w \<Longrightarrow> put1 w c = (w', None) \<Longrightarrow> ok w' \<and> contents w' = contents w @ [c]"
    and put1_fail: "ok w \<Longrightarrow> put1 w c = (w', Some e) \<Longrightarrow> contents w' = contents w"
    and put1_unlimited: "ok w \<Longrightarrow> unlimited w \<Longrightarrow> \<exists>w'. put1 w c = (w', None) \<and> unlimited w'"
begin

text \<open>A frame is a head byte, a length field and a body, written one after the other.\<close>

definition put_frame :: "'w \<Rightarrow> byte \<Rightarrow> bytes \<Rightarrow> bytes \<Rightarrow> 'w \<times> go_error option" where
  "put_frame w c hdr body =
     (case put1 w c of (w1, Some e) \<Rightarrow> (w1, Some e)
      | (w1, None) \<Rightarrow> (case put w1 hdr of (w2, Some e) \<Rightarrow> (w2, Some e)
          | (w2, None) \<Rightarrow> put w2 body))"

lemma put_frame_ok:
  assumes "ok w" "put_frame w c hdr body = (w', None)"
  shows "ok w' \<and> contents w' = contents w @ c # hdr @ body"
proof -
  obtain w1 w2 where w: "put1 w c = (w1, None)" "put w1 hdr = (w2, None)" "put w2 body = (w', None)"
    using assms(2) by (auto simp: put_frame_def split: prod.splits option.splits)
  note w1 = put1_ok [OF assms(1) w(1)]
  note w2 = put_ok [OF conjunct1 [OF w1] w(2)]
  from put_ok [OF conjunct1 [OF w2] w(3)] w1 w2 show ?thesis by simp
qed

lemma put_frame_fail:
  assumes "ok w" "put_frame w c hdr body = (w', Some e)"
  shows "\<exists>n. contents w' = contents w @ take n (c # hdr @ body)"
proof -
  consider w1 where "put1 w c = (w1, Some e)" "w' = w1"
    | w1 w2 where "put1 w c = (w1, None)" "put w1 hdr = (w2, Some e)" "w' = w2"
    | w1 w2 where "put1 w c = (w1, None)" "put w1 hdr = (w2, None)" "put w2 body = (w', Some e)"
    using assms(2) by (auto simp: put_frame_def split: prod.splits option.splits)
  then show ?thesis
  proof cases
    case 1
    then have "contents w' = contents w @ take 0 (c # hdr @ body)"
      using put1_fail [OF assms(1)] by simp
    then show ?thesis by blast
  next
    case 2
    note w1 = put1_ok [OF assms(1) 2(1)]
    obtain n where n: "contents w' = contents w @ c # take n hdr"
      using put_fail [OF conjunct1 [OF w1] 2(2)] w1 2(3) by auto
    have "take (Suc (min n (length hdr))) (c # hdr @ body) = c # take n hdr"
      by (simp add: min_def)
    with n show ?thesis by metis
  next
    case 3
    note w1 = put1_ok [OF assms(1) 3(1)]
    note w2 = put_ok [OF conjunct1 [OF w1] 3(2)]
    obtain n where n: "contents w' = contents w @ c # hdr @ take n body"
      using put_fail [OF conjunct1 [OF w2] 3(3)] w1 w2 by auto
    have "take (Suc (length hdr + n)) (c # hdr @ body) = c # hdr @ take n body"
      by simp
    with n show ?thesis by metis
  qed
qed

lemma put_frame_unlimited:
  assumes "ok w" "unlimited w"
  shows "\<exists>w'. put_frame w c hdr body = (w', None) \<and> unlimited w'"
proof -
  obtain w1 where w1: "put1 w c = (w1, None)" "unlimited w1"
    using put1_unlimited [OF assms] by blast
  then have "ok w1" using put1_ok [OF assms(1)] by blast
  with w1 obtain w2 where w2: "put w1 hdr = (w2, None)" "unlimited w2"
    using put_unlimited by blast
  then have "ok w2" using put_ok [OF \<open>ok w1\<close>] by blast
  with w2 show ?thesis using w1 put_unlimited by (simp add: put_frame_def)
qed

end

text \<open>A writer on its way: not failed, its buffer within its size.\<close>

definition bw_ok :: "bufw \<Rightarrow> bool" where
  "bw_ok w \<longleftrightarrow> werr w = None \<and> length (bbuf w) \<le> bsize w \<and> 0 < bsize w"

definition bw_unlimited :: "bufw \<Rightarrow> bool" where
  "bw_unlimited w \<longleftrightarrow> room w = None"

lemma sink_write_stream:
  "sink_write w p = (n, err, w') \<Longrightarrow>
     sunk w' = sunk w @ take n p \<and> bbuf w' = bbuf w \<and> bsize w' = bsize w \<and> werr w' = werr w \<and>
     (err = None \<longleftrightarrow> n = length p) \<and> n \<le> length p \<and> (room w = None \<longleftrightarrow> room w' = None) \<and>
     (room w = None \<longrightarrow> err = None)"
  by (auto simp: sink_write_def split: option.splits if_splits)

lemma bw_flush_stream:
  assumes "bw_flush w = w'" "werr w = None"
  shows "stream w' = stream w \<and> bsize w' = bsize w \<and> (werr w' = None \<longrightarrow> bbuf w' = []) \<and>
         (room w = None \<longleftrightarrow> room w' = None) \<and> (room w = None \<longrightarrow> werr w' = None)"
proof (cases "bbuf w = []")
  case True
  with assms show ?thesis by (auto simp: bw_flush_def)
next
  case False
  obtain n err w1 where "sink_write w (bbuf w) = (n, err, w1)"
    using prod_cases3 by blast
  with False assms sink_write_stream [OF this] show ?thesis
    by (auto simp: bw_flush_def stream_def)
qed

text \<open>A failed writer stays failed: every later write returns the same error.\<close>

lemma bw_write_sticky: "werr w = Some e \<Longrightarrow> bw_write w p = (w, Some e)"
  by (simp add: bw_write.simps)

lemma bw_write_byte_sticky: "werr w = Some e \<Longrightarrow> bw_write_byte w c = (w, Some e)"
  by (simp add: bw_write_byte_def)

lemma bw_write_stream:
  assumes "bw_ok w" "bw_write w p = (w', err)"
  shows "(\<exists>n. stream w' = stream w @ take n p \<and> (err = None \<longrightarrow> n = length p)) \<and>
         (err = None \<longrightarrow> bw_ok w') \<and>
         (bw_unlimited w \<longrightarrow> err = None \<and> bw_unlimited w')"
  using assms
proof (induction w p arbitrary: w' err rule: bw_write.induct)
  case (1 w p)
  show ?case
  proof (cases "length p \<le> bw_available w")
    case True
    with "1.prems" have "w' = w\<lparr>bbuf := bbuf w @ p\<rparr>" "err = None"
      by (auto simp: bw_write.simps [of w] bw_ok_def)
    with True "1.prems" show ?thesis
      by (auto simp: bw_ok_def bw_unlimited_def stream_def bw_available_def intro: exI [of _ "length p"])
  next
    case short: False
    show ?thesis
    proof (cases "bbuf w = []")
      case True
      obtain n e w1 where sw: "sink_write w p = (n, e, w1)"
        using prod_cases3 by blast
      note s = sink_write_stream [OF sw]
      show ?thesis
      proof (cases e)
        case None
        with s have "drop n p = []" by simp
        with "1.prems" None True short sw s have "w' = w1" "err = None"
          by (auto simp: bw_write.simps [of w] bw_write.simps [of w1] bw_ok_def)
        with None s True "1.prems" show ?thesis
          by (auto simp: bw_ok_def bw_unlimited_def stream_def intro: exI [of _ n])
      next
        case (Some x)
        with "1.prems" True short sw s have "w' = w1\<lparr>werr := Some x\<rparr>" "err = Some x"
          by (auto simp: bw_write.simps [of w] bw_ok_def)
        with Some s True show ?thesis
          by (auto simp: bw_unlimited_def stream_def intro: exI [of _ n])
      qed
    next
      case False
      define n where "n = bw_available w"
      define w1 where "w1 = bw_flush (w\<lparr>bbuf := bbuf w @ take n p\<rparr>)"
      have f: "stream w1 = stream w @ take n p \<and> bsize w1 = bsize w \<and>
          (werr w1 = None \<longrightarrow> bbuf w1 = []) \<and> (room w = None \<longleftrightarrow> room w1 = None) \<and>
          (room w = None \<longrightarrow> werr w1 = None)"
        using bw_flush_stream [OF w1_def [symmetric]] "1.prems" by (simp add: bw_ok_def stream_def)
      show ?thesis
      proof (cases "werr w1")
        case (Some x)
        with "1.prems" False short have "w' = w1" "err = Some x"
          by (auto simp: bw_write.simps [of w] Let_def n_def w1_def bw_ok_def)
        with f Some show ?thesis by (auto simp: bw_unlimited_def)
      next
        case None
        with "1.prems" False short have r: "bw_write w1 (drop n p) = (w', err)"
          by (auto simp: bw_write.simps [of w] Let_def n_def w1_def bw_ok_def)
        have ok1: "bw_ok w1" using None f "1.prems" by (simp add: bw_ok_def)
        have ih: "(\<exists>k. stream w' = stream w1 @ take k (drop n p) \<and>
              (err = None \<longrightarrow> k = length (drop n p))) \<and>
            (err = None \<longrightarrow> bw_ok w') \<and> (bw_unlimited w1 \<longrightarrow> err = None \<and> bw_unlimited w')"
          using "1.IH"(2) [OF _ short False n_def w1_def _ ok1 r] "1.prems" None
          by (simp add: bw_ok_def)
        then obtain k where k: "stream w' = stream w @ take (n + k) p"
            "err = None \<longrightarrow> k = length (drop n p)"
          using f by (auto simp: take_add)
        have "n \<le> length p" using short by (simp add: n_def)
        with k ih f show ?thesis by (auto simp: bw_unlimited_def intro!: exI [of _ "n + k"])
      qed
    qed
  qed
qed

lemma bw_write_byte_stream:
  assumes "bw_ok w" "bw_write_byte w c = (w', err)"
  shows "(err = None \<longrightarrow> bw_ok w' \<and> stream w' = stream w @ [c]) \<and>
         (err \<noteq> None \<longrightarrow> stream w' = stream w) \<and>
         (bw_unlimited w \<longrightarrow> err = None \<and> bw_unlimited w')"
proof (cases "bw_available w = 0")
  case False
  with assms show ?thesis
    by (auto simp: bw_write_byte_def bw_ok_def bw_available_def stream_def bw_unlimited_def)
next
  case True
  define w1 where "w1 = bw_flush w"
  have ok: "werr w = None" using assms by (simp add: bw_ok_def)
  have eq: "(w', err) = (if werr w1 \<noteq> None then (w1, werr w1) else (w1\<lparr>bbuf := bbuf w1 @ [c]\<rparr>, None))"
    using assms True ok by (auto simp: bw_write_byte_def Let_def w1_def split: if_splits)
  from bw_flush_stream [OF w1_def [symmetric] ok] eq assms show ?thesis
    by (cases "werr w1") (auto simp: bw_ok_def stream_def bw_unlimited_def)
qed

interpretation bufio: byte_sink bw_write bw_write_byte stream bw_ok bw_unlimited
proof unfold_locales
  fix w p w' assume "bw_ok w" "bw_write w p = (w', None)"
  from bw_write_stream [OF this] show "bw_ok w' \<and> stream w' = stream w @ p" by auto
next
  fix w p w' e assume "bw_ok w" "bw_write w p = (w', Some e)"
  from bw_write_stream [OF this] show "\<exists>n. stream w' = stream w @ take n p" by auto
next
  fix w p assume w: "bw_ok w" "bw_unlimited w"
  obtain w' err where "bw_write w p = (w', err)" by fastforce
  with bw_write_stream [OF w(1) this] w(2)
  show "\<exists>w'. bw_write w p = (w', None) \<and> bw_unlimited w'" by auto
next
  fix w c w' assume "bw_ok w" "bw_write_byte w c = (w', None)"
  from bw_write_byte_stream [OF this] show "bw_ok w' \<and> stream w' = stream w @ [c]" by auto
next
  fix w c w' e assume "bw_ok w" "bw_write_byte w c = (w', Some e)"
  from bw_write_byte_stream [OF this] show "stream w' = stream w" by auto
next
  fix w c assume w: "bw_ok w" "bw_unlimited w"
  obtain w' err where "bw_write_byte w c = (w', err)" by fastforce
  with bw_write_byte_stream [OF w(1) this] w(2)
  show "\<exists>w'. bw_write_byte w c = (w', None) \<and> bw_unlimited w'" by auto
qed

section \<open>bufio.Reader and io.ReadFull\<close>

text \<open>
  A reader holds the bytes still to come and the error that ends them: \<^verbatim>\<open>io.EOF\<close>, or
  the error of the connection.
\<close>

record bufr =
  rest :: bytes
  rend :: go_error

definition EOF :: go_error where
  "EOF = Sentinel ''EOF''"

definition ErrUnexpectedEOF :: go_error where
  "ErrUnexpectedEOF = Sentinel ''unexpected EOF''"

definition br_read_byte :: "bufr \<Rightarrow> bufr \<times> byte result" where
  "br_read_byte r = (case rest r of [] \<Rightarrow> (r, Inl (rend r)) | b # bs \<Rightarrow> (r\<lparr>rest := bs\<rparr>, Inr b))"

text \<open>
  \<^verbatim>\<open>io.ReadFull\<close> into a buffer of \<open>n\<close> bytes: the bytes it got, and an error unless they
  are all \<open>n\<close>. A read of no bytes never fails; an end in the middle is \<^verbatim>\<open>ErrUnexpectedEOF\<close>.
\<close>

definition read_full :: "bufr \<Rightarrow> nat \<Rightarrow> bufr \<times> bytes \<times> go_error option" where
  "read_full r n =
     (if n \<le> length (rest r) then (r\<lparr>rest := drop n (rest r)\<rparr>, take n (rest r), None)
      else (r\<lparr>rest := []\<rparr>, rest r,
            Some (if rend r = EOF \<and> rest r \<noteq> [] then ErrUnexpectedEOF else rend r)))"

lemma read_full_exact:
  "read_full (r\<lparr>rest := xs @ ys\<rparr>) (length xs) = (r\<lparr>rest := ys\<rparr>, xs, None)"
  by (simp add: read_full_def)

lemma read_full_consumes:
  "read_full r n = (r', got, err) \<Longrightarrow> rest r = got @ rest r' \<and> length got \<le> n \<and>
     (err = None \<longleftrightarrow> length got = n) \<and> rend r' = rend r"
  by (auto simp: read_full_def split: if_splits)

section \<open>sync.Pool\<close>

text \<open>
  A pool may hand out any object put into it, or none (\<open>pick = None\<close> or out of range), in
  which case the caller makes a fresh one.
\<close>

definition pool_get :: "nat option \<Rightarrow> 'a list \<Rightarrow> 'a option \<times> 'a list" where
  "pool_get pick p =
     (case pick of
        Some i \<Rightarrow> (if i < length p then (Some (p ! i), take i p @ drop (Suc i) p) else (None, p))
      | None \<Rightarrow> (None, p))"

definition pool_put :: "'a \<Rightarrow> 'a list \<Rightarrow> 'a list" where
  "pool_put x p = x # p"

lemma pool_get_set:
  assumes "pool_get pick p = (x, p')"
  shows "set p' \<subseteq> set p \<and> set_option x \<subseteq> set p"
  using assms
  by (auto simp: pool_get_def split: option.splits if_splits dest: in_set_takeD in_set_dropD)

definition pool_acquire :: "'a \<Rightarrow> nat option \<Rightarrow> 'a list \<Rightarrow> 'a \<times> 'a list" where
  "pool_acquire fresh pick p =
     (case pool_get pick p of (None, p') \<Rightarrow> (fresh, p') | (Some x, p') \<Rightarrow> (x, p'))"

definition pool_release :: "('a \<Rightarrow> 'a) \<Rightarrow> 'a \<Rightarrow> 'a list \<Rightarrow> 'a list" where
  "pool_release reset x p = pool_put (reset x) p"

datatype 'a pool_event = Acquire "nat option" | Release 'a

text \<open>A history of acquires and releases, by the pool's own two operations.\<close>

fun pool_run :: "(nat option \<Rightarrow> 'a list \<Rightarrow> 'a \<times> 'a list) \<Rightarrow> ('a \<Rightarrow> 'a list \<Rightarrow> 'a list) \<Rightarrow> 'a pool_event list \<Rightarrow>
    'a list \<Rightarrow> 'a list" where
  "pool_run acquire release [] p = p"
| "pool_run acquire release (Acquire i # es) p = pool_run acquire release es (snd (acquire i p))"
| "pool_run acquire release (Release x # es) p = pool_run acquire release es (release x p)"

lemma pool_acquire_all:
  assumes "list_all P p" "P fresh" "pool_acquire fresh pick p = (x, p')"
  shows "P x \<and> list_all P p'"
proof -
  obtain y q where g: "pool_get pick p = (y, q)" by fastforce
  from pool_get_set [OF this] assms g show ?thesis
    by (cases y) (auto simp: pool_acquire_def list_all_iff)
qed

lemma pool_release_all: "list_all P p \<Longrightarrow> P (reset x) \<Longrightarrow> list_all P (pool_release reset x p)"
  by (simp add: pool_release_def pool_put_def)

text \<open>
  What a pool of reusable objects promises: while only clean objects are in it, an acquired object
  is clean, and a release puts a clean one in, whatever the object was used for. So whoever acquires one
  finds nothing of its former use.
\<close>

locale clean_pool =
  fixes acquire :: "nat option \<Rightarrow> 'a list \<Rightarrow> 'a \<times> 'a list"
    and release :: "'a \<Rightarrow> 'a list \<Rightarrow> 'a list"
    and clean :: "'a \<Rightarrow> bool"
  assumes acquire_clean: "list_all clean p \<Longrightarrow> acquire pick p = (x, p') \<Longrightarrow> clean x \<and> list_all clean p'"
    and release_clean: "list_all clean p \<Longrightarrow> list_all clean (release x p)"
begin

lemma pool_run_clean: "list_all clean p \<Longrightarrow> list_all clean (pool_run acquire release es p)"
proof (induction es arbitrary: p)
  case (Cons e es)
  then show ?case
    using acquire_clean [of p, OF Cons.prems] release_clean [OF Cons.prems]
    by (cases e) (simp_all, metis prod.collapse)
qed simp

text \<open>Whatever was acquired and released before, in any order, the next object is clean.\<close>

lemma acquired_is_clean:
  assumes "acquire pick (pool_run acquire release es []) = (x, p')"
  shows "clean x"
  using acquire_clean [OF pool_run_clean [of "[]" es] assms] by simp

end

section \<open>Messages on a stream\<close>

text \<open>Writing messages one after the other, and reading as many with one reused receiver.\<close>

fun put_all :: "('m \<Rightarrow> bufw \<Rightarrow> bufw \<times> 'm \<times> go_error option) \<Rightarrow> 'm list \<Rightarrow> bufw \<Rightarrow> bufw \<times> go_error option" where
  "put_all put [] w = (w, None)"
| "put_all put (m # ms) w =
     (case put m w of (w', _, Some e) \<Rightarrow> (w', Some e) | (w', _, None) \<Rightarrow> put_all put ms w')"

fun get_all :: "('m \<Rightarrow> bufr \<Rightarrow> bufr \<times> 'm \<times> go_error option) \<Rightarrow> ('m \<Rightarrow> 'o) \<Rightarrow> nat \<Rightarrow> 'm \<Rightarrow> bufr \<Rightarrow>
    bufr \<times> 'm \<times> 'o list result" where
  "get_all get obs 0 m r = (r, m, Inr [])"
| "get_all get obs (Suc n) m r =
     (case get m r of
        (r', m', Some e) \<Rightarrow> (r', m', Inl e)
      | (r', m', None) \<Rightarrow>
          (case get_all get obs n m' r' of
             (r2, m2, Inl e) \<Rightarrow> (r2, m2, Inl e)
           | (r2, m2, Inr os) \<Rightarrow> (r2, m2, Inr (obs m' # os))))"

locale message_codec =
  fixes put :: "'m \<Rightarrow> bufw \<Rightarrow> bufw \<times> 'm \<times> go_error option"
    and get :: "'m \<Rightarrow> bufr \<Rightarrow> bufr \<times> 'm \<times> go_error option"
    and obs :: "'m \<Rightarrow> 'o"
    and enc :: "'o \<Rightarrow> bytes"
    and sendable :: "'m \<Rightarrow> bool"
    and receiver :: "'m \<Rightarrow> bool"
  assumes put_enc: "sendable m \<Longrightarrow> bw_ok w \<Longrightarrow> put m w = (w', m', None) \<Longrightarrow>
      bw_ok w' \<and> stream w' = stream w @ enc (obs m)"
    and put_total: "sendable m \<Longrightarrow> bw_ok w \<Longrightarrow> bw_unlimited w \<Longrightarrow>
      \<exists>w' m'. put m w = (w', m', None) \<and> bw_unlimited w'"
    and get_enc: "sendable m \<Longrightarrow> receiver r \<Longrightarrow> rest rd = enc (obs m) @ trail \<Longrightarrow>
      \<exists>r'. get r rd = (rd\<lparr>rest := trail\<rparr>, r', None) \<and> obs r' = obs m \<and> receiver r'"
begin

lemma put_all_stream:
  assumes "\<forall>m \<in> set ms. sendable m" "bw_ok w" "put_all put ms w = (w', None)"
  shows "bw_ok w' \<and> stream w' = stream w @ concat (map (\<lambda>m. enc (obs m)) ms)"
  using assms
proof (induction ms arbitrary: w)
  case (Cons m ms)
  obtain w1 m1 where p: "put m w = (w1, m1, None)" "put_all put ms w1 = (w', None)"
    using Cons.prems(3) by (auto split: prod.splits option.splits)
  note e = put_enc [OF _ Cons.prems(2) p(1)]
  from Cons.IH [OF _ _ p(2)] e Cons.prems(1) show ?case by simp
qed simp

lemma put_all_unlimited:
  assumes "\<forall>m \<in> set ms. sendable m" "bw_ok w" "bw_unlimited w"
  shows "\<exists>w'. put_all put ms w = (w', None) \<and> bw_unlimited w'"
  using assms
proof (induction ms arbitrary: w)
  case (Cons m ms)
  then obtain w1 m1 where p: "put m w = (w1, m1, None)" "bw_unlimited w1"
    using put_total [of m w] by auto
  with put_enc [OF _ Cons.prems(2) p(1)] Cons.prems(1) Cons.IH [of w1] show ?case by simp
qed simp

lemma get_all_stream:
  assumes "\<forall>m \<in> set ms. sendable m" "receiver r" "rest rd = concat (map (\<lambda>m. enc (obs m)) ms) @ trail"
  shows "\<exists>r'. get_all get obs (length ms) r rd = (rd\<lparr>rest := trail\<rparr>, r', Inr (map obs ms)) \<and> receiver r'"
  using assms
proof (induction ms arbitrary: r rd)
  case Nil
  have "rd\<lparr>rest := trail\<rparr> = rd" using Nil.prems(3) by (cases rd) simp
  with Nil show ?case by simp
next
  case (Cons m ms)
  obtain r1 where g: "get r rd = (rd\<lparr>rest := concat (map (\<lambda>m. enc (obs m)) ms) @ trail\<rparr>, r1, None)"
      "obs r1 = obs m" "receiver r1"
    using get_enc [of m r rd] Cons.prems by auto
  from Cons.IH [OF _ g(3), of "rd\<lparr>rest := concat (map (\<lambda>m. enc (obs m)) ms) @ trail\<rparr>"] Cons.prems(1) g
  show ?case by auto
qed

text \<open>
  Pipelining: whatever messages are written to an unlimited sink, a reader of the bytes gets
  the same messages in the same order and leaves what follows them.
\<close>

lemma pipeline:
  assumes "\<forall>m \<in> set ms. sendable m" "bw_ok w" "bw_unlimited w" "receiver r"
  shows "\<exists>w' r'. put_all put ms w = (w', None) \<and>
      (\<exists>sent. stream w' = stream w @ sent \<and>
        get_all get obs (length ms) r \<lparr>rest = sent @ trail, rend = e\<rparr> =
          (\<lparr>rest = trail, rend = e\<rparr>, r', Inr (map obs ms)))"
proof -
  obtain w' where w': "put_all put ms w = (w', None)"
    using put_all_unlimited [OF assms(1-3)] by blast
  let ?sent = "concat (map (\<lambda>m. enc (obs m)) ms)"
  have "stream w' = stream w @ ?sent"
    using put_all_stream [OF assms(1,2) w'] by simp
  moreover obtain r' where "get_all get obs (length ms) r \<lparr>rest = ?sent @ trail, rend = e\<rparr> =
      (\<lparr>rest = trail, rend = e\<rparr>, r', Inr (map obs ms))"
    using get_all_stream [OF assms(1,4), of "\<lparr>rest = ?sent @ trail, rend = e\<rparr>" trail] by auto
  ultimately show ?thesis using w' by blast
qed

end

end
