(* ===== verification/ProtoTypes.thy ===== *)
theory ProtoTypes
  imports Prelude
begin

text \<open>
  The message and enum types of \<^verbatim>\<open>gen/base1/*.pb.go\<close>. An enum is a Go \<^verbatim>\<open>int32\<close>, so a
  value outside the declared ones is possible and is kept; its \<open>_name\<close> and \<open>_value\<close> tables
  are the generated maps. A message is a record of its public fields (the protobuf runtime's own
  fields \<^verbatim>\<open>state\<close>, \<^verbatim>\<open>unknownFields\<close> and \<^verbatim>\<open>sizeCache\<close> are left out). A pointer to a
  message that nobody writes through is an option, \<open>None\<close> being \<^verbatim>\<open>nil\<close>; the rules of a
  Target or Report, which the client stamps in place, are addresses into a store (theory Payer),
  so a request is parameterised by how its rules are held. The wire encoding is the protobuf
  library's and is a parameter of the model.
\<close>

section \<open>Enums\<close>

type_synonym int32 = "32 word"

definition TrafficType_name :: "(int \<times> string) list" where
  "TrafficType_name =
    [(0, ''TRAFFIC_TYPE_VIDEO''), (1, ''TRAFFIC_TYPE_DISPLAY''), (2, ''TRAFFIC_TYPE_AUDIO''),
     (3, ''TRAFFIC_TYPE_NATIVE''), (4, ''TRAFFIC_TYPE_VIDEO_SENSITIVE''),
     (5, ''TRAFFIC_TYPE_DISPLAY_SENSITIVE'')]"

definition TrafficType_value :: "(string \<times> int) list" where
  "TrafficType_value =
    [(''TRAFFIC_TYPE_VIDEO'', 0), (''TRAFFIC_TYPE_DISPLAY'', 1), (''TRAFFIC_TYPE_AUDIO'', 2),
     (''TRAFFIC_TYPE_NATIVE'', 3), (''TRAFFIC_TYPE_VIDEO_SENSITIVE'', 4),
     (''TRAFFIC_TYPE_DISPLAY_SENSITIVE'', 5)]"

definition EventType_name :: "(int \<times> string) list" where
  "EventType_name =
    [(0, ''EVENT_TYPE_IMPRESSION''), (1, ''EVENT_TYPE_BILLING''),
     (2, ''EVENT_TYPE_VIEWABLE_IMPRESSION''), (4, ''EVENT_TYPE_CLICK''), (5, ''EVENT_TYPE_WINS''),
     (6, ''EVENT_TYPE_AT''), (7, ''EVENT_TYPE_BIDS'')]"

definition EventType_value :: "(string \<times> int) list" where
  "EventType_value =
    [(''EVENT_TYPE_IMPRESSION'', 0), (''EVENT_TYPE_BILLING'', 1),
     (''EVENT_TYPE_VIEWABLE_IMPRESSION'', 2), (''EVENT_TYPE_CLICK'', 4), (''EVENT_TYPE_WINS'', 5),
     (''EVENT_TYPE_AT'', 6), (''EVENT_TYPE_BIDS'', 7)]"

text \<open>The status codes of a response; \<open>OK\<close> is 1, so that 0 (\<open>UNKNOWN\<close>) is never a success.\<close>

definition RPC_UNKNOWN :: int32 where "RPC_UNKNOWN = 0"
definition RPC_OK :: int32 where "RPC_OK = 1"
definition RPC_UNAUTHORIZED :: int32 where "RPC_UNAUTHORIZED = 2"
definition RPC_SERVICE_UNAVAILABLE :: int32 where "RPC_SERVICE_UNAVAILABLE = 3"
definition RPC_OUTDATED :: int32 where "RPC_OUTDATED = 4"
definition RPC_INVALID_REQUEST :: int32 where "RPC_INVALID_REQUEST = 5"
definition RPC_TECH_ERROR :: int32 where "RPC_TECH_ERROR = 6"
definition RPC_NETWORK_ERROR :: int32 where "RPC_NETWORK_ERROR = 7"
definition RPC_FORBIDDEN :: int32 where "RPC_FORBIDDEN = 8"

lemmas rpc_codes = RPC_UNKNOWN_def RPC_OK_def RPC_UNAUTHORIZED_def RPC_SERVICE_UNAVAILABLE_def
  RPC_OUTDATED_def RPC_INVALID_REQUEST_def RPC_TECH_ERROR_def RPC_NETWORK_ERROR_def RPC_FORBIDDEN_def

definition RPCServerResponseCode_name :: "(int \<times> string) list" where
  "RPCServerResponseCode_name =
    [(0, ''UNKNOWN''), (1, ''OK''), (2, ''UNAUTHORIZED''), (3, ''SERVICE_UNAVAILABLE''),
     (4, ''OUTDATED''), (5, ''INVALID_REQUEST''), (6, ''TECH_ERROR''), (7, ''NETWORK_ERROR''),
     (8, ''FORBIDDEN'')]"

definition RPCServerResponseCode_value :: "(string \<times> int) list" where
  "RPCServerResponseCode_value =
    [(''UNKNOWN'', 0), (''OK'', 1), (''UNAUTHORIZED'', 2), (''SERVICE_UNAVAILABLE'', 3),
     (''OUTDATED'', 4), (''INVALID_REQUEST'', 5), (''TECH_ERROR'', 6), (''NETWORK_ERROR'', 7),
     (''FORBIDDEN'', 8)]"

definition Match_OK :: int32 where "Match_OK = 0"

definition Match_ResponseStatus_name :: "(int \<times> string) list" where
  "Match_ResponseStatus_name =
    [(0, ''OK''), (1, ''MISS''), (2, ''ACCESS_DENIED''), (3, ''SERVICE_UNAVAILABLE''),
     (4, ''UNKNOWN_SEGMENT'')]"

definition Match_ResponseStatus_value :: "(string \<times> int) list" where
  "Match_ResponseStatus_value =
    [(''OK'', 0), (''MISS'', 1), (''ACCESS_DENIED'', 2), (''SERVICE_UNAVAILABLE'', 3),
     (''UNKNOWN_SEGMENT'', 4)]"

definition Frequency_STATUS_PASSED :: int32 where "Frequency_STATUS_PASSED = 2"

definition Frequency_ResponseStatus_name :: "(int \<times> string) list" where
  "Frequency_ResponseStatus_name =
    [(0, ''STATUS_UNSPECIFIED''), (1, ''STATUS_EXCEED''), (2, ''STATUS_PASSED''),
     (3, ''STATUS_ACCESS_DENIED''), (4, ''STATUS_SERVICE_UNAVAILABLE''),
     (5, ''STATUS_LIMIT_ID_MISMATCH'')]"

definition Frequency_ResponseStatus_value :: "(string \<times> int) list" where
  "Frequency_ResponseStatus_value =
    [(''STATUS_UNSPECIFIED'', 0), (''STATUS_EXCEED'', 1), (''STATUS_PASSED'', 2),
     (''STATUS_ACCESS_DENIED'', 3), (''STATUS_SERVICE_UNAVAILABLE'', 4),
     (''STATUS_LIMIT_ID_MISMATCH'', 5)]"

definition Frequency_Limit_Type_name :: "(int \<times> string) list" where
  "Frequency_Limit_Type_name =
    [(0, ''TYPE_MINUTE''), (1, ''TYPE_HOUR''), (2, ''TYPE_DAY''), (3, ''TYPE_WEEK'')]"

definition Frequency_Limit_Type_value :: "(string \<times> int) list" where
  "Frequency_Limit_Type_value =
    [(''TYPE_MINUTE'', 0), (''TYPE_HOUR'', 1), (''TYPE_DAY'', 2), (''TYPE_WEEK'', 3)]"

definition Frequency_Limit_Mode_name :: "(int \<times> string) list" where
  "Frequency_Limit_Mode_name = [(0, ''CAP_MODE_CAPPING''), (1, ''CAP_MODE_FREEZE'')]"

definition Frequency_Limit_Mode_value :: "(string \<times> int) list" where
  "Frequency_Limit_Mode_value = [(''CAP_MODE_CAPPING'', 0), (''CAP_MODE_FREEZE'', 1)]"

definition UID_OTP :: int32 where "UID_OTP = 0"
definition UID_PARTNER_UID :: int32 where "UID_PARTNER_UID = 2"
definition UID_DEVICE_ID :: int32 where "UID_DEVICE_ID = 3"
definition UID_EXTERNAL_UID :: int32 where "UID_EXTERNAL_UID = 4"

definition UID_Type_name :: "(int \<times> string) list" where
  "UID_Type_name =
    [(0, ''OTP''), (2, ''PARTNER_UID''), (3, ''DEVICE_ID''), (4, ''EXTERNAL_UID''),
     (5, ''DEVICE_ID_ENCRYPTED'')]"

definition UID_Type_value :: "(string \<times> int) list" where
  "UID_Type_value =
    [(''OTP'', 0), (''PARTNER_UID'', 2), (''DEVICE_ID'', 3), (''EXTERNAL_UID'', 4),
     (''DEVICE_ID_ENCRYPTED'', 5)]"

definition TouchResponse_Reliable :: int32 where "TouchResponse_Reliable = 1"

definition TouchResponse_Accuracy_name :: "(int \<times> string) list" where
  "TouchResponse_Accuracy_name = [(0, ''Ambiguous''), (1, ''Reliable'')]"

definition TouchResponse_Accuracy_value :: "(string \<times> int) list" where
  "TouchResponse_Accuracy_value = [(''Ambiguous'', 0), (''Reliable'', 1)]"

lemmas enum_tables =
  TrafficType_name_def TrafficType_value_def EventType_name_def EventType_value_def
  RPCServerResponseCode_name_def RPCServerResponseCode_value_def
  Match_ResponseStatus_name_def Match_ResponseStatus_value_def
  Frequency_ResponseStatus_name_def Frequency_ResponseStatus_value_def
  Frequency_Limit_Type_name_def Frequency_Limit_Type_value_def
  Frequency_Limit_Mode_name_def Frequency_Limit_Mode_value_def
  UID_Type_name_def UID_Type_value_def
  TouchResponse_Accuracy_name_def TouchResponse_Accuracy_value_def

text \<open>The two tables of an enum: every name has one number, every number one name, the same pairs.\<close>

definition enum_tables_agree :: "(int \<times> string) list \<Rightarrow> (string \<times> int) list \<Rightarrow> bool" where
  "enum_tables_agree names values \<longleftrightarrow>
     distinct (map fst names) \<and> distinct (map fst values) \<and>
     values = map (\<lambda>(n, s). (s, n)) names"

lemma enum_tables_agree_inverse:
  "enum_tables_agree names values \<Longrightarrow> map_of names n = Some s \<longleftrightarrow> map_of values s = Some n"
  by (force simp: enum_tables_agree_def map_of_eq_Some_iff comp_def split_beta image_iff)

section \<open>Messages\<close>

record uid =
  UID_Id :: bytes
  UID_Type :: int32
  UID_Source :: string

record request_context =
  Context_Ip :: bytes
  Context_Ua :: bytes
  Context_Url :: bytes
  Context_Referrer :: bytes
  Context_Bundle :: bytes

record frequency_limit =
  Limit_AdsPerUser :: uint32
  Limit_Period :: uint32
  Limit_PeriodType :: int32
  Limit_Event :: int32
  Limit_CapMode :: int32
  Limit_FreezePeriodSeconds :: uint32

record frequency_rule =
  Frequency_Key :: uint64
  Frequency_Limit :: "frequency_limit option"

record match_rule =
  Match_TrafficType :: int32
  Match_SegmentIds :: "uint32 list"
  Match_Payer :: string

record inventory =
  Inventory_Id :: uint64
  Inventory_AccountID :: uint64
  Inventory_PublisherID :: uint64
  Inventory_Aid :: uint64

record 'r target_request =
  TargetRequest_Uids :: "uid option list"
  TargetRequest_Frequency :: "frequency_rule option list"
  TargetRequest_Match :: "'r list"
  TargetRequest_IndividualErrors :: bool
  TargetRequest_Context :: "request_context option"
  TargetRequest_Inventory :: "inventory option"

record target_response =
  TargetResponse_TrackingId :: bytes
  TargetResponse_StatusCode :: int32
  TargetResponse_Frequency :: "int32 list"
  TargetResponse_Match :: "int32 list"

record report_rule =
  ReportRule_TrafficType :: int32
  ReportRule_EventsCount :: uint32
  ReportRule_SegmentIds :: "uint32 list"
  ReportRule_Frequency :: "uint64 list"
  ReportRule_LI :: uint32
  ReportRule_CmpID :: uint32
  ReportRule_Payer :: string

record 'r report_request =
  ReportRequest_Payer :: string
  ReportRequest_TrackingId :: "bytes option"
  ReportRequest_Event :: int32
  ReportRequest_Rules :: "'r list"

record touch_request =
  TouchRequest_Uids :: "uid option list"
  TouchRequest_Context :: "request_context option"
  TouchRequest_Inventory :: "inventory option"

record touch_response =
  TouchResponse_UserId :: bytes
  TouchResponse_Accuracy :: int32
  TouchResponse_Label :: bytes

text \<open>The generated getters read a nil message as the empty one.\<close>

definition Match_Rule_GetPayer :: "match_rule option \<Rightarrow> string" where
  "Match_Rule_GetPayer x = (case x of Some r \<Rightarrow> Match_Payer r | None \<Rightarrow> '''')"

definition ReportRequest_Rule_GetPayer :: "report_rule option \<Rightarrow> string" where
  "ReportRequest_Rule_GetPayer x = (case x of Some r \<Rightarrow> ReportRule_Payer r | None \<Rightarrow> '''')"

definition TargetRequest_GetMatch :: "'r target_request option \<Rightarrow> 'r list" where
  "TargetRequest_GetMatch x = (case x of Some r \<Rightarrow> TargetRequest_Match r | None \<Rightarrow> [])"

definition ReportRequest_GetPayer :: "'r report_request option \<Rightarrow> string" where
  "ReportRequest_GetPayer x = (case x of Some r \<Rightarrow> ReportRequest_Payer r | None \<Rightarrow> '''')"

definition ReportRequest_GetRules :: "'r report_request option \<Rightarrow> 'r list" where
  "ReportRequest_GetRules x = (case x of Some r \<Rightarrow> ReportRequest_Rules r | None \<Rightarrow> [])"

lemmas getters = Match_Rule_GetPayer_def ReportRequest_Rule_GetPayer_def TargetRequest_GetMatch_def
  ReportRequest_GetPayer_def ReportRequest_GetRules_def

end
