(* ===== verification/Wire.thy ===== *)
theory Wire
  imports GoBuf ProtoTypes
begin

unbundle bit_operations_syntax

text \<open>
  The wire contract of \<^verbatim>\<open>pkg/contract\<close>: a request or a response is one head byte (the RPC
  register or the status code), the length of the value as four little-endian bytes, and the
  value. \<^verbatim>\<open>common.go\<close> gives the length-prefixed bytes, \<^verbatim>\<open>const.go\<close> the registers,
  \<^verbatim>\<open>request.go\<close> and \<^verbatim>\<open>response.go\<close> the two messages with their pools, and
  \<^verbatim>\<open>requestCtx.go\<close> the server's per-request context. The locales of GoBuf are
  interpreted here on the code's own readers, writers and pools.
\<close>

section \<open>const.go: the RPC registers\<close>

type_synonym RPCRegister = "8 word"

definition Unknown :: RPCRegister where "Unknown = 0"
definition Target :: RPCRegister where "Target = 1"
definition Report :: RPCRegister where "Report = 2"
definition Touch :: RPCRegister where "Touch = 3"
definition Auth :: RPCRegister where "Auth = 4"
definition MaxRequestIdentifier :: RPCRegister where "MaxRequestIdentifier = Touch"

lemmas registers = Unknown_def Target_def Report_def Touch_def Auth_def MaxRequestIdentifier_def

text \<open>\<^verbatim>\<open>String\<close> panics on a register it does not know: \<open>None\<close>.\<close>

definition RPCRegister_String :: "RPCRegister \<Rightarrow> string option" where
  "RPCRegister_String r =
     (if r = Target then Some ''target''
      else if r = Report then Some ''report''
      else if r = Touch then Some ''touch''
      else if r = Auth then Some ''auth''
      else None)"

section \<open>common.go: length-prefixed bytes\<close>

definition maxBytesSize :: nat where
  "maxBytesSize = 1024 * 1024"

definition appendUint32 :: "bytes \<Rightarrow> uint32 \<Rightarrow> bytes" where
  "appendUint32 b n =
     b @ [ucast n, ucast (drop_bit 8 n), ucast (drop_bit 16 n), ucast (drop_bit 24 n)]"

text \<open>The buffers handed to \<^verbatim>\<open>bytes2Uint32\<close> hold four bytes (\<open>request_ok\<close>, \<open>response_ok\<close>).\<close>

definition bytes2Uint32 :: "bytes \<Rightarrow> uint32" where
  "bytes2Uint32 b =
     push_bit 24 (ucast (b ! 3)) OR push_bit 16 (ucast (b ! 2)) OR
     push_bit 8 (ucast (b ! 1)) OR ucast (b ! 0)"

lemma length_appendUint32 [simp]: "length (appendUint32 b n) = length b + 4"
  by (simp add: appendUint32_def)

lemma bytes2Uint32_appendUint32: "bytes2Uint32 (appendUint32 [] n) = n"
proof (rule bit_word_eqI)
  fix k assume "k < LENGTH(32)"
  then consider "k < 8" | "8 \<le> k" "k < 16" | "16 \<le> k" "k < 24" | "24 \<le> k" "k < 32"
    by fastforce
  then show "bit (bytes2Uint32 (appendUint32 [] n)) k = bit n k"
    by cases (auto simp: bytes2Uint32_def appendUint32_def bit_simps not_le not_less less_diff_conv2)
qed

lemma unat_uint32_of_nat: "n \<le> maxBytesSize \<Longrightarrow> unat (of_nat n :: uint32) = n"
  by (simp add: maxBytesSize_def unsigned_of_nat take_bit_nat_eq_self)

text \<open>
  \<^verbatim>\<open>writeBytes\<close> formats the size into the caller's scratch buffer and returns it as it is
  then; an oversized value is refused before anything is written.
\<close>

definition writeBytes :: "bufw \<Rightarrow> bytes \<Rightarrow> bytes \<Rightarrow> bufw \<times> bytes \<times> go_error option" where
  "writeBytes bw b sizeBuf =
     (let sz = length b in
      if maxBytesSize < sz
      then (bw, sizeBuf, Some (Errorf ''too big size=%d. Must not exceed %d''
                                 [AInt (int sz), AInt (int maxBytesSize)]))
      else
        let buf = appendUint32 [] (of_nat sz); sizeBuf' = fill buf sizeBuf in
        case bw_write bw buf of
          (bw1, Some err) \<Rightarrow> (bw1, sizeBuf', Some (Errorf ''cannot write size: %s'' [AText err]))
        | (bw1, None) \<Rightarrow>
            (case bw_write bw1 b of
               (bw2, Some err) \<Rightarrow>
                 (bw2, sizeBuf', Some (Errorf ''cannot write body with size %d: %s''
                                         [AInt (int sz), AText err]))
             | (bw2, None) \<Rightarrow> (bw2, sizeBuf', None)))"

text \<open>
  \<^verbatim>\<open>readBytes\<close> reads into the caller's slice when its capacity suffices and into a new
  array otherwise. A short body leaves the bytes it got, followed by what the slice held.
\<close>

definition readBuf :: "nat \<Rightarrow> slice \<Rightarrow> slice" where
  "readBuf sz b = slice_upto sz (if slice_cap b < sz then slice_of (replicate sz 0) else b)"

definition readBytes :: "bufr \<Rightarrow> slice \<Rightarrow> bytes \<Rightarrow> bufr \<times> slice \<times> bytes \<times> go_error option" where
  "readBytes br b sizeBuf =
     (case read_full br (length sizeBuf) of
        (br1, got, Some err) \<Rightarrow>
          (br1, b, fill got sizeBuf, Some (Errorf ''cannot read size: %s'' [AText err]))
      | (br1, got, None) \<Rightarrow>
          (let sizeBuf' = fill got sizeBuf; sz = unat (bytes2Uint32 sizeBuf') in
           if maxBytesSize < sz
           then (br1, b, sizeBuf', Some (Errorf ''too big size=%d. Must not exceed %d''
                                           [AInt (int sz), AInt (int maxBytesSize)]))
           else
             let b1 = readBuf sz b in
             case read_full br1 sz of
               (br2, body, err) \<Rightarrow>
                 (br2, b1\<lparr>vis := fill body (vis b1)\<rparr>, sizeBuf',
                  map_option (\<lambda>e. Errorf ''cannot read body with size %d: %s''
                                [AInt (int sz), AText e]) err)))"

lemma length_vis_readBuf [simp]: "length (vis (readBuf sz b)) = sz"
  by (simp add: readBuf_def length_vis_upto slice_cap_def slice_of_def)

text \<open>The bytes \<^verbatim>\<open>writeBytes\<close> puts on the wire, and \<^verbatim>\<open>readBytes\<close> takes off it.\<close>

definition tlv_body :: "bytes \<Rightarrow> bytes" where
  "tlv_body v = appendUint32 [] (of_nat (length v)) @ v"

lemma length_tlv_body: "length (tlv_body v) = 4 + length v"
  by (simp add: tlv_body_def)

lemma readBytes_tlv_body:
  assumes "length v \<le> maxBytesSize" "length sizeBuf = 4" "rest br = tlv_body v @ trail"
  shows "\<exists>b'. readBytes br b sizeBuf =
      (br\<lparr>rest := trail\<rparr>, b', appendUint32 [] (of_nat (length v)), None) \<and> vis b' = v"
proof -
  let ?hdr = "appendUint32 [] (of_nat (length v) :: uint32)"
  have sz: "unat (bytes2Uint32 ?hdr) = length v"
    using assms(1) by (simp add: bytes2Uint32_appendUint32 unat_uint32_of_nat)
  have r1: "read_full br 4 = (br\<lparr>rest := v @ trail\<rparr>, ?hdr, None)"
    using assms(3) by (simp add: read_full_def tlv_body_def)
  have r2: "read_full (br\<lparr>rest := v @ trail\<rparr>) (length v) = (br\<lparr>rest := trail\<rparr>, v, None)"
    by (simp add: read_full_def)
  show ?thesis
    using assms(1,2) r1 r2 sz by (simp add: readBytes_def Let_def)
qed

lemma bit_byte_high [simp]: "8 \<le> k \<Longrightarrow> \<not> bit (b :: byte) k"
  using bit_imp_le_length [of b k] by auto

lemma appendUint32_bytes2Uint32:
  assumes "length b = 4"
  shows "appendUint32 [] (bytes2Uint32 b) = b"
proof -
  obtain b0 b1 b2 b3 where b: "b = [b0, b1, b2, b3]"
    using assms by (auto simp: numeral_eq_Suc length_Suc_conv)
  show ?thesis
    unfolding b appendUint32_def bytes2Uint32_def
    by (auto intro!: bit_word_eqI simp: bit_simps not_le)
qed

text \<open>
  A successful read is the exact inverse of the write: what it took off the stream is the frame
  of the value it returns, whatever the reused buffer held before.
\<close>

lemma readBytes_ok:
  assumes "readBytes br b sizeBuf = (br', b', sizeBuf', None)" "length sizeBuf = 4"
  shows "rest br = tlv_body (vis b') @ rest br' \<and> length (vis b') \<le> maxBytesSize \<and>
         length sizeBuf' = 4 \<and> rend br' = rend br"
proof -
  obtain br1 got where r1: "read_full br 4 = (br1, got, None)"
    using assms by (auto simp: readBytes_def split: prod.splits option.splits)
  note c1 = read_full_consumes [OF r1]
  define sz where "sz = unat (bytes2Uint32 got)"
  have fit: "\<not> maxBytesSize < sz" and sb: "sizeBuf' = got"
    using assms r1 c1 by (auto simp: readBytes_def Let_def sz_def split: if_splits prod.splits)
  then obtain body where r2: "read_full br1 sz = (br', body, None)"
      and b': "b' = (readBuf sz b)\<lparr>vis := fill body (vis (readBuf sz b))\<rparr>"
    using assms r1 c1
    by (auto simp: readBytes_def Let_def sz_def split: if_splits prod.splits)
  note c2 = read_full_consumes [OF r2]
  then have v: "vis b' = body" using b' by simp
  have "appendUint32 [] (of_nat (length body)) = got"
    using c1 c2 by (simp add: sz_def appendUint32_bytes2Uint32)
  with v c1 c2 fit sb show ?thesis by (simp add: tlv_body_def)
qed

section \<open>request.go\<close>

record request =
  req_value :: slice
  req_code :: RPCRegister
  req_sizeBuf :: bytes

definition new_Request :: request where
  "new_Request = \<lparr>req_value = slice_nil, req_code = 0, req_sizeBuf = replicate 4 0\<rparr>"

definition Request_Reset :: "request \<Rightarrow> request" where
  "Request_Reset req = req\<lparr>req_code := 0, req_value := slice_upto 0 (req_value req)\<rparr>"

definition Request_SetName :: "RPCRegister \<Rightarrow> request \<Rightarrow> request" where
  "Request_SetName code req = req\<lparr>req_code := code\<rparr>"

definition Request_GetName :: "request \<Rightarrow> RPCRegister" where
  "Request_GetName req = req_code req"

definition Request_Append :: "(nat \<Rightarrow> nat \<Rightarrow> nat) \<Rightarrow> bytes \<Rightarrow> request \<Rightarrow> request" where
  "Request_Append grow p req = req\<lparr>req_value := slice_append grow (req_value req) p\<rparr>"

definition Request_Write :: "(nat \<Rightarrow> nat \<Rightarrow> nat) \<Rightarrow> bytes \<Rightarrow> request \<Rightarrow> request \<times> nat" where
  "Request_Write grow p req = (Request_Append grow p req, length p)"

definition Request_SwapValue :: "slice \<Rightarrow> request \<Rightarrow> request \<times> slice" where
  "Request_SwapValue value req = (req\<lparr>req_value := value\<rparr>, req_value req)"

definition Request_Value :: "request \<Rightarrow> bytes" where
  "Request_Value req = vis (req_value req)"

definition WriteRequest :: "request \<Rightarrow> bufw \<Rightarrow> bufw \<times> request \<times> go_error option" where
  "WriteRequest req bw =
     (case bw_write_byte bw (req_code req) of
        (bw1, Some err) \<Rightarrow> (bw1, req, Some (Errorf ''cannot write request code: %s'' [AText err]))
      | (bw1, None) \<Rightarrow>
          (case writeBytes bw1 (vis (req_value req)) (req_sizeBuf req) of
             (bw2, sb, err) \<Rightarrow>
               (bw2, req\<lparr>req_sizeBuf := sb\<rparr>,
                map_option (\<lambda>e. Errorf ''cannot write request value: %s'' [AText e]) err)))"

definition ReadRequest :: "request \<Rightarrow> bufr \<Rightarrow> bufr \<times> request \<times> go_error option" where
  "ReadRequest req br =
     (case br_read_byte br of
        (br1, Inl err) \<Rightarrow> (br1, req, Some (Errorf ''cannot read request code: %s'' [AText err]))
      | (br1, Inr rc) \<Rightarrow>
          (case readBytes br1 (slice_upto 0 (req_value req)) (req_sizeBuf req) of
             (br2, v, sb, err) \<Rightarrow>
               (br2, req\<lparr>req_code := rc, req_value := v, req_sizeBuf := sb\<rparr>,
                map_option (\<lambda>e. Errorf ''cannot read request value: %s'' [AText e]) err)))"

definition AcquireRequest :: "nat option \<Rightarrow> request list \<Rightarrow> request \<times> request list" where
  "AcquireRequest = pool_acquire new_Request"

definition ReleaseRequest :: "request \<Rightarrow> request list \<Rightarrow> request list" where
  "ReleaseRequest = pool_release Request_Reset"

lemmas request_ops = Request_Reset_def Request_SetName_def Request_GetName_def Request_Append_def
  Request_Write_def Request_SwapValue_def Request_Value_def new_Request_def


section \<open>response.go\<close>

record response =
  resp_value :: slice
  resp_sizeBuf :: bytes
  resp_statusCode :: int32

definition new_Response :: response where
  "new_Response = \<lparr>resp_value = slice_nil, resp_sizeBuf = replicate 4 0, resp_statusCode = 0\<rparr>"

definition SetStatusCode :: "int32 \<Rightarrow> response \<Rightarrow> response" where
  "SetStatusCode code resp = resp\<lparr>resp_statusCode := code\<rparr>"

definition GetStatusCode :: "response \<Rightarrow> int32" where
  "GetStatusCode resp = resp_statusCode resp"

definition Response_Reset :: "response \<Rightarrow> response" where
  "Response_Reset resp =
     resp\<lparr>resp_statusCode := RPC_OK, resp_value := slice_upto 0 (resp_value resp)\<rparr>"

definition Response_Append :: "(nat \<Rightarrow> nat \<Rightarrow> nat) \<Rightarrow> bytes \<Rightarrow> response \<Rightarrow> response" where
  "Response_Append grow p resp = resp\<lparr>resp_value := slice_append grow (resp_value resp) p\<rparr>"

definition Response_Write :: "(nat \<Rightarrow> nat \<Rightarrow> nat) \<Rightarrow> bytes \<Rightarrow> response \<Rightarrow> response \<times> nat" where
  "Response_Write grow p resp = (Response_Append grow p resp, length p)"

definition Response_SwapValue :: "slice \<Rightarrow> response \<Rightarrow> response \<times> slice" where
  "Response_SwapValue value resp = (resp\<lparr>resp_value := value\<rparr>, resp_value resp)"

definition Response_Value :: "response \<Rightarrow> bytes" where
  "Response_Value resp = vis (resp_value resp)"

text \<open>
  The status code is an \<^verbatim>\<open>int32\<close>, but one byte goes on the wire: \<^verbatim>\<open>byte(statusCode)\<close>
  keeps the low eight bits, and the reader extends them with zeros.
\<close>

definition WriteResponse :: "response \<Rightarrow> bufw \<Rightarrow> bufw \<times> response \<times> go_error option" where
  "WriteResponse resp bw =
     (case bw_write_byte bw (ucast (resp_statusCode resp)) of
        (bw1, Some err) \<Rightarrow>
          (bw1, resp, Some (Errorf ''cannot write response status code: %s'' [AText err]))
      | (bw1, None) \<Rightarrow>
          (case writeBytes bw1 (vis (resp_value resp)) (resp_sizeBuf resp) of
             (bw2, sb, err) \<Rightarrow>
               (bw2, resp\<lparr>resp_sizeBuf := sb\<rparr>,
                map_option (\<lambda>e. Errorf ''cannot write response value: %s'' [AText e]) err)))"

definition ReadResponse :: "response \<Rightarrow> bufr \<Rightarrow> bufr \<times> response \<times> go_error option" where
  "ReadResponse resp br =
     (case br_read_byte br of
        (br1, Inl err) \<Rightarrow>
          (br1, resp, Some (Errorf ''cannot read response status code: %s'' [AText err]))
      | (br1, Inr sc) \<Rightarrow>
          (case readBytes br1 (slice_upto 0 (resp_value resp)) (resp_sizeBuf resp) of
             (br2, v, sb, err) \<Rightarrow>
               (br2, resp\<lparr>resp_statusCode := ucast sc, resp_value := v, resp_sizeBuf := sb\<rparr>,
                map_option (\<lambda>e. Errorf ''cannot read request value: %s'' [AText e]) err)))"

definition AcquireResponse :: "nat option \<Rightarrow> response list \<Rightarrow> response \<times> response list" where
  "AcquireResponse = pool_acquire new_Response"

definition ReleaseResponse :: "response \<Rightarrow> response list \<Rightarrow> response list" where
  "ReleaseResponse = pool_release Response_Reset"

lemmas response_ops = Response_Reset_def SetStatusCode_def GetStatusCode_def Response_Append_def
  Response_Write_def Response_SwapValue_def Response_Value_def new_Response_def

section \<open>Frames\<close>

text \<open>A message that fits, with its scratch buffer as declared.\<close>

definition request_ok :: "request \<Rightarrow> bool" where
  "request_ok req \<longleftrightarrow> length (req_sizeBuf req) = 4"

definition response_ok :: "response \<Rightarrow> bool" where
  "response_ok resp \<longleftrightarrow> length (resp_sizeBuf resp) = 4"

definition request_sendable :: "request \<Rightarrow> bool" where
  "request_sendable req \<longleftrightarrow> request_ok req \<and> length (Request_Value req) \<le> maxBytesSize"

definition response_sendable :: "response \<Rightarrow> bool" where
  "response_sendable resp \<longleftrightarrow> response_ok resp \<and> length (Response_Value resp) \<le> maxBytesSize \<and>
     unat (resp_statusCode resp) < 256"

definition request_obs :: "request \<Rightarrow> RPCRegister \<times> bytes" where
  "request_obs req = (Request_GetName req, Request_Value req)"

definition response_obs :: "response \<Rightarrow> int32 \<times> bytes" where
  "response_obs resp = (GetStatusCode resp, Response_Value resp)"

definition frame :: "byte \<times> bytes \<Rightarrow> bytes" where
  "frame m = fst m # tlv_body (snd m)"

definition response_frame :: "int32 \<times> bytes \<Rightarrow> bytes" where
  "response_frame m = frame (ucast (fst m), snd m)"

text \<open>Writing a value of the right size is the frame writer of the byte sink.\<close>

lemma writeBytes_cases:
  assumes "length v \<le> maxBytesSize"
  shows "writeBytes w v sb =
     (case bw_write w (appendUint32 [] (of_nat (length v))) of
        (w1, Some err) \<Rightarrow> (w1, fill (appendUint32 [] (of_nat (length v))) sb,
                            Some (Errorf ''cannot write size: %s'' [AText err]))
      | (w1, None) \<Rightarrow>
          (case bw_write w1 v of
             (w2, err) \<Rightarrow> (w2, fill (appendUint32 [] (of_nat (length v))) sb,
                map_option (\<lambda>e. Errorf ''cannot write body with size %d: %s''
                              [AInt (int (length v)), AText e]) err)))"
  using assms by (auto simp: writeBytes_def Let_def split: prod.splits option.splits)

lemma writeBytes_too_big:
  "maxBytesSize < length v \<Longrightarrow> \<exists>e. writeBytes w v sb = (w, sb, Some e)"
  by (simp add: writeBytes_def)

lemma WriteRequest_frame:
  assumes "request_sendable req"
  shows "\<exists>req' err'. WriteRequest req w =
      (fst (bufio.put_frame w (req_code req) (appendUint32 [] (of_nat (length (Request_Value req))))
              (Request_Value req)), req', err') \<and>
    (err' = None \<longleftrightarrow> snd (bufio.put_frame w (req_code req)
              (appendUint32 [] (of_nat (length (Request_Value req)))) (Request_Value req)) = None)"
  using assms
  by (auto simp: WriteRequest_def bufio.put_frame_def writeBytes_cases request_sendable_def
      Request_Value_def split: prod.splits option.splits)

lemma WriteResponse_frame:
  assumes "response_sendable resp"
  shows "\<exists>resp' err'. WriteResponse resp w =
      (fst (bufio.put_frame w (ucast (resp_statusCode resp))
              (appendUint32 [] (of_nat (length (Response_Value resp)))) (Response_Value resp)),
       resp', err') \<and>
    (err' = None \<longleftrightarrow> snd (bufio.put_frame w (ucast (resp_statusCode resp))
              (appendUint32 [] (of_nat (length (Response_Value resp)))) (Response_Value resp)) = None)"
  using assms
  by (auto simp: WriteResponse_def bufio.put_frame_def writeBytes_cases response_sendable_def
      Response_Value_def split: prod.splits option.splits)

lemma put_frame_is_frame:
  assumes "bw_ok w"
  shows "bufio.put_frame w c (appendUint32 [] (of_nat (length v))) v = (w', None) \<Longrightarrow>
      bw_ok w' \<and> stream w' = stream w @ frame (c, v)"
    and "bufio.put_frame w c (appendUint32 [] (of_nat (length v))) v = (w', Some e) \<Longrightarrow>
      \<exists>n. stream w' = stream w @ take n (frame (c, v))"
  using bufio.put_frame_ok [OF assms] bufio.put_frame_fail [OF assms]
  by (fastforce simp: frame_def tlv_body_def)+

lemma ReadRequest_frame:
  assumes "request_ok r" "length v \<le> maxBytesSize" "rest br = frame (c, v) @ trail"
  shows "\<exists>r'. ReadRequest r br = (br\<lparr>rest := trail\<rparr>, r', None) \<and> request_obs r' = (c, v) \<and>
      request_ok r'"
proof -
  have "rest (br\<lparr>rest := tlv_body v @ trail\<rparr>) = tlv_body v @ trail" by simp
  from readBytes_tlv_body [OF assms(2) _ this, of "req_sizeBuf r" "slice_upto 0 (req_value r)"]
  show ?thesis using assms(1,3)
    by (auto simp: ReadRequest_def br_read_byte_def frame_def request_ok_def request_obs_def request_ops)
qed

lemma ReadResponse_frame:
  assumes "response_ok r" "length v \<le> maxBytesSize" "rest br = frame (c, v) @ trail"
  shows "\<exists>r'. ReadResponse r br = (br\<lparr>rest := trail\<rparr>, r', None) \<and> response_obs r' = (ucast c, v) \<and>
      response_ok r'"
proof -
  have "rest (br\<lparr>rest := tlv_body v @ trail\<rparr>) = tlv_body v @ trail" by simp
  from readBytes_tlv_body [OF assms(2) _ this, of "resp_sizeBuf r" "slice_upto 0 (resp_value r)"]
  show ?thesis using assms(1,3)
    by (auto simp: ReadResponse_def br_read_byte_def frame_def response_ok_def response_obs_def
        response_ops)
qed

lemma status_byte_roundtrip: "unat (s :: int32) < 256 \<Longrightarrow> ucast (ucast s :: byte) = s"
  by (rule word_unat_eq_iff [THEN iffD2]) (simp add: unsigned_ucast_eq unsigned_take_bit_eq take_bit_nat_eq_self)


interpretation request_codec: message_codec WriteRequest ReadRequest request_obs frame
    request_sendable request_ok
proof unfold_locales
  fix m w w' m' assume a: "request_sendable m" "bw_ok w" "WriteRequest m w = (w', m', None)"
  from WriteRequest_frame [OF a(1), of w] a(3)
  have "bufio.put_frame w (req_code m) (appendUint32 [] (of_nat (length (Request_Value m))))
      (Request_Value m) = (w', None)" by (auto simp: prod_eq_iff)
  from put_frame_is_frame(1) [OF a(2) this]
  show "bw_ok w' \<and> stream w' = stream w @ frame (request_obs m)"
    by (simp add: request_obs_def Request_GetName_def)
next
  fix m w assume a: "request_sendable m" "bw_ok w" "bw_unlimited w"
  from WriteRequest_frame [OF a(1), of w] bufio.put_frame_unlimited [OF a(2,3)]
  show "\<exists>w' m'. WriteRequest m w = (w', m', None) \<and> bw_unlimited w'" by (metis fst_conv snd_conv)
next
  fix m r trail and rd :: bufr
  assume "request_sendable m" "request_ok r" "rest rd = frame (request_obs m) @ trail"
  then show "\<exists>r'. ReadRequest r rd = (rd\<lparr>rest := trail\<rparr>, r', None) \<and>
      request_obs r' = request_obs m \<and> request_ok r'"
    using ReadRequest_frame [of r "Request_Value m" rd "Request_GetName m" trail]
    by (simp add: request_obs_def request_sendable_def)
qed

interpretation response_codec: message_codec WriteResponse ReadResponse response_obs response_frame
    response_sendable response_ok
proof unfold_locales
  fix m w w' m' assume a: "response_sendable m" "bw_ok w" "WriteResponse m w = (w', m', None)"
  from WriteResponse_frame [OF a(1), of w] a(3)
  have "bufio.put_frame w (ucast (resp_statusCode m))
      (appendUint32 [] (of_nat (length (Response_Value m)))) (Response_Value m) = (w', None)"
    by (auto simp: prod_eq_iff)
  from put_frame_is_frame(1) [OF a(2) this]
  show "bw_ok w' \<and> stream w' = stream w @ response_frame (response_obs m)"
    by (simp add: response_frame_def response_obs_def GetStatusCode_def)
next
  fix m w assume a: "response_sendable m" "bw_ok w" "bw_unlimited w"
  from WriteResponse_frame [OF a(1), of w] bufio.put_frame_unlimited [OF a(2,3)]
  show "\<exists>w' m'. WriteResponse m w = (w', m', None) \<and> bw_unlimited w'" by (metis fst_conv snd_conv)
next
  fix m r trail and rd :: bufr
  assume "response_sendable m" "response_ok r" "rest rd = response_frame (response_obs m) @ trail"
  then show "\<exists>r'. ReadResponse r rd = (rd\<lparr>rest := trail\<rparr>, r', None) \<and>
      response_obs r' = response_obs m \<and> response_ok r'"
    using ReadResponse_frame [of r "Response_Value m" rd "ucast (GetStatusCode m)" trail]
    by (simp add: response_obs_def response_frame_def response_sendable_def GetStatusCode_def
        status_byte_roundtrip)
qed

section \<open>Pools\<close>

definition request_clean :: "request \<Rightarrow> bool" where
  "request_clean req \<longleftrightarrow> Request_Value req = [] \<and> Request_GetName req = Unknown"

definition response_clean :: "response \<Rightarrow> bool" where
  "response_clean resp \<longleftrightarrow> Response_Value resp = [] \<and>
     (GetStatusCode resp = RPC_UNKNOWN \<or> GetStatusCode resp = RPC_OK)"

interpretation request_pool: clean_pool AcquireRequest ReleaseRequest request_clean
proof unfold_locales
  show "request_clean x \<and> list_all request_clean p'"
    if "list_all request_clean p" "AcquireRequest pick p = (x, p')" for p pick x p'
    using pool_acquire_all [OF that(1) _ that(2) [unfolded AcquireRequest_def]]
    by (simp add: request_clean_def request_ops slice_nil_def Unknown_def)
  show "list_all request_clean (ReleaseRequest x p)" if "list_all request_clean p" for p x
    unfolding ReleaseRequest_def
    using that by (rule pool_release_all) (simp add: request_clean_def request_ops Unknown_def)
qed

interpretation response_pool: clean_pool AcquireResponse ReleaseResponse response_clean
proof unfold_locales
  show "response_clean x \<and> list_all response_clean p'"
    if "list_all response_clean p" "AcquireResponse pick p = (x, p')" for p pick x p'
    using pool_acquire_all [OF that(1) _ that(2) [unfolded AcquireResponse_def]]
    by (simp add: response_clean_def response_ops slice_nil_def rpc_codes)
  show "list_all response_clean (ReleaseResponse x p)" if "list_all response_clean p" for p x
    unfolding ReleaseResponse_def
    using that by (rule pool_release_all) (simp add: response_clean_def response_ops rpc_codes)
qed

section \<open>requestCtx.go\<close>

text \<open>
  An address of a connection: the TCP one, any other kind, or nil (\<open>None\<close>). A connection is a
  parameter here: its two addresses are all the context reads of it.
\<close>

datatype net_addr = TCPAddr bytes | OtherAddr string

definition IPv4zero :: bytes where
  "IPv4zero = replicate 10 0 @ [255, 255] @ replicate 4 0"

definition zeroTCPAddr :: net_addr where
  "zeroTCPAddr = TCPAddr IPv4zero"

record 'c request_ctx =
  ctx_Request :: request
  ctx_Response :: response
  ctx_conn :: 'c

definition Ctx_Init :: "'c \<Rightarrow> 'c request_ctx \<Rightarrow> 'c request_ctx" where
  "Ctx_Init conn ctx =
     ctx\<lparr>ctx_Request := Request_Reset (ctx_Request ctx),
         ctx_Response := Response_Reset (ctx_Response ctx), ctx_conn := conn\<rparr>"

definition Ctx_ReadRequest :: "'c request_ctx \<Rightarrow> bufr \<Rightarrow> bufr \<times> 'c request_ctx \<times> go_error option" where
  "Ctx_ReadRequest ctx br =
     (case ReadRequest (ctx_Request ctx) br of (br', req, err) \<Rightarrow> (br', ctx\<lparr>ctx_Request := req\<rparr>, err))"

definition Ctx_WriteResponse :: "'c request_ctx \<Rightarrow> bufw \<Rightarrow> bufw \<times> 'c request_ctx \<times> go_error option" where
  "Ctx_WriteResponse ctx bw =
     (case WriteResponse (ctx_Response ctx) bw of
        (bw', resp, err) \<Rightarrow> (bw', ctx\<lparr>ctx_Response := resp\<rparr>, err))"

definition Ctx_Write :: "(nat \<Rightarrow> nat \<Rightarrow> nat) \<Rightarrow> bytes \<Rightarrow> 'c request_ctx \<Rightarrow> 'c request_ctx" where
  "Ctx_Write grow p ctx = ctx\<lparr>ctx_Response := fst (Response_Write grow p (ctx_Response ctx))\<rparr>"

definition Ctx_RemoteAddr :: "('c \<Rightarrow> net_addr option) \<Rightarrow> 'c request_ctx \<Rightarrow> net_addr" where
  "Ctx_RemoteAddr remote ctx = (case remote (ctx_conn ctx) of None \<Rightarrow> zeroTCPAddr | Some a \<Rightarrow> a)"

definition Ctx_LocalAddr :: "('c \<Rightarrow> net_addr option) \<Rightarrow> 'c request_ctx \<Rightarrow> net_addr" where
  "Ctx_LocalAddr local ctx = (case local (ctx_conn ctx) of None \<Rightarrow> zeroTCPAddr | Some a \<Rightarrow> a)"

definition Ctx_RemoteIP :: "('c \<Rightarrow> net_addr option) \<Rightarrow> 'c request_ctx \<Rightarrow> bytes" where
  "Ctx_RemoteIP remote ctx =
     (case Ctx_RemoteAddr remote ctx of TCPAddr ip \<Rightarrow> ip | OtherAddr _ \<Rightarrow> IPv4zero)"

definition Ctx_Conn :: "'c request_ctx \<Rightarrow> 'c" where
  "Ctx_Conn ctx = ctx_conn ctx"

text \<open>
  The context's logger puts both addresses before a message; the lock makes that one step. What
  the logger underneath is asked to print is a format with its arguments; \<open>sprintf\<close> and \<open>addr_text\<close> are
  \<^verbatim>\<open>fmt\<close>'s and the address's own.
\<close>

definition ctxLogger_Printf :: "(string \<Rightarrow> 'a list \<Rightarrow> string) \<Rightarrow> (net_addr \<Rightarrow> string) \<Rightarrow>
    ('c \<Rightarrow> net_addr option) \<Rightarrow> ('c \<Rightarrow> net_addr option) \<Rightarrow> 'c request_ctx \<Rightarrow> string \<Rightarrow> 'a list \<Rightarrow>
    (string \<times> string list) list \<Rightarrow> (string \<times> string list) list" where
  "ctxLogger_Printf sprintf addr_text local remote ctx format args printed =
     (let msg = sprintf format args in
      printed @ [(''%s<->%s - %s'', [addr_text (Ctx_LocalAddr local ctx), addr_text (Ctx_RemoteAddr remote ctx), msg])])"

definition Ctx_ConcurrencyLimitError ::
    "('c request_ctx \<Rightarrow> int \<Rightarrow> 'c request_ctx) option \<Rightarrow> 'c request_ctx \<Rightarrow> int \<Rightarrow> 'c request_ctx" where
  "Ctx_ConcurrencyLimitError handler ctx concurrency =
     (case handler of Some h \<Rightarrow> h ctx concurrency | None \<Rightarrow> ctx)"


section \<open>Properties\<close>

text \<open>
  C18. Pipelined requests survive the wire: whatever requests of at most 1 MiB are written one
  after the other to an unlimited sink, one reused request object reads them back, each with its
  register and value, in the same order, and leaves whatever follows them on the stream.
\<close>

theorem requests_pipeline_roundtrip:
  assumes "\<forall>m \<in> set ms. request_sendable m" "bw_ok w" "bw_unlimited w" "request_ok r"
  shows "\<exists>w' sent r'. put_all WriteRequest ms w = (w', None) \<and> stream w' = stream w @ sent \<and>
      get_all ReadRequest request_obs (length ms) r \<lparr>rest = sent @ trail, rend = e\<rparr> =
        (\<lparr>rest = trail, rend = e\<rparr>, r', Inr (map request_obs ms))"
  using request_codec.pipeline [OF assms, of trail e] by blast

definition sample_request :: "RPCRegister \<Rightarrow> bytes \<Rightarrow> request" where
  "sample_request c v = \<lparr>req_value = slice_of v, req_code = c, req_sizeBuf = [7, 7, 7, 7]\<rparr>"

definition sample_writer :: "nat \<Rightarrow> bufw" where
  "sample_writer n = \<lparr>bsize = n, bbuf = [], sunk = [9], room = None, werr = None\<rparr>"

lemmas wire_samples = sample_request_def sample_writer_def slice_of_def

theorem requests_pipeline_roundtrip_witness:
  "\<exists>w' sent r'.
     put_all WriteRequest [sample_request Target [1, 2], sample_request Report []] (sample_writer 3) =
       (w', None) \<and> stream w' = [9] @ sent \<and>
     get_all ReadRequest request_obs 2 new_Request \<lparr>rest = sent @ [5], rend = EOF\<rparr> =
       (\<lparr>rest = [5], rend = EOF\<rparr>, r', Inr [(Target, [1, 2]), (Report, [])])"
proof -
  have "\<forall>m \<in> set [sample_request Target [1, 2], sample_request Report []]. request_sendable m"
    "bw_ok (sample_writer 3)" "bw_unlimited (sample_writer 3)" "request_ok new_Request"
    by (simp_all add: request_sendable_def request_ok_def wire_samples request_ops maxBytesSize_def
        bw_ok_def bw_unlimited_def)
  note rt = requests_pipeline_roundtrip [OF this, of "[5]" EOF]
  have "map request_obs [sample_request Target [1, 2], sample_request Report []] =
      [(Target, [1, 2]), (Report, [])]" "stream (sample_writer 3) = [9]"
    "length [sample_request Target [1, 2], sample_request Report []] = 2"
    by (simp_all add: request_obs_def request_ops wire_samples stream_def)
  from rt [unfolded this] show ?thesis .
qed

text \<open>
  Pipelined responses survive the wire in the same way, provided each status code fits the
  one byte the contract has for it.
\<close>

lemma responses_pipeline_roundtrip:
  assumes "\<forall>m \<in> set ms. response_sendable m" "bw_ok w" "bw_unlimited w" "response_ok r"
  shows "\<exists>w' sent r'. put_all WriteResponse ms w = (w', None) \<and> stream w' = stream w @ sent \<and>
      get_all ReadResponse response_obs (length ms) r \<lparr>rest = sent @ trail, rend = e\<rparr> =
        (\<lparr>rest = trail, rend = e\<rparr>, r', Inr (map response_obs ms))"
  using response_codec.pipeline [OF assms, of trail e] by blast


text \<open>
  A successful read of a request is exact and bounded: the bytes it took off the stream are
  precisely the frame of the register and value it returns, the value is at most 1 MiB, and
  nothing of what the reused buffer held before shows through.
\<close>

lemma read_request_exact:
  assumes "ReadRequest r br = (br', r', None)" "request_ok r"
  shows "rest br = frame (request_obs r') @ rest br' \<and>
         length (Request_Value r') \<le> maxBytesSize \<and> request_ok r'"
proof -
  obtain br1 rc where b: "br_read_byte br = (br1, Inr rc)"
    using assms by (auto simp: ReadRequest_def split: prod.splits sum.splits)
  then have br: "rest br = rc # rest br1"
    by (auto simp: br_read_byte_def split: list.splits)
  obtain v sb where rb: "readBytes br1 (slice_upto 0 (req_value r)) (req_sizeBuf r) = (br', v, sb, None)"
      and r': "r' = r\<lparr>req_code := rc, req_value := v, req_sizeBuf := sb\<rparr>"
    using assms b by (auto simp: ReadRequest_def split: prod.splits)
  from readBytes_ok [OF rb] assms(2) br r' show ?thesis
    by (simp add: request_ok_def request_obs_def frame_def request_ops)
qed


text \<open>
  C39. A request whose value exceeds 1 MiB is refused by the writer, but only after its register
  byte is on the stream: the connection then carries one byte that starts no frame, so it must
  not be used for another request.
\<close>

theorem oversized_request_leaves_head_byte:
  assumes "maxBytesSize < length (Request_Value req)" "bw_ok w" "bw_unlimited w"
  shows "\<exists>w' req' err. WriteRequest req w = (w', req', Some err) \<and>
           stream w' = stream w @ [Request_GetName req]"
proof -
  obtain w1 where w1: "bw_write_byte w (req_code req) = (w1, None)"
    using bufio.put1_unlimited [OF assms(2,3)] by blast
  obtain e where "writeBytes w1 (vis (req_value req)) (req_sizeBuf req) = (w1, req_sizeBuf req, Some e)"
    using writeBytes_too_big [of "vis (req_value req)" w1 "req_sizeBuf req"] assms(1)
    by (auto simp: Request_Value_def)
  with w1 bufio.put1_ok [OF assms(2) w1] show ?thesis by (simp add: WriteRequest_def Request_GetName_def)
qed

theorem oversized_request_leaves_head_byte_witness:
  "\<exists>w' req' err. WriteRequest (sample_request Touch (replicate (Suc maxBytesSize) 0)) (sample_writer 4) =
       (w', req', Some err) \<and> stream w' = [9, 3]"
  using oversized_request_leaves_head_byte
    [of "sample_request Touch (replicate (Suc maxBytesSize) 0)" "sample_writer 4"]
  by (simp add: wire_samples request_ops bw_ok_def bw_unlimited_def stream_def registers)

text \<open>
  A frame that announces more than 1 MiB is refused as soon as its length is read: none of its
  body is consumed, and no buffer is allocated for it.
\<close>

lemma oversized_frame_refused:
  assumes "request_ok r" "rest br = c # hdr @ body" "length hdr = 4"
    "maxBytesSize < unat (bytes2Uint32 hdr)"
  shows "\<exists>br' r' err. ReadRequest r br = (br', r', Some err) \<and> rest br' = body \<and>
           slice_cap (req_value r') = slice_cap (req_value r) \<and> Request_Value r' = []"
proof -
  have "read_full (br\<lparr>rest := hdr @ body\<rparr>) 4 = (br\<lparr>rest := body\<rparr>, hdr, None)"
    using assms(3) by (simp add: read_full_def)
  then show ?thesis using assms
    by (simp add: ReadRequest_def br_read_byte_def readBytes_def request_ok_def request_ops Let_def)
qed

text \<open>
  C33. The pools never leak: after any history of \<open>AcquireRequest\<close> and \<open>ReleaseRequest\<close>, whatever
  the released requests held, the next request acquired has no value and no register; and after
  any history of \<open>AcquireResponse\<close> and \<open>ReleaseResponse\<close> the next response acquired has no value
  and the status a fresh or a reset response has.
\<close>

theorem acquired_messages_are_clean:
  assumes "AcquireRequest pick (pool_run AcquireRequest ReleaseRequest es []) = (req, p)"
    and "AcquireResponse pick' (pool_run AcquireResponse ReleaseResponse es' []) = (resp, p')"
  shows "Request_Value req = [] \<and> Request_GetName req = Unknown \<and>
    Response_Value resp = [] \<and> (GetStatusCode resp = RPC_UNKNOWN \<or> GetStatusCode resp = RPC_OK)"
  using request_pool.acquired_is_clean [OF assms(1)] response_pool.acquired_is_clean [OF assms(2)]
  by (simp add: request_clean_def response_clean_def)

theorem acquired_messages_are_clean_witness:
  "\<exists>req p. AcquireRequest (Some 0) (pool_run AcquireRequest ReleaseRequest
        [Acquire None, Release (sample_request Report [1, 2, 3])] []) = (req, p) \<and>
     slice_cap (req_value req) = 3 \<and> Request_Value req = [] \<and> Request_GetName req = Unknown"
proof -
  let ?p = "pool_run AcquireRequest ReleaseRequest [Acquire None, Release (sample_request Report [1, 2, 3])] []"
  obtain req p where a: "AcquireRequest (Some 0) ?p = (req, p)" by fastforce
  obtain resp q where b: "AcquireResponse None (pool_run AcquireResponse ReleaseResponse [] []) = (resp, q)" by fastforce
  have "slice_cap (req_value req) = 3"
    using a by (auto simp: AcquireRequest_def ReleaseRequest_def pool_acquire_def pool_get_def pool_release_def pool_put_def
        request_ops wire_samples slice_upto_def slice_cap_def)
  then show ?thesis using acquired_messages_are_clean [OF a b] a by blast
qed

end
