(* ===== verification/GoStd.thy ===== *)
theory GoStd
  imports Prelude "HOL-Library.Sublist"
begin

text \<open>
  What the SDK uses of Go's \<^verbatim>\<open>strings\<close>, \<^verbatim>\<open>fmt\<close> and \<^verbatim>\<open>net\<close> packages: splitting,
  joining and trimming of strings, \<^verbatim>\<open>%d\<close> and \<^verbatim>\<open>%0nX\<close> formatting,
  \<^verbatim>\<open>SplitHostPort\<close> and \<^verbatim>\<open>JoinHostPort\<close>, and the IPv4 part of \<^verbatim>\<open>net.IP\<close>.
  Strings are byte sequences, as in Go; \<^verbatim>\<open>TrimSpace\<close> removes the UTF-8 encodings of the
  characters \<^verbatim>\<open>unicode.IsSpace\<close> accepts.
\<close>

section \<open>strings\<close>

fun split_on :: "char \<Rightarrow> string \<Rightarrow> string list" where
  "split_on c [] = [[]]"
| "split_on c (x # xs) =
     (if x = c then [] # split_on c xs
      else (case split_on c xs of y # ys \<Rightarrow> (x # y) # ys | [] \<Rightarrow> [[x]]))"

fun join :: "string \<Rightarrow> string list \<Rightarrow> string" where
  "join sep [] = []"
| "join sep [x] = x"
| "join sep (x # y # ys) = x @ sep @ join sep (y # ys)"

lemma split_on_nonempty [simp]: "split_on c s \<noteq> []"
  by (cases s) (auto split: list.splits)

lemma split_on_no_sep: "x \<in> set (split_on c s) \<Longrightarrow> c \<notin> set x"
  by (induction s arbitrary: x) (auto split: list.splits if_splits)

lemma split_on_chars: "x \<in> set (split_on c s) \<Longrightarrow> set x \<subseteq> set s"
proof (induction s arbitrary: x)
  case (Cons a s)
  obtain y ys where y: "split_on c s = y # ys" by (cases "split_on c s") auto
  have "set z \<subseteq> set s" if "z \<in> set (y # ys)" for z using Cons.IH that y by simp
  with Cons.prems y show ?case by (fastforce split: if_splits)
qed simp

lemma split_on_no_comma: "c \<notin> set s \<Longrightarrow> split_on c s = [s]"
  by (induction s) auto

lemma split_on_append: "c \<notin> set x \<Longrightarrow> split_on c (x @ c # s) = x # split_on c s"
  by (induction x) auto

lemma split_on_join:
  "xs \<noteq> [] \<Longrightarrow> \<forall>x \<in> set xs. c \<notin> set x \<Longrightarrow> split_on c (join [c] xs) = xs"
proof (induction xs)
  case (Cons x xs)
  then show ?case by (cases xs) (simp_all add: split_on_no_comma split_on_append)
qed simp

lemma join_split_on: "join [c] (split_on c s) = s"
proof (induction s)
  case (Cons a s)
  then show ?case
    by (cases "split_on c s"; cases "tl (split_on c s)") auto
qed simp

text \<open>The white space of \<^verbatim>\<open>unicode.IsSpace\<close>, encoded.\<close>

definition spaces :: "string list" where
  "spaces =
    [[CHR 0x09], [CHR 0x0A], [CHR 0x0B], [CHR 0x0C], [CHR 0x0D], [CHR 0x20],
     [CHR 0xC2, CHR 0x85], [CHR 0xC2, CHR 0xA0], [CHR 0xE1, CHR 0x9A, CHR 0x80]] @
    map (\<lambda>n. [CHR 0xE2, CHR 0x80, char_of (n::nat)]) ([0x80..<0x8B] @ [0xA8, 0xA9, 0xAF]) @
    [[CHR 0xE2, CHR 0x81, CHR 0x9F], [CHR 0xE3, CHR 0x80, CHR 0x80]]"

definition strip_one :: "string list \<Rightarrow> string \<Rightarrow> string option" where
  "strip_one ps s =
     map_option (\<lambda>p. drop (length p) s) (find (\<lambda>p. p \<noteq> [] \<and> prefix p s) ps)"

lemma strip_one_Some:
  "strip_one ps s = Some t \<Longrightarrow> \<exists>p \<in> set ps. p \<noteq> [] \<and> s = p @ t"
  by (auto simp: strip_one_def find_Some_iff prefix_def)

lemma strip_one_None: "strip_one ps s = None \<longleftrightarrow> (\<forall>p \<in> set ps. p \<noteq> [] \<longrightarrow> \<not> prefix p s)"
  by (auto simp: strip_one_def find_None_iff)

function trim_front :: "string list \<Rightarrow> string \<Rightarrow> string" where
  "trim_front ps s = (case strip_one ps s of None \<Rightarrow> s | Some t \<Rightarrow> trim_front ps t)"
  by pat_completeness auto
termination
  by (relation "measure (length \<circ> snd)") (auto dest: strip_one_Some)

declare trim_front.simps [simp del]

definition TrimSpace :: "string \<Rightarrow> string" where
  "TrimSpace s = rev (trim_front (map rev spaces) (rev (trim_front spaces s)))"

lemma trim_front_suffix: "suffix (trim_front ps s) s"
proof (induction ps s rule: trim_front.induct)
  case (1 ps s)
  show ?case
  proof (cases "strip_one ps s")
    case None
    then show ?thesis by (subst trim_front.simps) simp
  next
    case (Some t)
    then have "suffix t s" using strip_one_Some [OF Some] by (auto simp: suffix_def)
    with 1 Some show ?thesis
      by (subst trim_front.simps) (auto intro: suffix_order.trans)
  qed
qed

lemma trim_front_strip: "strip_one ps (trim_front ps s) = None"
proof (induction ps s rule: trim_front.induct)
  case (1 ps s)
  then show ?case by (subst trim_front.simps) (auto split: option.split)
qed

lemma trim_front_id: "strip_one ps s = None \<Longrightarrow> trim_front ps s = s"
  by (subst trim_front.simps) simp

lemma trim_front_prefix_stable:
  "strip_one ps s = None \<Longrightarrow> prefix t s \<Longrightarrow> strip_one ps t = None"
  by (auto simp: strip_one_None dest: prefix_order.trans)

lemma set_TrimSpace: "set (TrimSpace s) \<subseteq> set s"
  using trim_front_suffix [of "map rev spaces" "rev (trim_front spaces s)"]
    trim_front_suffix [of spaces s]
  unfolding TrimSpace_def set_rev by (metis set_mono_suffix set_rev subset_trans)

lemma TrimSpace_trimmed:
  "strip_one spaces (TrimSpace s) = None \<and> strip_one (map rev spaces) (rev (TrimSpace s)) = None"
proof -
  let ?l = "trim_front spaces s"
  have "suffix (trim_front (map rev spaces) (rev ?l)) (rev ?l)"
    by (rule trim_front_suffix)
  then have "prefix (TrimSpace s) ?l"
    by (metis TrimSpace_def rev_rev_ident suffix_to_prefix)
  then show ?thesis
    using trim_front_prefix_stable [OF trim_front_strip] trim_front_strip
    by (auto simp: TrimSpace_def)
qed

lemma TrimSpace_idem [simp]: "TrimSpace (TrimSpace s) = TrimSpace s"
  using TrimSpace_trimmed [of s] by (simp add: TrimSpace_def [of "TrimSpace s"] trim_front_id)

lemma TrimSpace_Nil [simp]: "TrimSpace [] = []"
  using set_TrimSpace [of "[]"] by simp

section \<open>fmt: numbers\<close>

fun dec :: "nat \<Rightarrow> string" where
  "dec n = (if n < 10 then [char_of (48 + n)] else dec (n div 10) @ [char_of (48 + n mod 10)])"

declare dec.simps [simp del]

definition hex_digit :: "nat \<Rightarrow> char" where
  "hex_digit n = ''0123456789ABCDEF'' ! n"

fun hex :: "nat \<Rightarrow> string" where
  "hex n = (if n < 16 then [hex_digit n] else hex (n div 16) @ [hex_digit (n mod 16)])"

declare hex.simps [simp del]

text \<open>\<^verbatim>\<open>%0kX\<close>: upper-case hexadecimal, padded with zeros to width \<open>k\<close>.\<close>

definition hex_pad :: "nat \<Rightarrow> nat \<Rightarrow> string" where
  "hex_pad k n = replicate (k - length (hex n)) (CHR ''0'') @ hex n"

definition hex_digit_val :: "char \<Rightarrow> nat option" where
  "hex_digit_val c = map_of (zip ''0123456789ABCDEF'' [0..<16]) c"

definition hex_val :: "string \<Rightarrow> nat" where
  "hex_val s = foldl (\<lambda>a c. a * 16 + the (hex_digit_val c)) 0 s"

lemma less_16_cases:
  "(n::nat) < 16 \<Longrightarrow> n \<in> {0, 1, 2, 3, 4, 5, 6, 7, 8, 9, 10, 11, 12, 13, 14, 15}"
  by (auto simp: numeral_eq_Suc less_Suc_eq)

lemma hex_digit_val_hex_digit: "n < 16 \<Longrightarrow> hex_digit_val (hex_digit n) = Some n"
  by (drule less_16_cases) (auto simp: hex_digit_val_def hex_digit_def upt_rec)

lemma hex_digit_val_0 [simp]: "hex_digit_val (CHR ''0'') = Some 0"
  by (simp add: hex_digit_val_def upt_rec)

lemma hex_val_hex: "hex_val (hex n) = n"
proof (induction n rule: hex.induct)
  case (1 n)
  then show ?case
    by (cases "n < 16"; subst hex.simps)
      (auto simp: hex_val_def hex_digit_val_hex_digit)
qed

lemma hex_val_hex_pad [simp]: "hex_val (hex_pad k n) = n"
proof -
  have "foldl (\<lambda>a c. a * 16 + the (hex_digit_val c)) 0 (replicate j (CHR ''0'')) = 0" for j
    by (induction j) simp_all
  then show ?thesis using hex_val_hex by (simp add: hex_pad_def hex_val_def)
qed

lemma length_hex: "0 < k \<Longrightarrow> length (hex n) \<le> k \<longleftrightarrow> n < 16 ^ k"
proof (induction n arbitrary: k rule: hex.induct)
  case (1 n)
  show ?case
  proof (cases "n < 16")
    case True
    have "(16::nat) ^ 1 \<le> 16 ^ k" using "1.prems" by (intro power_increasing) auto
    with True "1.prems" show ?thesis by (subst hex.simps) auto
  next
    case False
    obtain j where j: "k = Suc j" using "1.prems" by (cases k) auto
    show ?thesis
    proof (cases "j = 0")
      case True
      have "hex (n div 16) \<noteq> []" by (subst hex.simps) auto
      with True False j show ?thesis by (subst hex.simps) auto
    next
      case j0: False
      have "n div 16 < 16 ^ j \<longleftrightarrow> n < 16 ^ Suc j"
        by (simp add: div_less_iff_less_mult mult.commute)
      with 1(1) [OF False, of j] j j0 False show ?thesis
        by (subst hex.simps) auto
    qed
  qed
qed

lemma length_hex_pad: "0 < k \<Longrightarrow> n < 16 ^ k \<Longrightarrow> length (hex_pad k n) = k"
  using length_hex [of k n] by (simp add: hex_pad_def)

lemma hex_pad_inject: "hex_pad k m = hex_pad k n \<longleftrightarrow> m = n"
  by (metis hex_val_hex_pad)

section \<open>net: host and port\<close>

definition index_of :: "char \<Rightarrow> string \<Rightarrow> nat option" where
  "index_of c s = (if c \<in> set s then Some (length (takeWhile (\<lambda>x. x \<noteq> c) s)) else None)"

definition last_index_of :: "char \<Rightarrow> string \<Rightarrow> nat option" where
  "last_index_of c s =
     (if c \<in> set s then Some (length s - 1 - length (takeWhile (\<lambda>x. x \<noteq> c) (rev s))) else None)"

definition addr_err :: "string \<Rightarrow> string \<Rightarrow> go_error" where
  "addr_err hostport why = Errorf ''address %s: %s'' [AStr hostport, AStr why]"

definition SplitHostPort :: "string \<Rightarrow> (string \<times> string) result" where
  "SplitHostPort hp =
     (case last_index_of (CHR '':'') hp of
        None \<Rightarrow> Inl (addr_err hp ''missing port in address'')
      | Some i \<Rightarrow>
          (let finish = (\<lambda>host j k.
                 if CHR ''['' \<in> set (drop j hp) then Inl (addr_err hp ''unexpected [ in address'')
                 else if CHR '']'' \<in> set (drop k hp) then Inl (addr_err hp ''unexpected ] in address'')
                 else Inr (host, drop (Suc i) hp))
           in if hp ! 0 = CHR ''[''
              then (case index_of (CHR '']'') hp of
                      None \<Rightarrow> Inl (addr_err hp ''missing ] in address'')
                    | Some e \<Rightarrow>
                        (if Suc e = length hp then Inl (addr_err hp ''missing port in address'')
                         else if Suc e = i then finish (take (e - 1) (drop 1 hp)) 1 (Suc e)
                         else if hp ! Suc e = CHR '':'' then Inl (addr_err hp ''too many colons in address'')
                         else Inl (addr_err hp ''missing port in address'')))
              else (let host = take i hp in
                    if CHR '':'' \<in> set host then Inl (addr_err hp ''too many colons in address'')
                    else finish host 0 0)))"

definition JoinHostPort :: "string \<Rightarrow> string \<Rightarrow> string" where
  "JoinHostPort host port =
     (if CHR '':'' \<in> set host then ''['' @ host @ '']:'' @ port else host @ '':'' @ port)"

section \<open>net.IP\<close>

text \<open>An \<^verbatim>\<open>IP\<close> is nil (no bytes), an IPv4 of 4 bytes, or 16 bytes.\<close>

type_synonym ip = bytes

definition To4 :: "ip \<Rightarrow> ip option" where
  "To4 ip =
     (if length ip = 4 then Some ip
      else if length ip = 16 \<and> take 12 ip = replicate 10 0 @ [255, 255] then Some (drop 12 ip)
      else None)"

definition dotted :: "ip \<Rightarrow> string" where
  "dotted ip4 = join ''.'' (map (\<lambda>b. dec (unat b)) ip4)"

end
