(* ===== verification/Payer.thy ===== *)
theory Payer
  imports ProtoTypes GoStd
begin

text \<open>
  Who is billed: \<^verbatim>\<open>pkg/client/payer.go\<close> resolves one payer, and the two loops of
  \<^verbatim>\<open>pkg/client/shardedClient.go\<close> stamp the resolved payer onto every rule of a request.
  The rules are pointers the code writes through, so they live in a store from addresses to
  rules: two entries of a request may be the same rule, and a failing loop leaves the rules it
  has passed stamped.

  \<^verbatim>\<open>uuid.Parse\<close> and \<^verbatim>\<open>uuid.String\<close> are the library's: \<open>parse\<close> and \<open>show\<close> are
  parameters. What the code relies on is that the text of a UUID parses back to it; the
  properties that need this name it as a hypothesis.
\<close>

type_synonym uuid = "128 word"

definition uuid_Nil :: uuid where
  "uuid_Nil = 0"

definition ErrorPayerRequired :: go_error where
  "ErrorPayerRequired = Sentinel ''payer uuid is required''"

section \<open>payer.go\<close>

definition resolveRequestPayer :: "(string \<Rightarrow> uuid result) \<Rightarrow> string \<Rightarrow> uuid result" where
  "resolveRequestPayer parse requestPayer =
     (if requestPayer \<noteq> '''' then
        (case parse requestPayer of
           Inl err \<Rightarrow> Inl (Errorf ''payer %q in request is not a uuid: %w'' [AStr requestPayer, AWrap err])
         | Inr parsed \<Rightarrow> if parsed \<noteq> uuid_Nil then Inr parsed else Inl ErrorPayerRequired)
      else Inl ErrorPayerRequired)"

definition resolveRulePayer :: "(string \<Rightarrow> uuid result) \<Rightarrow> string \<Rightarrow> uuid \<Rightarrow> uuid result" where
  "resolveRulePayer parse rulePayer requestPayer =
     (let inherited = (if requestPayer \<noteq> uuid_Nil then Inr requestPayer else Inl ErrorPayerRequired) in
      if rulePayer \<noteq> '''' then
        (case parse rulePayer of
           Inl err \<Rightarrow> Inl (Errorf ''payer %q in rule is not a uuid: %w'' [AStr rulePayer, AWrap err])
         | Inr parsed \<Rightarrow> if parsed \<noteq> uuid_Nil then Inr parsed else inherited)
      else inherited)"

text \<open>A rule names a payer when its text parses to a UUID that is not all zeros.\<close>

definition names_payer :: "(string \<Rightarrow> uuid result) \<Rightarrow> string \<Rightarrow> uuid \<Rightarrow> bool" where
  "names_payer parse s u \<longleftrightarrow> s \<noteq> '''' \<and> parse s = Inr u \<and> u \<noteq> uuid_Nil"

definition unset_payer :: "(string \<Rightarrow> uuid result) \<Rightarrow> string \<Rightarrow> bool" where
  "unset_payer parse s \<longleftrightarrow> s = '''' \<or> parse s = Inr uuid_Nil"

lemma resolveRulePayer_Inr:
  "resolveRulePayer parse s d = Inr u \<longleftrightarrow>
     names_payer parse s u \<or> (unset_payer parse s \<and> u = d \<and> d \<noteq> uuid_Nil)"
  by (auto simp: resolveRulePayer_def names_payer_def unset_payer_def Let_def split: sum.splits)

lemma resolveRequestPayer_Inr:
  "resolveRequestPayer parse s = Inr u \<longleftrightarrow> names_payer parse s u"
  by (auto simp: resolveRequestPayer_def names_payer_def split: sum.splits)

lemma resolveRulePayer_not_nil: "resolveRulePayer parse s d = Inr u \<Longrightarrow> u \<noteq> uuid_Nil"
  by (auto simp: resolveRulePayer_Inr names_payer_def)

lemma resolveRulePayer_required:
  "resolveRulePayer parse s d = Inl ErrorPayerRequired \<longleftrightarrow> unset_payer parse s \<and> d = uuid_Nil"
  by (auto simp: resolveRulePayer_def unset_payer_def Let_def ErrorPayerRequired_def split: sum.splits)

section \<open>Stamping the rules\<close>

type_synonym addr = nat
type_synonym 'r store = "addr \<Rightarrow> 'r"

text \<open>
  The loop both rule kinds run, over the rule pointers (\<open>None\<close> is nil): \<open>what\<close> names the kind
  in the errors, \<open>get\<close> and \<open>upd\<close> are its \<^verbatim>\<open>Payer\<close> field, \<open>i\<close> the index of the head.
\<close>

fun stampRules :: "(string \<Rightarrow> uuid result) \<Rightarrow> (uuid \<Rightarrow> string) \<Rightarrow> string \<Rightarrow> ('r \<Rightarrow> string) \<Rightarrow>
    (string \<Rightarrow> 'r \<Rightarrow> 'r) \<Rightarrow> uuid \<Rightarrow> nat \<Rightarrow> addr option list \<Rightarrow> 'r store \<Rightarrow> 'r store \<times> go_error option" where
  "stampRules parse show what get upd dflt i [] h = (h, None)"
| "stampRules parse show what get upd dflt i (None # rules) h =
     (h, Some (Errorf (what @ '' %d must not be nil'') [AInt (int i)]))"
| "stampRules parse show what get upd dflt i (Some a # rules) h =
     (case resolveRulePayer parse (get (h a)) dflt of
        Inl err \<Rightarrow> (h, Some (Errorf (what @ '' %d: %w'') [AInt (int i), AWrap err]))
      | Inr resolved \<Rightarrow>
          stampRules parse show what get upd dflt (Suc i) rules (h(a := upd (show resolved) (h a))))"

definition match_set_payer :: "string \<Rightarrow> match_rule \<Rightarrow> match_rule" where
  "match_set_payer p r = r\<lparr>Match_Payer := p\<rparr>"

definition report_set_payer :: "string \<Rightarrow> report_rule \<Rightarrow> report_rule" where
  "report_set_payer p r = r\<lparr>ReportRule_Payer := p\<rparr>"

definition applyMatchRulePayers :: "(string \<Rightarrow> uuid result) \<Rightarrow> (uuid \<Rightarrow> string) \<Rightarrow>
    addr option list \<Rightarrow> uuid \<Rightarrow> match_rule store \<Rightarrow> match_rule store \<times> go_error option" where
  "applyMatchRulePayers parse show rules defaultPayer h =
     stampRules parse show ''match rule'' Match_Payer match_set_payer defaultPayer 0 rules h"

definition applyReportRulePayers :: "(string \<Rightarrow> uuid result) \<Rightarrow> (uuid \<Rightarrow> string) \<Rightarrow>
    addr option list \<Rightarrow> uuid \<Rightarrow> report_rule store \<Rightarrow> report_rule store \<times> go_error option" where
  "applyReportRulePayers parse show rules requestPayer h =
     stampRules parse show ''report rule'' ReportRule_Payer report_set_payer requestPayer 0 rules h"

text \<open>\<^verbatim>\<open>applyPayers\<close> resolves the request's payer and hands it to the stamping function.\<close>

definition applyPayers :: "(string \<Rightarrow> uuid result) \<Rightarrow> string \<Rightarrow> (uuid \<Rightarrow> 's \<Rightarrow> 's \<times> go_error option) \<Rightarrow>
    's \<Rightarrow> 's \<times> go_error option" where
  "applyPayers parse requestPayer stamp s =
     (case resolveRequestPayer parse requestPayer of
        Inl err \<Rightarrow> (s, Some err)
      | Inr payer \<Rightarrow> stamp payer s)"

section \<open>What stamping does\<close>

text \<open>
  The contract of a rule's payer field, under which the loop's lemmas hold for both rule kinds:
  setting the payer is read back and changes nothing else, and a stamped text is a UUID's.
\<close>

locale payer_rule =
  fixes get :: "'r \<Rightarrow> string"
    and upd :: "string \<Rightarrow> 'r \<Rightarrow> 'r"
  assumes get_upd: "get (upd p r) = p"
    and upd_upd: "upd p (upd q r) = upd p r"
    and upd_get: "upd (get r) r = r"
begin

lemma stamp_resolves:
  assumes "\<And>u. parse (show u) = Inr u" "\<And>u. show u \<noteq> ''''"
    and "resolveRulePayer parse (get r) d = Inr u"
  shows "resolveRulePayer parse (get (upd (show u) r)) d' = Inr u"
  using assms resolveRulePayer_not_nil [OF assms(3)]
  by (simp add: resolveRulePayer_Inr names_payer_def get_upd)

text \<open>After a loop without error every rule is stamped with what its payer resolves to.\<close>

lemma stamp_ok:
  assumes "\<And>u. parse (show u) = Inr u" "\<And>u. show u \<noteq> ''''"
    and "stampRules parse show what get upd d i rules h = (h', None)"
  shows "None \<notin> set rules \<and>
    (\<forall>a. Some a \<in> set rules \<longrightarrow>
       (\<exists>u. resolveRulePayer parse (get (h a)) d = Inr u \<and> h' a = upd (show u) (h a))) \<and>
    (\<forall>a. Some a \<notin> set rules \<longrightarrow> h' a = h a)"
  using assms(3)
proof (induction rules arbitrary: i h)
  case (Cons r rules)
  then obtain b where r: "r = Some b" by (cases r) auto
  with Cons.prems obtain u where u: "resolveRulePayer parse (get (h b)) d = Inr u"
    by (auto split: sum.splits)
  define h1 where "h1 = h(b := upd (show u) (h b))"
  have run: "stampRules parse show what get upd d (Suc i) rules h1 = (h', None)"
    using Cons.prems r u by (simp add: h1_def)
  note IH = Cons.IH [OF run]
  have again: "resolveRulePayer parse (get (h1 b)) d = Inr u"
    using stamp_resolves [OF assms(1,2) u] by (simp add: h1_def)
  have "h' b = upd (show u) (h b)"
  proof (cases "Some b \<in> set rules")
    case True
    with IH again have "h' b = upd (show u) (h1 b)" by (metis sum.inject(2))
    then show ?thesis by (simp add: h1_def upd_upd)
  next
    case False
    with IH show ?thesis by (simp add: h1_def)
  qed
  moreover have h1: "h1 a = h a" if "a \<noteq> b" for a using that by (simp add: h1_def)
  ultimately have "\<exists>u. resolveRulePayer parse (get (h a)) d = Inr u \<and> h' a = upd (show u) (h a)"
    if "Some a \<in> set (r # rules)" for a
    using that IH u r by (cases "a = b") (simp, fastforce)
  moreover have "h' a = h a" if "Some a \<notin> set (r # rules)" for a
    using that IH h1 r by (cases "a = b") auto
  ultimately show ?case using IH r by simp
qed simp

text \<open>
  A loop that fails at some rule has stamped the rules before it and touched no other; the error
  names the index, and is \<open>ErrorPayerRequired\<close> exactly when that rule left its payer unset.
\<close>

lemma stamp_error:
  assumes "\<And>u. parse (show u) = Inr u" "\<And>u. show u \<noteq> ''''"
    and "stampRules parse show what get upd d i rules h = (h', Some err)"
  shows "\<exists>k < length rules.
    stampRules parse show what get upd d i (take k rules) h = (h', None) \<and>
    (case rules ! k of
       None \<Rightarrow> err = Errorf (what @ '' %d must not be nil'') [AInt (int (i + k))]
     | Some a \<Rightarrow> \<exists>e. resolveRulePayer parse (get (h' a)) d = Inl e \<and>
                   err = Errorf (what @ '' %d: %w'') [AInt (int (i + k)), AWrap e])"
  using assms(3)
proof (induction rules arbitrary: i h)
  case (Cons r rules)
  show ?case
  proof (cases r)
    case None
    with Cons.prems show ?thesis by (intro exI [of _ 0]) auto
  next
    case (Some b)
    show ?thesis
    proof (cases "resolveRulePayer parse (get (h b)) d")
      case (Inl e)
      with Cons.prems Some show ?thesis by (intro exI [of _ 0]) auto
    next
      case (Inr u)
      have run: "stampRules parse show what get upd d (Suc i) rules (h(b := upd (show u) (h b))) =
          (h', Some err)"
        using Cons.prems Some Inr by simp
      from Cons.IH [OF run] obtain k where "k < length rules"
        "stampRules parse show what get upd d (Suc i) (take k rules) (h(b := upd (show u) (h b))) = (h', None)"
        "case rules ! k of
           None \<Rightarrow> err = Errorf (what @ '' %d must not be nil'') [AInt (int (Suc i + k))]
         | Some a \<Rightarrow> \<exists>e. resolveRulePayer parse (get (h' a)) d = Inl e \<and>
             err = Errorf (what @ '' %d: %w'') [AInt (int (Suc i + k)), AWrap e]"
        by blast
      with Some Inr show ?thesis by (intro exI [of _ "Suc k"]) (simp split: option.splits)
    qed
  qed
qed simp

text \<open>The loop succeeds as soon as every rule is there and resolves.\<close>

lemma stamp_succeeds:
  assumes "\<And>u. parse (show u) = Inr u" "\<And>u. show u \<noteq> ''''"
    and "\<forall>r \<in> set rules. \<exists>a u. r = Some a \<and> resolveRulePayer parse (get (h a)) d = Inr u"
  shows "\<exists>h'. stampRules parse show what get upd d i rules h = (h', None)"
  using assms(3)
proof (induction rules arbitrary: i h)
  case (Cons r rules)
  then obtain b u where r: "r = Some b" and u: "resolveRulePayer parse (get (h b)) d = Inr u"
    by auto
  define h1 where "h1 = h(b := upd (show u) (h b))"
  have "\<forall>x \<in> set rules. \<exists>a v. x = Some a \<and> resolveRulePayer parse (get (h1 a)) d = Inr v"
    using Cons.prems stamp_resolves [OF assms(1,2) u] by (fastforce simp: h1_def)
  then have "\<exists>h'. stampRules parse show what get upd d (Suc i) rules h1 = (h', None)"
    by (rule Cons.IH)
  moreover have "stampRules parse show what get upd d i (r # rules) h =
      stampRules parse show what get upd d (Suc i) rules h1"
    using r u by (simp add: h1_def)
  ultimately show ?case by simp
qed simp

text \<open>
  Stamping is idempotent, whatever the default payer is the second time: a stamped request is
  stamped again to itself.
\<close>

lemma stamp_idem:
  assumes "\<And>u. parse (show u) = Inr u" "\<And>u. show u \<noteq> ''''"
    and "stampRules parse show what get upd d i rules h = (h', None)"
  shows "stampRules parse show what get upd d' j rules h' = (h', None)"
proof -
  note ok = stamp_ok [OF assms]
  have "stampRules parse show what get upd d' j rs h' = (h', None)" if "set rs \<subseteq> set rules" for rs
    using that
  proof (induction rs arbitrary: j)
    case (Cons r rs)
    then obtain a where r: "r = Some a" "Some a \<in> set rules"
      using ok by (cases r) auto
    with ok obtain u where u: "resolveRulePayer parse (get (h a)) d = Inr u" "h' a = upd (show u) (h a)"
      by blast
    with stamp_resolves [OF assms(1,2) u(1)]
    have "resolveRulePayer parse (get (h' a)) d' = Inr u" "h'(a := upd (show u) (h' a)) = h'"
      by (simp_all add: upd_upd fun_upd_idem)
    with Cons r show ?case by simp
  qed simp
  then show ?thesis by blast
qed

end

interpretation match_payer: payer_rule Match_Payer match_set_payer
  by unfold_locales (simp_all add: match_set_payer_def)

interpretation report_payer: payer_rule ReportRule_Payer report_set_payer
  by unfold_locales (simp_all add: report_set_payer_def)


section \<open>The UUID library\<close>

text \<open>
  What the properties rely on of \<^verbatim>\<open>github.com/google/uuid\<close>: a UUID's text is not empty and
  parses back to it. The sample library below writes the 8-4-4-4-12 form and shows that it can
  hold; it is used by the witnesses only.
\<close>

definition uuid_lib :: "(string \<Rightarrow> uuid result) \<Rightarrow> (uuid \<Rightarrow> string) \<Rightarrow> bool" where
  "uuid_lib parse show \<longleftrightarrow> (\<forall>u. parse (show u) = Inr u \<and> show u \<noteq> '''')"

lemma uuid_libD:
  assumes "uuid_lib parse show"
  shows "parse (show u) = Inr u" "show u \<noteq> ''''"
  using assms by (simp_all add: uuid_lib_def)

definition sample_uuid_string :: "uuid \<Rightarrow> string" where
  "sample_uuid_string u =
     (let h = hex_pad 32 (unat u) in
      take 8 h @ ''-'' @ take 4 (drop 8 h) @ ''-'' @ take 4 (drop 12 h) @ ''-'' @
      take 4 (drop 16 h) @ ''-'' @ drop 20 h)"

definition sample_uuid_parse :: "string \<Rightarrow> uuid result" where
  "sample_uuid_parse s =
     (let h = take 8 s @ take 4 (drop 9 s) @ take 4 (drop 14 s) @ take 4 (drop 19 s) @ drop 24 s in
      if length s = 36 \<and> list_all (\<lambda>c. hex_digit_val c \<noteq> None) h then Inr (of_nat (hex_val h))
      else Inl (Sentinel ''invalid UUID''))"

lemma hex_digits_hex: "list_all (\<lambda>c. hex_digit_val c \<noteq> None) (hex n)"
proof (induction n rule: hex.induct)
  case (1 n)
  then show ?case
    by (cases "n < 16"; subst hex.simps) (auto simp: hex_digit_val_hex_digit)
qed

lemma hex_digits_hex_pad: "list_all (\<lambda>c. hex_digit_val c \<noteq> None) (hex_pad k n)"
  using hex_digits_hex by (auto simp: hex_pad_def list_all_iff)

lemma sample_uuid_lib: "uuid_lib sample_uuid_parse sample_uuid_string"
  unfolding uuid_lib_def
proof (intro allI conjI)
  fix u :: uuid
  define h where "h = hex_pad 32 (unat u)"
  have "unat u < 16 ^ 32" using unsigned_less [of u] by simp
  then have len: "length h = 32" by (simp add: h_def length_hex_pad)
  have parts: "take 8 h @ take 4 (drop 8 h) @ take 4 (drop 12 h) @ take 4 (drop 16 h) @ drop 20 h = h"
  proof -
    have "take 4 (drop k h) @ drop (k + 4) h = drop k h" for k
      by (metis append_take_drop_id drop_drop add.commute)
    from this [of 16] this [of 12] this [of 8] show ?thesis by simp
  qed
  have s: "sample_uuid_string u =
      take 8 h @ ''-'' @ take 4 (drop 8 h) @ ''-'' @ take 4 (drop 12 h) @ ''-'' @
      take 4 (drop 16 h) @ ''-'' @ drop 20 h"
    by (simp add: sample_uuid_string_def h_def Let_def)
  show "sample_uuid_string u \<noteq> ''''" by (simp add: s)
  have "take 8 (sample_uuid_string u) @ take 4 (drop 9 (sample_uuid_string u)) @
      take 4 (drop 14 (sample_uuid_string u)) @ take 4 (drop 19 (sample_uuid_string u)) @
      drop 24 (sample_uuid_string u) = h"
    using len by (simp add: s parts)
  moreover have "length (sample_uuid_string u) = 36" using len by (simp add: s)
  ultimately show "sample_uuid_parse (sample_uuid_string u) = Inr u"
    using hex_digits_hex_pad [of 32 "unat u"] by (simp add: sample_uuid_parse_def Let_def h_def)
qed


section \<open>Properties\<close>

text \<open>
  C5. Every report rule is billed to exactly one client: when stamping succeeds, no rule is nil;
  each rule of the request carries the text of a non-zero UUID, its own where it names one and
  the request's payer where it leaves it unset, with every other field as it was; and no rule
  outside the request is touched. Rules that occur twice (the same pointer) are included.
\<close>

theorem report_rules_billed:
  assumes "uuid_lib parse show"
    and "applyReportRulePayers parse show rules requestPayer h = (h', None)"
  shows "None \<notin> set rules \<and>
    (\<forall>a. Some a \<in> set rules \<longrightarrow>
       (\<exists>u. u \<noteq> uuid_Nil \<and> h' a = (h a)\<lparr>ReportRule_Payer := show u\<rparr> \<and>
          (if unset_payer parse (ReportRule_Payer (h a)) then u = requestPayer
           else names_payer parse (ReportRule_Payer (h a)) u))) \<and>
    (\<forall>a. Some a \<notin> set rules \<longrightarrow> h' a = h a)"
proof -
  have one: "u \<noteq> uuid_Nil \<and>
      (if unset_payer parse s then u = requestPayer else names_payer parse s u)"
    if "resolveRulePayer parse s requestPayer = Inr u" for s u
    using that resolveRulePayer_not_nil [OF that]
    by (auto simp: resolveRulePayer_Inr names_payer_def unset_payer_def)
  note ok = report_payer.stamp_ok [OF uuid_libD [OF assms(1)] assms(2) [unfolded applyReportRulePayers_def]]
  have "\<exists>u. u \<noteq> uuid_Nil \<and> h' a = (h a)\<lparr>ReportRule_Payer := show u\<rparr> \<and>
      (if unset_payer parse (ReportRule_Payer (h a)) then u = requestPayer
       else names_payer parse (ReportRule_Payer (h a)) u)" if a: "Some a \<in> set rules" for a
  proof -
    obtain u where "resolveRulePayer parse (ReportRule_Payer (h a)) requestPayer = Inr u"
        "h' a = report_set_payer (show u) (h a)"
      using spec [OF conjunct1 [OF conjunct2 [OF ok]], of a] a by blast
    with one [of "ReportRule_Payer (h a)" u] show ?thesis
      by (intro exI [of _ u]) (simp add: report_set_payer_def)
  qed
  then show ?thesis
    using conjunct1 [OF ok] conjunct2 [OF conjunct2 [OF ok]] by (intro conjI allI impI) simp_all
qed

text \<open>Two rules, the first of them twice: one names client 7, the other inherits.\<close>

definition sample_rules :: "report_rule store" where
  "sample_rules a = \<lparr>ReportRule_TrafficType = 0, ReportRule_EventsCount = 1, ReportRule_SegmentIds = [],
     ReportRule_Frequency = [], ReportRule_LI = 0, ReportRule_CmpID = 0,
     ReportRule_Payer = (if a = 0 then sample_uuid_string 7 else '''')\<rparr>"

definition sample_match :: "match_rule store" where
  "sample_match a = \<lparr>Match_TrafficType = 0, Match_SegmentIds = [1],
     Match_Payer = (if a = 0 then sample_uuid_string 7 else '''')\<rparr>"

lemmas sample_uuid_simps = sample_uuid_lib [THEN uuid_libD(1)] sample_uuid_lib [THEN uuid_libD(2)]

lemma sample_report_run:
  "applyReportRulePayers sample_uuid_parse sample_uuid_string [Some 0, Some 1, Some 0] 9 sample_rules =
     (sample_rules
       (1 := (sample_rules 1)\<lparr>ReportRule_Payer := sample_uuid_string 9\<rparr>), None)"
  by (simp add: applyReportRulePayers_def sample_rules_def resolveRulePayer_def uuid_Nil_def
      sample_uuid_simps report_set_payer_def fun_eq_iff)

theorem report_rules_billed_witness:
  "\<exists>u. u \<noteq> uuid_Nil \<and> (sample_rules
     (1 := (sample_rules 1)\<lparr>ReportRule_Payer := sample_uuid_string 9\<rparr>)) 1 =
       (sample_rules 1)\<lparr>ReportRule_Payer := sample_uuid_string u\<rparr>"
proof -
  have "Some (1::addr) \<in> set [Some 0, Some 1, Some 0]" by simp
  with report_rules_billed [OF sample_uuid_lib sample_report_run] show ?thesis by blast
qed

text \<open>
  A Target request has no payer of its own: its match rules are accepted exactly when every
  rule is there and names its own non-zero client.
\<close>

lemma match_rules_need_own_payer:
  assumes "uuid_lib parse show"
  shows "snd (applyMatchRulePayers parse show rules uuid_Nil h) = None \<longleftrightarrow>
    list_all (\<lambda>r. \<exists>a u. r = Some a \<and> names_payer parse (Match_Payer (h a)) u) rules"
proof -
  have own: "resolveRulePayer parse s uuid_Nil = Inr u \<longleftrightarrow> names_payer parse s u" for s u
    by (auto simp: resolveRulePayer_Inr)
  obtain h' err where run: "stampRules parse show ''match rule'' Match_Payer match_set_payer uuid_Nil 0 rules h = (h', err)"
    by fastforce
  show ?thesis
  proof
    assume "snd (applyMatchRulePayers parse show rules uuid_Nil h) = None"
    with run have "stampRules parse show ''match rule'' Match_Payer match_set_payer uuid_Nil 0 rules h = (h', None)"
      by (simp add: applyMatchRulePayers_def)
    from match_payer.stamp_ok [OF uuid_libD [OF assms(1)] this]
    show "list_all (\<lambda>r. \<exists>a u. r = Some a \<and> names_payer parse (Match_Payer (h a)) u) rules"
      unfolding own list_all_iff by (metis option.exhaust)
  next
    assume "list_all (\<lambda>r. \<exists>a u. r = Some a \<and> names_payer parse (Match_Payer (h a)) u) rules"
    then have "\<forall>r\<in>set rules. \<exists>a u. r = Some a \<and> resolveRulePayer parse (Match_Payer (h a)) uuid_Nil = Inr u"
      by (simp add: own list_all_iff)
    from match_payer.stamp_succeeds [OF uuid_libD [OF assms(1)] this, of "''match rule''" 0] run
    show "snd (applyMatchRulePayers parse show rules uuid_Nil h) = None"
      by (auto simp: applyMatchRulePayers_def)
  qed
qed

text \<open>
  C34. A failing stamping is not rolled back, and names its rule: for some index \<open>k\<close> the rules
  before it have been stamped (the store is the one a successful run over them leaves), no
  other rule is touched, rule \<open>k\<close> is nil or does not resolve, and the error carries \<open>k\<close> and,
  wrapped, the reason, so that \<^verbatim>\<open>errors.Is(err, ErrorPayerRequired)\<close> holds exactly when that
  rule and the request both leave the payer unset.
\<close>

theorem failed_stamping_keeps_prefix:
  assumes "uuid_lib parse show"
    and "applyReportRulePayers parse show rules requestPayer h = (h', Some err)"
  shows "\<exists>k < length rules.
    applyReportRulePayers parse show (take k rules) requestPayer h = (h', None) \<and>
    (case rules ! k of
       None \<Rightarrow> err = Errorf ''report rule %d must not be nil'' [AInt (int k)]
     | Some a \<Rightarrow> \<exists>e. err = Errorf ''report rule %d: %w'' [AInt (int k), AWrap e] \<and>
         resolveRulePayer parse (ReportRule_Payer (h' a)) requestPayer = Inl e \<and>
         (e = ErrorPayerRequired \<longleftrightarrow>
            unset_payer parse (ReportRule_Payer (h' a)) \<and> requestPayer = uuid_Nil))"
proof -
  from report_payer.stamp_error [OF uuid_libD [OF assms(1)] assms(2) [unfolded applyReportRulePayers_def]]
  obtain k where k: "k < length rules"
    "stampRules parse show ''report rule'' ReportRule_Payer report_set_payer requestPayer 0 (take k rules) h = (h', None)"
    "case rules ! k of
       None \<Rightarrow> err = Errorf (''report rule'' @ '' %d must not be nil'') [AInt (int (0 + k))]
     | Some a \<Rightarrow> \<exists>e. resolveRulePayer parse (ReportRule_Payer (h' a)) requestPayer = Inl e \<and>
         err = Errorf (''report rule'' @ '' %d: %w'') [AInt (int (0 + k)), AWrap e]"
    by blast
  have "case rules ! k of
       None \<Rightarrow> err = Errorf ''report rule %d must not be nil'' [AInt (int k)]
     | Some a \<Rightarrow> \<exists>e. err = Errorf ''report rule %d: %w'' [AInt (int k), AWrap e] \<and>
         resolveRulePayer parse (ReportRule_Payer (h' a)) requestPayer = Inl e \<and>
         (e = ErrorPayerRequired \<longleftrightarrow>
            unset_payer parse (ReportRule_Payer (h' a)) \<and> requestPayer = uuid_Nil)"
    using k(3) resolveRulePayer_required [of parse "ReportRule_Payer (h' (the (rules ! k)))" requestPayer]
    by (cases "rules ! k") auto
  with k(1,2) show ?thesis unfolding applyReportRulePayers_def by blast
qed

lemma sample_report_fails:
  "applyReportRulePayers sample_uuid_parse sample_uuid_string [Some 0, Some 1, None] uuid_Nil sample_rules =
     (sample_rules, Some (Errorf ''report rule %d: %w'' [AInt 1, AWrap ErrorPayerRequired]))"
  by (simp add: applyReportRulePayers_def sample_rules_def resolveRulePayer_def uuid_Nil_def
      sample_uuid_simps report_set_payer_def fun_eq_iff)

theorem failed_stamping_keeps_prefix_witness:
  "\<exists>k < length [Some 0, Some 1, None :: addr option].
     applyReportRulePayers sample_uuid_parse sample_uuid_string (take k [Some 0, Some 1, None]) uuid_Nil
       sample_rules = (sample_rules, None)"
  using failed_stamping_keeps_prefix [OF sample_uuid_lib sample_report_fails] by blast

text \<open>
  C40. Stamping is idempotent: sending the same Target or Report request again finds every rule
  already carrying its payer and leaves it as it is, even under the all-zero default payer.
\<close>

theorem restamping_changes_nothing:
  assumes "uuid_lib parse show"
  shows "(applyReportRulePayers parse show rules p h = (h', None) \<longrightarrow>
            applyReportRulePayers parse show rules q h' = (h', None)) \<and>
         (applyMatchRulePayers parse show mrules uuid_Nil m = (m', None) \<longrightarrow>
            applyMatchRulePayers parse show mrules uuid_Nil m' = (m', None))"
  using report_payer.stamp_idem [OF uuid_libD [OF assms]] match_payer.stamp_idem [OF uuid_libD [OF assms]]
  unfolding applyReportRulePayers_def applyMatchRulePayers_def by blast

lemma sample_match_run:
  "applyMatchRulePayers sample_uuid_parse sample_uuid_string [Some 0, Some 0] uuid_Nil sample_match =
     (sample_match, None)"
  by (simp add: applyMatchRulePayers_def sample_match_def resolveRulePayer_def uuid_Nil_def
      sample_uuid_simps match_set_payer_def fun_eq_iff)

theorem restamping_changes_nothing_witness:
  "applyReportRulePayers sample_uuid_parse sample_uuid_string [Some 0, Some 1, Some 0] 5
     (sample_rules (1 := (sample_rules 1)\<lparr>ReportRule_Payer := sample_uuid_string 9\<rparr>)) =
     (sample_rules (1 := (sample_rules 1)\<lparr>ReportRule_Payer := sample_uuid_string 9\<rparr>), None) \<and>
   applyMatchRulePayers sample_uuid_parse sample_uuid_string [Some 0, Some 0] uuid_Nil sample_match =
     (sample_match, None)"
  using restamping_changes_nothing [OF sample_uuid_lib] sample_report_run sample_match_run by blast

end
