(* ===== verification/RpcClient.thy ===== *)
theory RpcClient
  imports Wire Payer
begin

text \<open>
  One connection's client: \<^verbatim>\<open>pkg/client/metrics.go\<close> (the counters of a request kind and
  address) and \<^verbatim>\<open>pkg/client/client.go\<close> (\<open>doUnary\<close>, the error counting, the dial hook and
  \<open>reconnect\<close>).

  What is not in the repository is gathered in the record \<open>ext\<close>: the UUID library, the protobuf
  encoding of the messages, fastrpc's \<^verbatim>\<open>DoDeadline\<close> over a network state \<open>'n\<close>, and the
  runtime's slice growth. \<open>doUnary\<close> threads a \<open>world\<close>: the network, the metrics registry, the
  message pools and the rule stores. A panic is \<open>None\<close>.
\<close>

section \<open>metrics.go\<close>

text \<open>A metric's name: family, request label, address label, error label (empty for none).\<close>

type_synonym metric = "string \<times> string \<times> string \<times> string"
type_synonym registry = "metric \<Rightarrow> nat"

definition Inc :: "metric \<Rightarrow> registry \<Rightarrow> registry" where
  "Inc m reg = reg(m := Suc (reg m))"

record metrics_group =
  mg_error :: metric
  mg_success :: metric
  mg_timeout :: metric
  mg_failed :: metric
  mg_overflow :: metric
  mg_request :: metric
  mg_duration :: metric
  mg_authRetry :: metric

definition newMetricsGroup :: "string \<Rightarrow> string \<Rightarrow> metrics_group" where
  "newMetricsGroup req ad =
     \<lparr>mg_error = (''dcrRPCClientError'', req, ad, ''other''),
      mg_success = (''dcrRPCClientSuccess'', req, ad, ''''),
      mg_timeout = (''dcrRPCClientError'', req, ad, ''timeout''),
      mg_failed = (''dcrRPCClientError'', req, ad, ''failed''),
      mg_overflow = (''dcrRPCClientError'', req, ad, ''overflow''),
      mg_request = (''dcrRPCClientRequest'', req, ad, ''''),
      mg_duration = (''dcrRPCClientDuration'', req, ad, ''''),
      mg_authRetry = (''dcrRPCClientAuthRetry'', req, ad, '''')\<rparr>"

text \<open>
  \<^verbatim>\<open>buildShardMetrics\<close>: an array of \<^verbatim>\<open>MaxRequestIdentifier + 1\<close> pointers, the first
  nil; the loop asks each register for its name, which panics for an unknown one.
\<close>

fun fillMetrics :: "string \<Rightarrow> nat \<Rightarrow> nat \<Rightarrow> metrics_group option list \<Rightarrow> metrics_group option list option" where
  "fillMetrics ad i 0 ms = Some ms"
| "fillMetrics ad i (Suc n) ms =
     (case RPCRegister_String (of_nat i) of
        None \<Rightarrow> None
      | Some name \<Rightarrow> fillMetrics ad (Suc i) n (ms[i := Some (newMetricsGroup name ad)]))"

definition buildShardMetrics :: "string \<Rightarrow> metrics_group option list option" where
  "buildShardMetrics ad =
     fillMetrics ad 1 (unat MaxRequestIdentifier) (replicate (Suc (unat MaxRequestIdentifier)) None)"

definition metrics_of :: "RPCRegister \<Rightarrow> string \<Rightarrow> metrics_group option list \<Rightarrow> bool" where
  "metrics_of reqn ad ms \<longleftrightarrow>
     (\<exists>name. RPCRegister_String reqn = Some name \<and> unat reqn < length ms \<and>
        ms ! unat reqn = Some (newMetricsGroup name ad))"

lemma buildShardMetrics_total:
  "buildShardMetrics ad =
     Some [None, Some (newMetricsGroup ''target'' ad), Some (newMetricsGroup ''report'' ad),
           Some (newMetricsGroup ''touch'' ad)]"
  by (simp add: buildShardMetrics_def registers RPCRegister_String_def)
    (simp add: eval_nat_numeral registers RPCRegister_String_def)

section \<open>What is outside the repository\<close>

record ('n) ext =
  uuid_parse :: "string \<Rightarrow> uuid result"
  uuid_string :: "uuid \<Rightarrow> string"
  grow :: "nat \<Rightarrow> nat \<Rightarrow> nat"
  do_deadline :: "nat \<times> nat \<Rightarrow> request \<Rightarrow> response \<Rightarrow> int \<Rightarrow> 'n \<Rightarrow> 'n \<times> response \<times> go_error option"
  marshal_target :: "match_rule option target_request option \<Rightarrow> bytes result"
  marshal_report :: "report_rule option report_request \<Rightarrow> bytes result"
  marshal_touch :: "touch_request option \<Rightarrow> bytes result"
  unmarshal_target :: "bytes \<Rightarrow> target_response result"
  unmarshal_touch :: "bytes \<Rightarrow> touch_response result"

record 'n world =
  w_net :: 'n
  w_metrics :: registry
  w_requests :: "request list"
  w_responses :: "response list"
  w_match :: "match_rule store"
  w_report :: "report_rule store"

text \<open>What the runtime decides during one call: the pools' picks and the clock.\<close>

record call =
  pick_request :: "nat option"
  pick_response :: "nat option"
  now :: int

definition ErrTimeout :: go_error where
  "ErrTimeout = Sentinel ''fastrpc timeout''"

definition ErrPendingRequestsOverflow :: go_error where
  "ErrPendingRequestsOverflow = Sentinel ''fastrpc pending requests overflow''"

section \<open>client.go\<close>

type_synonym conn_id = nat

record rpc_client =
  maxRequestDuration :: int
  metricGroups :: "metrics_group option list"
  connDials :: uint64
  cl_conn :: "conn_id option"

definition onConnDialed :: "conn_id \<Rightarrow> rpc_client \<Rightarrow> rpc_client" where
  "onConnDialed conn c = c\<lparr>connDials := connDials c + 1, cl_conn := Some conn\<rparr>"

definition Reconnects :: "rpc_client \<Rightarrow> uint64" where
  "Reconnects c = connDials c"

text \<open>\<^verbatim>\<open>c.metricGroups[reqn]\<close> panics out of range, and a nil group as soon as it is used.\<close>

definition metric_group :: "rpc_client \<Rightarrow> RPCRegister \<Rightarrow> metrics_group option" where
  "metric_group c reqn =
     (if unat reqn < length (metricGroups c) then metricGroups c ! unat reqn else None)"

definition countError :: "metrics_group \<Rightarrow> go_error option \<Rightarrow> registry \<Rightarrow> registry" where
  "countError mg err =
     (case err of
        None \<Rightarrow> Inc (mg_failed mg)
      | Some e \<Rightarrow>
          (if err_is e ''fastrpc timeout'' then Inc (mg_timeout mg)
           else if err_is e ''fastrpc pending requests overflow'' then Inc (mg_overflow mg)
           else Inc (mg_error mg)))"

text \<open>A register printed by \<^verbatim>\<open>%s\<close>: fmt reports a panicking \<^verbatim>\<open>String\<close> in the text.\<close>

definition reg_arg :: "RPCRegister \<Rightarrow> go_arg" where
  "reg_arg r = AStr (case RPCRegister_String r of
     Some s \<Rightarrow> s | None \<Rightarrow> ''%!s(PANIC=String method: unknown)'')"

text \<open>\<^verbatim>\<open>String\<close> of an enum: its name, or the number of one it does not know.\<close>

definition enum_String :: "(int \<times> string) list \<Rightarrow> int32 \<Rightarrow> string" where
  "enum_String names n =
     (case map_of names (sint n) of
        Some s \<Rightarrow> s
      | None \<Rightarrow> (if sint n < 0 then ''-'' @ dec (nat (- sint n)) else dec (nat (sint n))))"

text \<open>
  \<^verbatim>\<open>doUnary\<close>: \<open>raw\<close> is the marshalled request, \<open>unmarshal\<close> decodes into the response
  message the caller passed (a Report passes none, and its decoder accepts anything). The two
  messages are acquired, used for one exchange and released whatever its outcome.
\<close>

definition doUnary :: "'n ext \<Rightarrow> call \<Rightarrow> nat \<times> nat \<Rightarrow> rpc_client \<Rightarrow> bytes result \<Rightarrow> (bytes \<Rightarrow> 'r result) \<Rightarrow>
    RPCRegister \<Rightarrow> 'n world \<Rightarrow> ('n world \<times> 'r option \<times> int32 \<times> go_error option) option" where
  "doUnary X k slot c raw unmarshal reqn w =
     (case raw of
        Inl err \<Rightarrow> Some (w, None, RPC_UNKNOWN,
                     Some (Errorf ''marshal request %s is failed: %+v'' [reg_arg reqn, AText err]))
      | Inr raw \<Rightarrow>
         if raw = [] then Some (w, None, RPC_UNKNOWN,
                     Some (Errorf ''marshal request %s is failed: empty request'' [reg_arg reqn]))
         else case metric_group c reqn of
           None \<Rightarrow> None
         | Some mg \<Rightarrow>
            (let (req, reqs) = AcquireRequest (pick_request k) (w_requests w);
                 (resp, resps) = AcquireResponse (pick_response k) (w_responses w);
                 req' = Request_Append (grow X) raw (Request_SetName reqn req);
                 (net, resp', err) = do_deadline X slot req' resp (now k + maxRequestDuration c) (w_net w);
                 done = (\<lambda>reg. w\<lparr>w_net := net, w_metrics := reg,
                           w_requests := ReleaseRequest req' reqs,
                           w_responses := ReleaseResponse resp' resps\<rparr>);
                 reg = Inc (mg_duration mg) (Inc (mg_request mg) (w_metrics w))
             in case err of
               Some e \<Rightarrow> Some (done (countError mg (Some e) reg), None, RPC_NETWORK_ERROR,
                           Some (Errorf ''error when calling '%s': %s'' [reg_arg reqn, AText e]))
             | None \<Rightarrow>
                (let statusCode = GetStatusCode resp' in
                 if statusCode \<noteq> RPC_OK
                 then Some (done (countError mg None reg), None, statusCode,
                        Some (Errorf ''RPC[%q]: %s'' [AStr (enum_String RPCServerResponseCode_name statusCode), ABytes (Response_Value resp')]))
                 else case unmarshal (Response_Value resp') of
                   Inl e \<Rightarrow> Some (done reg, None, statusCode,
                        Some (Errorf ''unmarshal response of request '%s' is failed: %w'' [reg_arg reqn, AWrap e]))
                 | Inr m \<Rightarrow> Some (done (Inc (mg_success mg) reg), Some m, statusCode, None))))"

section \<open>Reconnecting\<close>

text \<open>
  The wait of a graceful \<open>reconnect\<close>: at its \<open>k\<close>th turn the loop reads the number of requests in
  flight and the clock, and sleeps 5 ms unless it is done. Nothing but the clock ends it, so it is
  a partial function; \<open>wait_idle_returns\<close> below proves that it returns and how soon.
\<close>

definition poll_sleep :: int where
  "poll_sleep = 5 * 10 ^ 6"

partial_function (option) wait_idle :: "(nat \<Rightarrow> nat) \<Rightarrow> (nat \<Rightarrow> int) \<Rightarrow> int \<Rightarrow> nat \<Rightarrow> nat option" where
  "wait_idle pending clock deadline k =
     (if 0 < pending k \<and> clock k < deadline then wait_idle pending clock deadline (Suc k) else Some k)"

text \<open>
  \<open>reconnect\<close>: \<open>interim\<close> is what the dial hook does to the client between the load of its
  connection and the close. The result is the connection closed, if any, and the client then.
\<close>

definition reconnect :: "bool \<Rightarrow> int \<Rightarrow> (nat \<Rightarrow> nat) \<Rightarrow> (nat \<Rightarrow> int) \<Rightarrow> (rpc_client \<Rightarrow> rpc_client) \<Rightarrow>
    rpc_client \<Rightarrow> (conn_id option \<times> rpc_client) option" where
  "reconnect force wait pending clock interim c =
     (case cl_conn c of
        None \<Rightarrow> Some (None, c)
      | Some conn \<Rightarrow>
          (case (if force then Some 0 else wait_idle pending clock (clock 0 + wait) 1) of
             None \<Rightarrow> None
           | Some _ \<Rightarrow>
               (let c' = interim c in
                Some (Some conn, if cl_conn c' = Some conn then c'\<lparr>cl_conn := None\<rparr> else c'))))"

section \<open>Lemmas on one exchange\<close>

text \<open>The pools as the code keeps them: every pooled object is reset and has its scratch buffer.\<close>

definition pools_ok :: "'n world \<Rightarrow> bool" where
  "pools_ok w \<longleftrightarrow> list_all (\<lambda>r. request_clean r \<and> request_ok r) (w_requests w) \<and>
     list_all response_clean (w_responses w)"

lemma fresh_request_ok: "request_clean new_Request \<and> request_ok new_Request"
  by (simp add: request_clean_def request_ok_def request_ops slice_nil_def Unknown_def)

lemma released_request_ok: "request_ok r \<Longrightarrow> request_clean (Request_Reset r) \<and> request_ok (Request_Reset r)"
  by (simp add: request_clean_def request_ok_def request_ops Unknown_def)

lemmas pool_steps = AcquireRequest_def AcquireResponse_def ReleaseRequest_def ReleaseResponse_def

text \<open>Nothing is sent for a request that cannot be marshalled or marshals to nothing.\<close>

lemma doUnary_local_error:
  "raw = Inl e \<or> raw = Inr [] \<Longrightarrow> \<exists>err. doUnary X k slot c raw un reqn w = Some (w, None, RPC_UNKNOWN, Some err)"
  by (auto simp: doUnary_def)

text \<open>
  One exchange, taken apart: the request handed to fastrpc carries exactly the register and the
  marshalled bytes, in a message from a clean pool, and what comes back decides the result.
\<close>

lemma doUnary_exchange:
  assumes "pools_ok w" "raw \<noteq> []" "metric_group c reqn = Some mg"
    and "doUnary X k slot c (Inr raw) un reqn w = Some (w', m, st, err)"
  obtains req resp net resp' derr where
    "request_obs req = (reqn, raw)" "request_ok req" "response_clean resp"
    "list_all response_ok (w_responses w) \<longrightarrow> response_ok resp"
    "do_deadline X slot req resp (now k + maxRequestDuration c) (w_net w) = (net, resp', derr)"
    "w_net w' = net" "pools_ok w'" "w_match w' = w_match w" "w_report w' = w_report w"
    "case derr of
       Some e \<Rightarrow> m = None \<and> st = RPC_NETWORK_ERROR \<and> err \<noteq> None \<and>
         w_metrics w' = countError mg (Some e) (Inc (mg_duration mg) (Inc (mg_request mg) (w_metrics w)))
     | None \<Rightarrow> st = GetStatusCode resp' \<and>
         (if st \<noteq> RPC_OK then m = None \<and> err \<noteq> None \<and>
            w_metrics w' = countError mg None (Inc (mg_duration mg) (Inc (mg_request mg) (w_metrics w)))
          else case un (Response_Value resp') of
            Inl e \<Rightarrow> m = None \<and> err \<noteq> None \<and>
              w_metrics w' = Inc (mg_duration mg) (Inc (mg_request mg) (w_metrics w))
          | Inr x \<Rightarrow> m = Some x \<and> err = None \<and>
              w_metrics w' = Inc (mg_success mg) (Inc (mg_duration mg) (Inc (mg_request mg) (w_metrics w))))"
proof -
  obtain req0 reqs where a: "AcquireRequest (pick_request k) (w_requests w) = (req0, reqs)"
    by fastforce
  obtain resp resps where b: "AcquireResponse (pick_response k) (w_responses w) = (resp, resps)"
    by fastforce
  have req0: "request_clean req0 \<and> request_ok req0"
      "list_all (\<lambda>r. request_clean r \<and> request_ok r) reqs"
    using pool_acquire_all [of "\<lambda>r. request_clean r \<and> request_ok r" "w_requests w" new_Request
        "pick_request k" req0 reqs] a fresh_request_ok assms(1)
    by (simp_all add: pools_ok_def pool_steps)
  have resp: "response_clean resp" "list_all response_clean resps"
    using response_pool.acquire_clean [of "w_responses w" "pick_response k" resp resps] b assms(1)
    by (simp_all add: pools_ok_def pool_steps)
  have buf: "list_all response_ok (w_responses w) \<longrightarrow> response_ok resp"
    using pool_acquire_all [of response_ok "w_responses w" new_Response "pick_response k" resp resps] b
    by (simp add: pool_steps response_ok_def response_ops)
  define req where "req = Request_Append (grow X) raw (Request_SetName reqn req0)"
  have req: "request_obs req = (reqn, raw)" "request_ok req"
    using req0 by (auto simp: req_def request_obs_def request_clean_def request_ok_def request_ops)
  obtain net resp' derr where d:
    "do_deadline X slot req resp (now k + maxRequestDuration c) (w_net w) = (net, resp', derr)"
    using prod_cases3 by blast
  have pools: "pools_ok (w\<lparr>w_net := n, w_metrics := g, w_requests := ReleaseRequest req reqs,
      w_responses := ReleaseResponse resp' resps\<rparr>)" for n g
    using req0(2) resp(2) req(2) released_request_ok [of req] response_pool.release_clean
    by (simp add: pools_ok_def pool_steps pool_release_all)
  show ?thesis
    by (rule that [OF req resp(1) buf d])
      (use assms(2-4) a b d pools in
        \<open>auto simp: doUnary_def req_def Let_def split: option.splits sum.splits if_splits\<close>)
qed

lemma doUnary_no_panic:
  "metric_group c reqn \<noteq> None \<Longrightarrow> doUnary X k slot c raw un reqn w \<noteq> None"
  by (auto simp: doUnary_def Let_def split: sum.splits option.splits prod.splits)

lemma metric_group_built:
  assumes "buildShardMetrics ad = Some (metricGroups c)" "reqn \<in> {Target, Report, Touch}"
  shows "\<exists>name. metric_group c reqn = Some (newMetricsGroup name ad)"
proof -
  have "metricGroups c = [None, Some (newMetricsGroup ''target'' ad), Some (newMetricsGroup ''report'' ad),
           Some (newMetricsGroup ''touch'' ad)]"
    using assms(1) by (simp add: buildShardMetrics_total)
  with assms(2) show ?thesis by (auto simp: metric_group_def registers)
qed

section \<open>Lemmas on the graceful wait\<close>

lemma wait_idle_returns:
  assumes tick: "\<And>i. 1 \<le> i \<Longrightarrow> clock i + poll_sleep \<le> clock (Suc i)"
  shows "1 \<le> k \<Longrightarrow> \<exists>j \<ge> k. wait_idle pending clock deadline k = Some j \<and>
    (pending j = 0 \<or> deadline \<le> clock j) \<and>
    (\<forall>i. k \<le> i \<and> i < j \<longrightarrow> 0 < pending i \<and> clock i < deadline)"
proof (induction "nat (deadline - clock k)" arbitrary: k rule: less_induct)
  case less
  show ?case
  proof (cases "0 < pending k \<and> clock k < deadline")
    case False
    then show ?thesis by (subst wait_idle.simps) (auto intro: exI [of _ k])
  next
    case True
    have "clock k < clock (Suc k)" using tick [OF less.prems] by (simp add: poll_sleep_def)
    with True have "nat (deadline - clock (Suc k)) < nat (deadline - clock k)" by simp
    from less.hyps [OF this] obtain j where "Suc k \<le> j" "wait_idle pending clock deadline (Suc k) = Some j"
      "pending j = 0 \<or> deadline \<le> clock j"
      "\<forall>i. Suc k \<le> i \<and> i < j \<longrightarrow> 0 < pending i \<and> clock i < deadline" by auto
    moreover have "0 < pending i \<and> clock i < deadline" if "k \<le> i \<and> i < j" for i
      using calculation(4) True that by (cases "i = k") auto
    ultimately show ?thesis using True
      by (intro exI [of _ j]) (simp add: wait_idle.simps [of _ _ _ k])
  qed
qed

lemma clock_advances:
  assumes tick: "\<And>i. 1 \<le> i \<Longrightarrow> clock i + poll_sleep \<le> clock (Suc i)" and "1 \<le> k"
  shows "clock k + int n * poll_sleep \<le> clock (k + n)"
proof (induction n)
  case (Suc n)
  with tick [of "k + n"] assms(2) show ?case by (simp add: algebra_simps)
qed simp

section \<open>Properties\<close>

text \<open>
  C3. One remote call, end to end. With the metrics \<^verbatim>\<open>buildShardMetrics\<close> builds and the pools as
  the code keeps them, a call with a non-empty request never panics, whatever buffers the pools
  hand out. fastrpc is given a request that carries exactly the call's register and bytes, a
  response without leftovers of an earlier call, and the deadline now plus
  \<^verbatim>\<open>maxRequestDuration\<close>. The error is nil exactly when a message is returned, and exactly
  when the exchange succeeded with status OK and the response decodes; the status is
  NETWORK_ERROR when the exchange failed and the server's otherwise; the pools stay clean.
\<close>

theorem unary_call_contract:
  assumes "pools_ok w" "buildShardMetrics ad = Some (metricGroups c)"
    and "reqn \<in> {Target, Report, Touch}" "raw \<noteq> []"
  shows "\<exists>req resp net resp' derr w' m st err.
    do_deadline X slot req resp (now k + maxRequestDuration c) (w_net w) = (net, resp', derr) \<and>
    request_obs req = (reqn, raw) \<and> response_clean resp \<and>
    doUnary X k slot c (Inr raw) un reqn w = Some (w', m, st, err) \<and>
    (err = None \<longleftrightarrow> m \<noteq> None) \<and>
    (err = None \<longleftrightarrow> derr = None \<and> GetStatusCode resp' = RPC_OK \<and> m = case_sum (\<lambda>_. None) Some (un (Response_Value resp')) \<and> m \<noteq> None) \<and>
    st = (if derr = None then GetStatusCode resp' else RPC_NETWORK_ERROR) \<and>
    w_net w' = net \<and> pools_ok w' \<and> w_match w' = w_match w \<and> w_report w' = w_report w"
proof -
  obtain mg where mg: "metric_group c reqn = Some mg"
    using metric_group_built [OF assms(2,3)] by blast
  then obtain w' m st err where run: "doUnary X k slot c (Inr raw) un reqn w = Some (w', m, st, err)"
    using doUnary_no_panic [of c reqn X k slot "Inr raw" un w] by (metis not_Some_eq option.distinct(1) prod_cases4)
  show ?thesis
  proof (rule doUnary_exchange [OF assms(1,4) mg run], goal_cases)
    case (1 req resp net resp' derr)
    with run show ?case
      by - (rule exI [of _ req], rule exI [of _ resp], rule exI [of _ net],
          rule exI [of _ resp'], rule exI [of _ derr], rule exI [of _ w'],
          rule exI [of _ m], rule exI [of _ st], rule exI [of _ err],
          auto split: option.splits sum.splits if_splits)
  qed
qed
text \<open>A network that answers every request with status OK and the bytes it was asked with.\<close>

definition sample_ext :: "unit ext" where
  "sample_ext = \<lparr>uuid_parse = sample_uuid_parse, uuid_string = sample_uuid_string,
     grow = (\<lambda>_ _. 0),
     do_deadline = (\<lambda>slot req resp dl n.
        (n, SetStatusCode RPC_OK (Response_Append (\<lambda>_ _. 0) (Request_Value req) resp), None)),
     marshal_target = (\<lambda>_. Inr [1]), marshal_report = (\<lambda>_. Inr [2]), marshal_touch = (\<lambda>_. Inr [3]),
     unmarshal_target = (\<lambda>b. Inr \<lparr>TargetResponse_TrackingId = b, TargetResponse_StatusCode = RPC_OK,
        TargetResponse_Frequency = [], TargetResponse_Match = []\<rparr>),
     unmarshal_touch = (\<lambda>b. Inr \<lparr>TouchResponse_UserId = b, TouchResponse_Accuracy = TouchResponse_Reliable,
        TouchResponse_Label = []\<rparr>)\<rparr>"

definition sample_world :: "unit world" where
  "sample_world = \<lparr>w_net = (), w_metrics = (\<lambda>_. 0), w_requests = [], w_responses = [],
     w_match = sample_match, w_report = sample_rules\<rparr>"

definition sample_call :: call where
  "sample_call = \<lparr>pick_request = None, pick_response = None, now = 0\<rparr>"

definition sample_client :: rpc_client where
  "sample_client = \<lparr>maxRequestDuration = 10 ^ 9,
     metricGroups = [None, Some (newMetricsGroup ''target'' ''a:1''), Some (newMetricsGroup ''report'' ''a:1''),
       Some (newMetricsGroup ''touch'' ''a:1'')],
     connDials = 0, cl_conn = None\<rparr>"

lemma sample_pools_ok: "pools_ok sample_world"
  by (simp add: pools_ok_def sample_world_def)

lemma sample_client_metrics: "buildShardMetrics ''a:1'' = Some (metricGroups sample_client)"
  by (simp add: buildShardMetrics_total sample_client_def)

theorem unary_call_contract_witness:
  "\<exists>w' m st err. doUnary sample_ext sample_call (0, 0) sample_client (Inr [3]) Inr Touch sample_world =
      Some (w', m, st, err) \<and> (err = None \<longleftrightarrow> m \<noteq> None) \<and> pools_ok w'"
  using unary_call_contract [OF sample_pools_ok sample_client_metrics, of Touch "[3]" sample_ext
      "(0, 0)" sample_call Inr] by auto

text \<open>The outcome counter of one exchange, if it has one.\<close>

definition outcome_metric :: "metrics_group \<Rightarrow> go_error option \<Rightarrow> int32 \<Rightarrow> bool \<Rightarrow> metric option" where
  "outcome_metric mg derr st decoded =
     (case derr of
        Some e \<Rightarrow> Some (if err_is e ''fastrpc timeout'' then mg_timeout mg
                   else if err_is e ''fastrpc pending requests overflow'' then mg_overflow mg
                   else mg_error mg)
      | None \<Rightarrow> if st \<noteq> RPC_OK then Some (mg_failed mg)
               else if decoded then Some (mg_success mg) else None)"

text \<open>
  Metrics accounting of one call: the request counter and the duration histogram of the
  call's own register go up by one; then exactly one outcome counter goes up by one (timeout,
  overflow or error for a failed exchange, failed for a status other than OK, success), except
  that a reply that does not decode is counted as no outcome at all. No other metric moves.
\<close>

lemma unary_call_metrics:
  assumes "pools_ok w" "reqn \<in> {Target, Report, Touch}" "RPCRegister_String reqn = Some name"
    and "buildShardMetrics ad = Some (metricGroups c)" "raw \<noteq> []"
    and "doUnary X k slot c (Inr raw) un reqn w = Some (w', m, st, err)"
    and "mg = newMetricsGroup name ad"
  shows "\<exists>req resp net resp' derr.
    do_deadline X slot req resp (now k + maxRequestDuration c) (w_net w) = (net, resp', derr) \<and>
    (\<forall>x. w_metrics w' x = w_metrics w x +
       (if x \<in> {mg_request mg, mg_duration mg} then 1
        else if outcome_metric mg derr st (m \<noteq> None) = Some x then 1 else 0))"
proof -
  have mg: "metric_group c reqn = Some mg"
    using assms(2,3,7) assms(4) [symmetric]
    by (auto simp: metric_group_def buildShardMetrics_total RPCRegister_String_def registers split: if_splits)
  note g = assms(7)
  show ?thesis
  proof (rule doUnary_exchange [OF assms(1,5) mg assms(6)], goal_cases)
    case (1 req resp net resp' derr)
    have "\<forall>x. w_metrics w' x = w_metrics w x +
       (if x \<in> {mg_request mg, mg_duration mg} then 1
        else if outcome_metric mg derr st (m \<noteq> None) = Some x then 1 else 0)"
      using 1(10)
      by (cases derr; cases "un (Response_Value resp')")
        (auto simp: g outcome_metric_def countError_def Inc_def newMetricsGroup_def split: if_splits)
    with 1(5) show ?case by blast
  qed
qed

text \<open>
  C26. A reconnect always returns, although the code's wait has no bound of its own: with a clock
  that moves at least 5 ms per sleep, the graceful wait ends with no request in flight or with
  its time used up, after at most \<^verbatim>\<open>wait\<close> plus one sleep; a forced one does not wait.
  It closes the connection that was current when it was called, leaves the client without that
  connection, and keeps a connection that was dialed in between; dials are never uncounted.
\<close>

theorem reconnect_returns:
  assumes "\<And>i. 1 \<le> i \<Longrightarrow> clock i + poll_sleep \<le> clock (Suc i)" "clock 0 \<le> clock 1"
    and "cl_conn c = Some conn"
  shows "\<exists>c'. reconnect force wait pending clock interim c = Some (Some conn, c') \<and>
    cl_conn c' \<noteq> Some conn \<and> (cl_conn (interim c) \<noteq> Some conn \<longrightarrow> c' = interim c) \<and>
    Reconnects c' = Reconnects (interim c) \<and>
    (\<not> force \<longrightarrow> (\<exists>j \<ge> 1. wait_idle pending clock (clock 0 + wait) 1 = Some j \<and>
       (pending j = 0 \<or> clock 0 + wait \<le> clock j) \<and>
       (j = 1 \<or> (int j - 2) * poll_sleep < wait)))"
proof -
  obtain j where j: "1 \<le> j" "wait_idle pending clock (clock 0 + wait) 1 = Some j"
    "pending j = 0 \<or> clock 0 + wait \<le> clock j"
    "\<forall>i. 1 \<le> i \<and> i < j \<longrightarrow> 0 < pending i \<and> clock i < clock 0 + wait"
    using wait_idle_returns [of clock 1 pending "clock 0 + wait", OF assms(1)] by auto
  have "(int j - 2) * poll_sleep < wait" if "j \<noteq> 1"
  proof -
    have "clock 1 + int (j - 2) * poll_sleep \<le> clock (1 + (j - 2))"
      using clock_advances [of clock 1 "j - 2", OF assms(1)] by simp
    moreover have "1 + (j - 2) = j - 1" "int (j - 2) = int j - 2" using j(1) that by auto
    moreover have "clock (j - 1) < clock 0 + wait" using j(1,4) that by simp
    ultimately show ?thesis using assms(2) by simp
  qed
  with j assms(3) show ?thesis
    by (auto simp: reconnect_def Let_def Reconnects_def)
qed

theorem reconnect_returns_witness:
  "\<exists>c'. reconnect False (10 ^ 7) (\<lambda>i. 3 - i) (\<lambda>i. int i * poll_sleep) (onConnDialed 5)
      (onConnDialed 4 sample_client) = Some (Some 4, c') \<and> c' = onConnDialed 5 (onConnDialed 4 sample_client)"
  using reconnect_returns [of "\<lambda>i. int i * poll_sleep" "onConnDialed 4 sample_client" 4 False "10 ^ 7"
      "\<lambda>i. 3 - i" "onConnDialed 5"]
  by (auto simp: onConnDialed_def poll_sleep_def algebra_simps)

end
