(* ===== verification/NetIP.thy ===== *)
theory NetIP
  imports GoStd
begin

text \<open>
  \<^verbatim>\<open>net.ParseIP\<close> and \<^verbatim>\<open>net.IP.String\<close>, which the dialer uses to tell a host that is an
  address from one to resolve: dotted IPv4 without leading zeros, IPv6 groups with one \<open>::\<close>
  and an IPv4 tail, no zone. A parsed address always has 16 bytes.
\<close>

section \<open>Parsing\<close>

definition is_digit :: "char \<Rightarrow> bool" where
  "is_digit c \<longleftrightarrow> 48 \<le> (of_char c :: nat) \<and> (of_char c :: nat) \<le> 57"

definition dec_val :: "string \<Rightarrow> nat" where
  "dec_val s = foldl (\<lambda>a c. a * 10 + (of_char c - 48)) 0 s"

definition parse_octet :: "string \<Rightarrow> byte option" where
  "parse_octet s =
     (if s \<noteq> [] \<and> list_all is_digit s \<and> (length s = 1 \<or> s ! 0 \<noteq> CHR ''0'') \<and> length s \<le> 3 \<and> dec_val s \<le> 255
      then Some (of_nat (dec_val s)) else None)"

definition parseIPv4 :: "string \<Rightarrow> bytes option" where
  "parseIPv4 s =
     (case split_on (CHR ''.'') s of
        [a, b, c, d] \<Rightarrow>
          (case (parse_octet a, parse_octet b, parse_octet c, parse_octet d) of
             (Some w, Some x, Some y, Some z) \<Rightarrow> Some [w, x, y, z]
           | _ \<Rightarrow> None)
      | _ \<Rightarrow> None)"

definition hex_digit_val_ci :: "char \<Rightarrow> nat option" where
  "hex_digit_val_ci c =
     (let n = of_char c :: nat in
      if is_digit c then Some (n - 48)
      else if 97 \<le> n \<and> n \<le> 102 then Some (n - 87)
      else if 65 \<le> n \<and> n \<le> 70 then Some (n - 55) else None)"

text \<open>The groups of an IPv6 text: \<open>ip\<close> are the bytes so far, \<open>ell\<close> the place of the \<open>::\<close>.\<close>

function parseIPv6_groups :: "string \<Rightarrow> bytes \<Rightarrow> nat option \<Rightarrow> (bytes \<times> nat option) option" where
  "parseIPv6_groups s ip ell =
     (let ds = takeWhile (\<lambda>c. hex_digit_val_ci c \<noteq> None) s;
          acc = foldl (\<lambda>a c. a * 16 + the (hex_digit_val_ci c)) 0 ds;
          rest = drop (length ds) s;
          ip' = ip @ [of_nat (acc div 256), of_nat (acc mod 256)]
      in if ds = [] \<or> 4 < length ds \<or> 16 \<le> length ip then None
         else (case rest of
            [] \<Rightarrow> Some (ip', ell)
          | c # t \<Rightarrow>
             (if c = CHR ''.'' then
                (if (ell = None \<and> length ip \<noteq> 12) \<or> 16 < length ip + 4 then None
                 else map_option (\<lambda>v4. (ip @ v4, ell)) (parseIPv4 s))
              else if c \<noteq> CHR '':'' \<or> t = [] then None
              else if hd t = CHR '':'' then
                (if ell \<noteq> None then None
                 else if tl t = [] then Some (ip', Some (length ip'))
                 else if length ip' = 16 then None
                 else parseIPv6_groups (tl t) ip' (Some (length ip')))
              else if length ip' = 16 then None
              else parseIPv6_groups t ip' ell)))"
  by pat_completeness auto
termination
proof (relation "measure (\<lambda>(s, ip, ell). length s)", simp, goal_cases)
  case (1 s ip ell ds acc rest ip' c t)
  then have "Suc (length t) = length s - length ds" by (metis length_Cons length_drop)
  then show ?case by (cases t; cases s) simp_all
next
  case (2 s ip ell ds acc rest ip' c t)
  then have "Suc (length t) = length s - length ds" by (metis length_Cons length_drop)
  then show ?case by simp
qed

declare parseIPv6_groups.simps [simp del]

definition parseIPv6 :: "string \<Rightarrow> bytes option" where
  "parseIPv6 s =
     (let lead = (take 2 s = ''::'') in
      if lead \<and> length s = 2 then Some (replicate 16 0)
      else (case parseIPv6_groups (if lead then drop 2 s else s) [] (if lead then Some 0 else None) of
          None \<Rightarrow> None
        | Some (ip, None) \<Rightarrow> (if length ip = 16 then Some ip else None)
        | Some (ip, Some e) \<Rightarrow>
            (if length ip < 16 then Some (take e ip @ replicate (16 - length ip) 0 @ drop e ip) else None)))"

definition v4InV6 :: "bytes \<Rightarrow> bytes" where
  "v4InV6 ip4 = replicate 10 0 @ [255, 255] @ ip4"

definition ParseIP :: "string \<Rightarrow> ip option" where
  "ParseIP s =
     (case filter (\<lambda>c. c \<in> {CHR ''.'', CHR '':'', CHR ''%''}) s of
        [] \<Rightarrow> None
      | c # _ \<Rightarrow>
         (if CHR ''%'' \<in> set s then None
          else if c = CHR ''.'' then map_option v4InV6 (parseIPv4 s)
          else parseIPv6 s))"

section \<open>Printing\<close>

definition lower_hex :: "nat \<Rightarrow> string" where
  "lower_hex n = map (\<lambda>c. if c \<in> set ''ABCDEF'' then char_of ((of_char c :: nat) + 32) else c) (hex n)"

definition ip_words :: "ip \<Rightarrow> nat list" where
  "ip_words ip = map (\<lambda>i. unat (ip ! (2 * i)) * 256 + unat (ip ! (2 * i + 1))) [0..<8]"

text \<open>The first longest run of at least two zero groups is printed as \<open>::\<close>.\<close>

definition zero_run :: "nat list \<Rightarrow> nat \<Rightarrow> nat" where
  "zero_run ws i = length (takeWhile (\<lambda>w. w = 0) (drop i ws))"

definition best_run :: "nat list \<Rightarrow> (nat \<times> nat) option" where
  "best_run ws = foldl (\<lambda>b i. let n = zero_run ws i in
     if 2 \<le> n \<and> (case b of None \<Rightarrow> True | Some (_, m) \<Rightarrow> m < n) then Some (i, n) else b) None [0..<length ws]"

definition IP_String :: "ip \<Rightarrow> string" where
  "IP_String ip =
     (if ip = [] then ''<nil>''
      else case To4 ip of
        Some ip4 \<Rightarrow> dotted ip4
      | None \<Rightarrow>
         (if length ip \<noteq> 16 then ''?'' @ concat (map (\<lambda>b. (if unat b < 16 then ''0'' else '''') @ lower_hex (unat b)) ip)
          else let ws = ip_words ip; show = (\<lambda>xs. join '':'' (map lower_hex xs)) in
            case best_run ws of
              None \<Rightarrow> show ws
            | Some (i, n) \<Rightarrow> show (take i ws) @ ''::'' @ show (drop (i + n) ws)))"

section \<open>IPv4 texts round trip\<close>

lemma dec_digits: "list_all is_digit (dec n)"
proof (induction n rule: dec.induct)
  case (1 n)
  have d: "is_digit (char_of (48 + m))" if "m < 10" for m :: nat
    using that by (simp add: is_digit_def)
  show ?case
    by (cases "n < 10"; subst dec.simps) (use 1 d in auto)
qed

lemma dec_val_dec: "dec_val (dec n) = n"
proof (induction n rule: dec.induct)
  case (1 n)
  then show ?case
    by (cases "n < 10"; subst dec.simps) (auto simp: dec_val_def)
qed

lemma dec_nonempty: "dec n \<noteq> []"
  by (subst dec.simps) auto

lemma dec_no_leading_zero: "0 < n \<Longrightarrow> dec n ! 0 \<noteq> CHR ''0''"
proof (induction n rule: dec.induct)
  case (1 n)
  show ?case
  proof (cases "n < 10")
    case True
    have "n = 1 \<or> n = 2 \<or> n = 3 \<or> n = 4 \<or> n = 5 \<or> n = 6 \<or> n = 7 \<or> n = 8 \<or> n = 9"
      using True "1.prems" by linarith
    with True show ?thesis by (subst dec.simps) (auto simp: char_of_def)
  next
    case False
    with 1 have "dec (n div 10) ! 0 \<noteq> CHR ''0''" by simp
    with False show ?thesis using dec_nonempty [of "n div 10"]
      by (subst dec.simps) (simp add: nth_append)
  qed
qed

lemma length_dec: "n < 1000 \<Longrightarrow> length (dec n) \<le> 3"
  by (subst dec.simps, subst dec.simps, subst dec.simps) auto

lemma parse_octet_dec: "n \<le> 255 \<Longrightarrow> parse_octet (dec n) = Some (of_nat n)"
proof (cases "n = 0")
  case True
  then show ?thesis by (simp add: parse_octet_def dec.simps is_digit_def dec_val_def)
next
  case False
  assume "n \<le> 255"
  with False show ?thesis
    using length_dec [of n] dec_no_leading_zero [of n]
    by (simp add: parse_octet_def dec_digits dec_val_dec dec_nonempty)
qed

lemma dec_chars: "c \<in> set (dec n) \<Longrightarrow> is_digit c"
  using dec_digits by (simp add: list_all_iff)

lemma not_digit [simp]: "\<not> is_digit (CHR ''.'')" "\<not> is_digit (CHR '':'')" "\<not> is_digit (CHR ''%'')"
    "\<not> is_digit (CHR ''['')" "\<not> is_digit (CHR '']'')"
  by (simp_all add: is_digit_def)

lemma parseIPv4_dotted: "length ip4 = 4 \<Longrightarrow> parseIPv4 (dotted ip4) = Some ip4"
proof -
  assume "length ip4 = 4"
  then obtain a b c d where ip: "ip4 = [a, b, c, d]"
    by (auto simp: numeral_eq_Suc length_Suc_conv)
  have "split_on (CHR ''.'') (dotted ip4) = map (\<lambda>b. dec (unat b)) ip4"
    unfolding dotted_def using dec_chars [of "CHR ''.''"] by (intro split_on_join) (auto simp: ip)
  moreover have "unat x \<le> 255" for x :: byte
    using unsigned_less [of x, where ?'a = nat] by simp
  ultimately show ?thesis
    by (simp add: parseIPv4_def ip parse_octet_dec)
qed

lemma dotted_chars: "c \<in> set (dotted ip4) \<Longrightarrow> is_digit c \<or> c = CHR ''.''"
proof -
  have "c \<in> set (join ''.'' xs) \<Longrightarrow> (\<exists>x \<in> set xs. c \<in> set x) \<or> c = CHR ''.''" for xs
    by (induction "''.''" xs rule: join.induct) auto
  then show "c \<in> set (dotted ip4) \<Longrightarrow> is_digit c \<or> c = CHR ''.''"
    using dec_chars by (fastforce simp: dotted_def)
qed

text \<open>The text of an IPv4 address is parsed as that address.\<close>

lemma ParseIP_dotted:
  assumes "length ip4 = 4"
  shows "ParseIP (dotted ip4) = Some (v4InV6 ip4)"
proof -
  have "CHR ''.'' \<in> set (dotted ip4)" using assms
    by (auto simp: dotted_def numeral_eq_Suc length_Suc_conv)
  then have "filter (\<lambda>c. c \<in> {CHR ''.'', CHR '':'', CHR ''%''}) (dotted ip4) \<noteq> []"
    by (auto simp: filter_empty_conv)
  moreover have "c = CHR ''.''" if "c \<in> set (filter (\<lambda>c. c \<in> {CHR ''.'', CHR '':'', CHR ''%''}) (dotted ip4))" for c
    using that dotted_chars [of c ip4] by auto
  ultimately obtain xs where
    f: "filter (\<lambda>c. c \<in> {CHR ''.'', CHR '':'', CHR ''%''}) (dotted ip4) = CHR ''.'' # xs"
    by (metis list.exhaust list.set_intros(1))
  have "CHR ''%'' \<notin> set (dotted ip4)" using dotted_chars [of "CHR ''%''" ip4] by auto
  then show ?thesis using parseIPv4_dotted [OF assms] unfolding ParseIP_def f by simp
qed

end
