(* ===== verification/Rotation.thy ===== *)
theory Rotation
  imports Prelude
begin

text \<open>
  Round robin over a 64-bit counter: the connection groups, the connections of a group and the
  resolved addresses are all picked by a counter that is incremented atomically and taken modulo
  the number of items. The locale states that contract and proves its fairness once.
\<close>

text \<open>The picks of \<open>k\<close> calls in a row.\<close>

fun picks :: "('s \<Rightarrow> 'a \<times> 's) \<Rightarrow> nat \<Rightarrow> 's \<Rightarrow> 'a list" where
  "picks pick 0 s = []"
| "picks pick (Suc k) s = (case pick s of (x, s') \<Rightarrow> x # picks pick k s')"

text \<open>In any \<open>n\<close> consecutive numbers every remainder modulo \<open>n\<close> occurs once.\<close>

lemma filter_window:
  "i < n \<Longrightarrow> length (filter (\<lambda>j. (b + j) mod n = i) [0..<n]) = (1::nat)"
proof (induction b)
  case 0
  have "filter (\<lambda>j. (0 + j) mod n = i) [0..<n] = filter (\<lambda>j. j = i) [0..<n]"
    by (rule filter_cong) auto
  also have "length \<dots> = 1"
    using 0 by (simp add: distinct_length_filter Int_def conj_commute cong: conj_cong)
  finally show ?case .
next
  case (Suc b)
  obtain m where n: "n = Suc m" using Suc.prems by (cases n) auto
  have "[0..<n] = 0 # map Suc [0..<m]" by (simp add: n map_Suc_upt upt_conv_Cons)
  then have "length (filter (\<lambda>j. (b + j) mod n = i) [0..<n]) =
      (if b mod n = i then 1 else 0) + length (filter (\<lambda>j. (Suc b + j) mod n = i) [0..<m])"
    by (simp add: filter_map comp_def)
  moreover have "length (filter (\<lambda>j. (Suc b + j) mod n = i) [0..<n]) =
      length (filter (\<lambda>j. (Suc b + j) mod n = i) [0..<m]) + (if b mod n = i then 1 else 0)"
    by (simp add: n) (metis add_Suc_right mod_add_self2)
  ultimately show ?case using Suc by simp
qed

lemma filter_windows:
  "i < n \<Longrightarrow> length (filter (\<lambda>j. (b + j) mod n = i) [0..<c * n]) = (c::nat)"
proof (induction c)
  case (Suc c)
  have "[0..<Suc c * n] = [0..<c * n] @ map (\<lambda>j. j + c * n) [0..<n]"
    using upt_add_eq_append [of 0 "c * n" n] map_add_upt [of "c * n" n] by (simp add: add.commute)
  then have "length (filter (\<lambda>j. (b + j) mod n = i) [0..<Suc c * n]) =
      c + length (filter (\<lambda>j. (b + (j + c * n)) mod n = i) [0..<n])"
    using Suc by (simp add: filter_map comp_def)
  also have "\<dots> = c + length (filter (\<lambda>j. (b + j) mod n = i) [0..<n])"
    by (simp only: add.assoc [symmetric] mod_mult_self1)
  also have "\<dots> = Suc c" using filter_window [OF Suc.prems] by simp
  finally show ?case .
qed simp

locale rotation =
  fixes pick :: "'s \<Rightarrow> 'a \<times> 's"
    and counter :: "'s \<Rightarrow> uint64"
    and items :: "'s \<Rightarrow> 'a list"
    and offset :: uint64
  assumes picked: "items s \<noteq> [] \<Longrightarrow>
      fst (pick s) = items s ! (unat (counter s + offset) mod length (items s))"
    and counted: "items s \<noteq> [] \<Longrightarrow> counter (snd (pick s)) = counter s + 1"
    and kept: "items s \<noteq> [] \<Longrightarrow> items (snd (pick s)) = items s"
begin

lemma picks_nth:
  assumes "items s \<noteq> []" "j < k"
  shows "picks pick k s ! j =
    items s ! (unat (counter s + offset + of_nat j) mod length (items s))"
  using assms
proof (induction k arbitrary: s j)
  case (Suc k)
  obtain x s' where p: "pick s = (x, s')" by fastforce
  have s': "items s' = items s" "counter s' = counter s + 1"
    using kept [OF Suc.prems(1)] counted [OF Suc.prems(1)] p by simp_all
  show ?case
  proof (cases j)
    case 0
    with picked [OF Suc.prems(1)] p show ?thesis by simp
  next
    case (Suc i)
    with Suc.IH [of s' i] Suc.prems s' p show ?thesis by (simp add: ac_simps)
  qed
qed simp

lemma length_picks [simp]: "length (picks pick k s) = k"
  by (induction k arbitrary: s) (auto split: prod.split)

lemma pick_in_items: "items s \<noteq> [] \<Longrightarrow> fst (pick s) \<in> set (items s)"
  by (simp add: picked)

text \<open>
  Fairness: while the counter does not wrap, \<open>c\<close> rounds of calls pick every item of a
  duplicate-free list exactly \<open>c\<close> times, whatever the counter was.
\<close>

lemma fair:
  assumes "items s \<noteq> []" "distinct (items s)" "x \<in> set (items s)"
    and "unat (counter s + offset) + c * length (items s) \<le> 2 ^ 64"
  shows "count_list (picks pick (c * length (items s)) s) x = c"
proof -
  let ?n = "length (items s)" and ?b = "unat (counter s + offset)"
  obtain i where i: "i < ?n" "x = items s ! i" using assms(3) by (metis in_set_conv_nth)
  have nth: "picks pick (c * ?n) s ! j = items s ! ((?b + j) mod ?n)" if "j < c * ?n" for j
  proof -
    have "unat (counter s + offset + of_nat j) = ?b + j"
      using that assms(4) by (simp add: unat_word_ariths unat_of_nat)
    with picks_nth [OF assms(1) that] show ?thesis by simp
  qed
  have "picks pick (c * ?n) s = map (\<lambda>j. items s ! ((?b + j) mod ?n)) [0..<c * ?n]"
    by (rule nth_equalityI) (simp_all add: nth)
  then have "count_list (picks pick (c * ?n) s) x =
      length (filter (\<lambda>j. x = items s ! ((?b + j) mod ?n)) [0..<c * ?n])"
    by (simp add: count_list_eq_length_filter filter_map comp_def)
  also have "\<dots> = length (filter (\<lambda>j. (?b + j) mod ?n = i) [0..<c * ?n])"
  proof -
    have "0 < ?n" using i(1) by linarith
    then have "x = items s ! ((?b + j) mod ?n) \<longleftrightarrow> (?b + j) mod ?n = i" for j
      using i assms(2) nth_eq_iff_index_eq [of "items s" i "(?b + j) mod ?n"] by auto
    then show ?thesis by simp
  qed
  also have "\<dots> = c" by (rule filter_windows [OF i(1)])
  finally show ?thesis .
qed

end

end
