(* ===== verification/DnsDialer.thy ===== *)
theory DnsDialer
  imports RpcClient NetIP Rotation "HOL-Library.Multiset" "HOL-Library.List_Lexorder" "HOL-Library.Char_ord"
begin

text \<open>
  \<^verbatim>\<open>pkg/client/dnsDialer.go\<close>: the dialer of one address resolves the host to IPv4
  addresses, hands them out round robin, tracks every connection it dialed and, when the
  addresses change, closes idle connections so that the rest spread over the current ones.

  The resolver is an interface: \<open>lookup\<close> is its answer. \<^verbatim>\<open>fasthttp.DialTimeout\<close> is a
  library: a dial succeeds or fails as a step decides. The handlers below are the sections the
  code runs under the dialer's mutex; the step relation \<open>dialer_step\<close> interleaves them.
\<close>

section \<open>State\<close>

text \<open>\<open>d_conns\<close> is the map from tracked connections to addresses, a list with distinct keys.\<close>

record dns_dialer =
  d_addr :: string
  d_host :: string
  d_port :: string
  d_refreshInterval :: int
  d_dialTimeout :: int
  d_next :: uint64
  d_addrs :: "string list"
  d_conns :: "(conn_id \<times> string) list"

definition defaultDNSRefreshInterval :: int where
  "defaultDNSRefreshInterval = 60 * 10 ^ 9"

section \<open>Resolving\<close>

definition resolve_answer :: "string \<Rightarrow> ip list \<Rightarrow> string list" where
  "resolve_answer port ips =
     sort (remdups (map (\<lambda>ip. JoinHostPort (IP_String ip) port) (filter (\<lambda>ip. To4 ip \<noteq> None) ips)))"

definition resolve :: "(string \<Rightarrow> ip list result) \<Rightarrow> dns_dialer \<Rightarrow> string list" where
  "resolve lookup d =
     (if d_host d = '''' \<or> d_port d = '''' then []
      else case ParseIP (d_host d) of
        Some ip \<Rightarrow> [JoinHostPort (IP_String ip) (d_port d)]
      | None \<Rightarrow>
         (case lookup (d_host d) of
            Inl _ \<Rightarrow> []
          | Inr ips \<Rightarrow> resolve_answer (d_port d) ips))"

text \<open>\<open>init\<close>; the result says whether the refresh loop is started.\<close>

definition dialer_init :: "(string \<Rightarrow> ip list result) \<Rightarrow> dns_dialer \<Rightarrow> dns_dialer \<times> bool" where
  "dialer_init lookup d =
     (case SplitHostPort (d_addr d) of
        Inl _ \<Rightarrow> (d\<lparr>d_addrs := [d_addr d]\<rparr>, False)
      | Inr (host, port) \<Rightarrow>
         (let d1 = d\<lparr>d_host := host, d_port := port\<rparr>;
              addrs = resolve lookup d1;
              addrs' = (if addrs = [] then [d_addr d] else addrs)
          in (d1\<lparr>d_addrs := addrs'\<rparr>, 0 < d_refreshInterval d \<and> ParseIP host = None)))"

definition newDNSDialer :: "(string \<Rightarrow> ip list result) \<Rightarrow> string \<Rightarrow> int \<Rightarrow> int \<Rightarrow> dns_dialer \<times> bool" where
  "newDNSDialer lookup addr dialTimeout refreshInterval =
     dialer_init lookup
       \<lparr>d_addr = addr, d_host = '''', d_port = '''', d_refreshInterval = refreshInterval,
        d_dialTimeout = dialTimeout, d_next = 0, d_addrs = [], d_conns = []\<rparr>"

text \<open>The same with a resolver of the caller's, for tests.\<close>

definition newDNSDialerWithResolver :: "string \<Rightarrow> int \<Rightarrow> int \<Rightarrow> (string \<Rightarrow> ip list result) \<Rightarrow> dns_dialer \<times> bool" where
  "newDNSDialerWithResolver addr dialTimeout refreshInterval resolver =
     dialer_init resolver
       \<lparr>d_addr = addr, d_host = '''', d_port = '''', d_refreshInterval = refreshInterval,
        d_dialTimeout = dialTimeout, d_next = 0, d_addrs = [], d_conns = []\<rparr>"

section \<open>Picking an address\<close>

definition nextAddr :: "dns_dialer \<Rightarrow> string \<times> dns_dialer" where
  "nextAddr d =
     (let addrs = d_addrs d in
      if addrs = [] then (d_addr d, d)
      else let idx = d_next d in
        (addrs ! (unat idx mod length addrs), d\<lparr>d_next := idx + 1\<rparr>))"

section \<open>Rebalancing\<close>

definition conn_counts :: "string list \<Rightarrow> (conn_id \<times> string) list \<Rightarrow> string \<Rightarrow> nat" where
  "conn_counts addrs conns a = (if a \<in> set addrs then length (filter (\<lambda>c. snd c = a) conns) else 0)"

definition rebalance_target :: "string list \<Rightarrow> (conn_id \<times> string) list \<Rightarrow> nat" where
  "rebalance_target addrs conns =
     (let totalAllowed = length (filter (\<lambda>c. snd c \<in> set addrs) conns) in
      if 0 < length addrs then max 1 (totalAllowed div length addrs) else 1)"

text \<open>
  The loop over the connections, in the order \<open>cs\<close> the map's iteration happens to take; the
  counts go down with every connection closed.
\<close>

fun rebalance_loop :: "string list \<Rightarrow> nat \<Rightarrow> (conn_id \<Rightarrow> bool) \<Rightarrow> (string \<Rightarrow> nat) \<Rightarrow>
    (conn_id \<times> string) list \<Rightarrow> conn_id list" where
  "rebalance_loop addrs target isIdle counts [] = []"
| "rebalance_loop addrs target isIdle counts ((conn, a) # cs) =
     (let isAllowed = (a \<in> set addrs) in
      if (\<not> isAllowed \<or> target < counts a) \<and> isIdle conn
      then conn # rebalance_loop addrs target isIdle (if isAllowed then counts(a := counts a - 1) else counts) cs
      else rebalance_loop addrs target isIdle counts cs)"

definition rebalanceLocked :: "(conn_id \<Rightarrow> bool) \<Rightarrow> (conn_id \<times> string) list \<Rightarrow> dns_dialer \<Rightarrow> conn_id list" where
  "rebalanceLocked isIdle order d =
     (if d_addrs d = [] \<or> d_conns d = [] then []
      else rebalance_loop (d_addrs d) (rebalance_target (d_addrs d) (d_conns d)) isIdle
             (conn_counts (d_addrs d) (d_conns d)) order)"

text \<open>\<open>refreshOnce\<close>: the new state of the dialer and the connections to close.\<close>

definition refreshOnce :: "(string \<Rightarrow> ip list result) \<Rightarrow> (conn_id \<Rightarrow> bool) \<Rightarrow> (conn_id \<times> string) list \<Rightarrow>
    dns_dialer \<Rightarrow> dns_dialer \<times> conn_id list" where
  "refreshOnce lookup isIdle order d =
     (let addrs = resolve lookup d in
      if addrs = [] then (d, [])
      else let d' = d\<lparr>d_addrs := addrs\<rparr> in (d', rebalanceLocked isIdle order d'))"

definition dialer_remove :: "conn_id \<Rightarrow> dns_dialer \<Rightarrow> dns_dialer" where
  "dialer_remove conn d = d\<lparr>d_conns := filter (\<lambda>c. fst c \<noteq> conn) (d_conns d)\<rparr>"

section \<open>Tracked connections\<close>

text \<open>
  A tracked connection: the address it was dialed at, the client that owns it, whether its
  \<^verbatim>\<open>sync.Once\<close> has run, and how often the connection below has been closed.
\<close>

type_synonym slot = "nat \<times> nat"

record tracked_conn =
  tc_addr :: string
  tc_owner :: "slot option"
  tc_once :: bool
  tc_closes :: nat

definition tracked_isIdle :: "(slot \<Rightarrow> nat) \<Rightarrow> tracked_conn \<Rightarrow> bool" where
  "tracked_isIdle pendingRequests c =
     (case tc_owner c of None \<Rightarrow> True | Some o' \<Rightarrow> pendingRequests o' = 0)"

text \<open>
  A dialer at work: its connections (the identifier of one is its place in the list), the dials
  in flight with the address they were given, and the connections a refresh has still to close.
\<close>

record dialer_world =
  dw_dialer :: dns_dialer
  dw_conns :: "tracked_conn list"
  dw_dialing :: "(slot option \<times> string) list"
  dw_closing :: "conn_id list"

definition dial_register :: "slot option \<Rightarrow> string \<Rightarrow> dialer_world \<Rightarrow> dialer_world" where
  "dial_register owner a w =
     (let conn = length (dw_conns w); d = dw_dialer w in
      w\<lparr>dw_conns := dw_conns w @ [\<lparr>tc_addr = a, tc_owner = owner, tc_once = False, tc_closes = 0\<rparr>],
        dw_dialer := d\<lparr>d_conns := (conn, a) # d_conns d\<rparr>\<rparr>)"

definition tracked_Close :: "conn_id \<Rightarrow> dialer_world \<Rightarrow> dialer_world" where
  "tracked_Close conn w =
     (let c = dw_conns w ! conn in
      if tc_once c then w
      else w\<lparr>dw_dialer := dialer_remove conn (dw_dialer w),
             dw_conns := (dw_conns w)[conn := c\<lparr>tc_once := True, tc_closes := Suc (tc_closes c)\<rparr>]\<rparr>)"

text \<open>
  The steps: a client asks for a connection (its address is picked), the dial fails or is
  registered, a refresh runs its locked section, a connection it chose is closed, and anyone
  closes a connection (fastrpc after an error, or \<open>reconnect\<close>).
\<close>

inductive dialer_step :: "dialer_world \<Rightarrow> dialer_world \<Rightarrow> bool" where
  start_dial: "nextAddr (dw_dialer w) = (a, d) \<Longrightarrow>
     dialer_step w (w\<lparr>dw_dialer := d, dw_dialing := (owner, a) # dw_dialing w\<rparr>)"
| dial_fails: "dw_dialing w = xs @ (owner, a) # ys \<Longrightarrow> dialer_step w (w\<lparr>dw_dialing := xs @ ys\<rparr>)"
| dial_done: "dw_dialing w = xs @ (owner, a) # ys \<Longrightarrow>
     dialer_step w ((dial_register owner a w)\<lparr>dw_dialing := xs @ ys\<rparr>)"
| refresh: "mset order = mset (d_conns (dw_dialer w)) \<Longrightarrow>
     refreshOnce lookup (\<lambda>c. tracked_isIdle pending (dw_conns w ! c)) order (dw_dialer w) = (d, toClose) \<Longrightarrow>
     dialer_step w (w\<lparr>dw_dialer := d, dw_closing := dw_closing w @ toClose\<rparr>)"
| close_chosen: "dw_closing w = conn # conns \<Longrightarrow>
     dialer_step w ((tracked_Close conn w)\<lparr>dw_closing := conns\<rparr>)"
| close_any: "conn < length (dw_conns w) \<Longrightarrow> dialer_step w (tracked_Close conn w)"

definition dialer_start :: "(string \<Rightarrow> ip list result) \<Rightarrow> string \<Rightarrow> int \<Rightarrow> int \<Rightarrow> dialer_world" where
  "dialer_start lookup addr dialTimeout refreshInterval =
     \<lparr>dw_dialer = fst (newDNSDialer lookup addr dialTimeout refreshInterval),
      dw_conns = [], dw_dialing = [], dw_closing = []\<rparr>"

inductive dialer_reachable :: "dialer_world \<Rightarrow> bool" where
  start: "dialer_reachable (dialer_start lookup addr dialTimeout refreshInterval)"
| step: "dialer_reachable w \<Longrightarrow> dialer_step w w' \<Longrightarrow> dialer_reachable w'"

section \<open>Lemmas: addresses\<close>

interpretation next_addr: rotation nextAddr d_next d_addrs 0
  by unfold_locales (auto simp: nextAddr_def Let_def)

lemma last_index_of_join:
  "c \<notin> set port \<Longrightarrow> last_index_of c (host @ c # port) = Some (length host)"
proof -
  assume "c \<notin> set port"
  then have "takeWhile (\<lambda>x. x \<noteq> c) (rev (host @ c # port)) = rev port"
    by (subst rev_append, subst rev.simps(2), subst append_assoc, subst takeWhile_append2) auto
  then show ?thesis by (simp add: last_index_of_def)
qed

text \<open>A joined host and port split again when neither holds a character of the syntax.\<close>

lemma Split_Join:
  assumes "set host \<inter> {CHR '':'', CHR ''['', CHR '']''} = {}" "host \<noteq> []"
    and "set port \<inter> {CHR '':'', CHR ''['', CHR '']''} = {}"
  shows "SplitHostPort (JoinHostPort host port) = Inr (host, port)"
proof -
  have j: "JoinHostPort host port = host @ CHR '':'' # port"
    using assms(1) by (auto simp: JoinHostPort_def)
  have l: "last_index_of (CHR '':'') (host @ CHR '':'' # port) = Some (length host)"
    using assms(3) by (intro last_index_of_join) auto
  have "(host @ CHR '':'' # port) ! 0 \<noteq> CHR ''[''"
    using assms(1,2) by (cases host) auto
  then show ?thesis
    using assms(1,3) by (auto simp: j SplitHostPort_def l Let_def disjoint_iff)
qed

lemma last_index_ofD:
  assumes "last_index_of c s = Some i"
  shows "i < length s" "s ! i = c" "c \<notin> set (drop (Suc i) s)"
proof -
  let ?t = "takeWhile (\<lambda>x. x \<noteq> c) (rev s)"
  have c: "c \<in> set s" and i: "i = length s - 1 - length ?t"
    using assms by (auto simp: last_index_of_def split: if_splits)
  have lt: "length ?t < length (rev s)"
    using c by (metis (mono_tags, lifting) length_takeWhile_le le_neq_implies_less set_rev
        takeWhile_eq_all_conv takeWhile_eq_take take_all_iff order_refl)
  with i show "i < length s" by simp
  have "\<not> rev s ! length ?t \<noteq> c" using nth_length_takeWhile [OF lt] by simp
  with lt i show "s ! i = c" by (simp add: rev_nth)
  have "drop (Suc i) s = rev (take (length ?t) (rev s))"
    using lt i by (simp add: take_rev Suc_diff_Suc)
  also have "\<dots> = rev ?t" by (metis takeWhile_eq_take)
  finally show "c \<notin> set (drop (Suc i) s)" by (auto dest: set_takeWhileD)
qed

text \<open>The port of a split address holds none of the characters of the syntax.\<close>

lemma split_port_plain:
  assumes "SplitHostPort hp = Inr (host, port)"
  shows "set port \<inter> {CHR '':'', CHR ''['', CHR '']''} = {}"
proof -
  obtain i where i: "last_index_of (CHR '':'') hp = Some i"
    using assms by (auto simp: SplitHostPort_def split: option.splits)
  note d = last_index_ofD [OF i]
  have br: "port = drop (Suc i) hp \<and> (\<exists>j k. CHR ''['' \<notin> set (drop j hp) \<and> j \<le> 1 \<and>
      CHR '']'' \<notin> set (drop k hp) \<and> k \<le> i)"
    using assms i
    by (auto simp: SplitHostPort_def Let_def split: if_splits option.splits)
      (use le0 drop0 in metis)+
  then obtain j k where jk: "CHR ''['' \<notin> set (drop j hp)" "j \<le> 1" "CHR '']'' \<notin> set (drop k hp)" "k \<le> i"
    by blast
  have "set (drop (Suc i) hp) \<subseteq> set (drop j hp)" "set (drop (Suc i) hp) \<subseteq> set (drop k hp)"
    using jk by (auto intro!: set_drop_subset_set_drop)
  with jk d(3) br show ?thesis by auto
qed

lemma To4_length: "To4 ip = Some ip4 \<Longrightarrow> length ip4 = 4"
  by (auto simp: To4_def split: if_splits)

lemma IP_String_4: "To4 ip = Some ip4 \<Longrightarrow> IP_String ip = dotted ip4"
  by (auto simp: IP_String_def To4_def)

lemma dotted_plain: "set (dotted ip4) \<inter> {CHR '':'', CHR ''['', CHR '']''} = {}"
proof -
  have "CHR '':'' \<notin> set (dotted ip4)" "CHR ''['' \<notin> set (dotted ip4)" "CHR '']'' \<notin> set (dotted ip4)"
    using dotted_chars [of "CHR '':''" ip4] dotted_chars [of "CHR ''[''" ip4]
      dotted_chars [of "CHR '']''" ip4] by auto
  then show ?thesis by simp
qed

lemma dotted_nonempty: "length ip4 = 4 \<Longrightarrow> dotted ip4 \<noteq> []"
  by (auto simp: dotted_def numeral_eq_Suc length_Suc_conv)

lemma resolve_answer_set:
  "set (resolve_answer port ips) = {JoinHostPort (dotted ip4) port | ip ip4. ip \<in> set ips \<and> To4 ip = Some ip4}"
  by (force simp: resolve_answer_def IP_String_4 image_iff)

lemma resolve_answer_sorted: "sorted (resolve_answer port ips) \<and> distinct (resolve_answer port ips)"
  by (simp add: resolve_answer_def)

section \<open>Lemmas: rebalancing\<close>

lemma rebalance_loop_subset:
  "set (rebalance_loop addrs target isIdle counts cs) \<subseteq> {c \<in> fst ` set cs. isIdle c}"
proof (induction cs arbitrary: counts)
  case (Cons c cs)
  obtain conn a where c: "c = (conn, a)" by fastforce
  have "set (rebalance_loop addrs target isIdle counts' cs) \<subseteq> {x \<in> fst ` set (c # cs). isIdle x}" for counts'
    using Cons.IH [of counts'] by auto
  then show ?case by (simp add: c Let_def)
qed simp

lemma rebalance_loop_distinct:
  "distinct (map fst cs) \<Longrightarrow> distinct (rebalance_loop addrs target isIdle counts cs)"
proof (induction cs arbitrary: counts)
  case (Cons c cs)
  obtain conn a where c: "c = (conn, a)" by fastforce
  have "conn \<notin> fst ` set cs" using Cons.prems c by simp
  then have "conn \<notin> set (rebalance_loop addrs target isIdle counts' cs)" for counts'
    using rebalance_loop_subset [of addrs target isIdle counts' cs] by auto
  then show ?case using Cons by (simp add: c Let_def)
qed simp

text \<open>The connections of an address that satisfy a condition.\<close>

definition conns_at :: "(conn_id \<times> string) list \<Rightarrow> string \<Rightarrow> (conn_id \<Rightarrow> bool) \<Rightarrow> nat" where
  "conns_at cs a P = length (filter (\<lambda>c. snd c = a \<and> P (fst c)) cs)"

lemma conns_at_simps [simp]:
  "conns_at [] a P = 0"
  "conns_at ((conn, b) # cs) a P = (if b = a \<and> P conn then 1 else 0) + conns_at cs a P"
  by (simp_all add: conns_at_def)

lemma conns_at_cong: "(\<And>c. c \<in> fst ` set cs \<Longrightarrow> P c = Q c) \<Longrightarrow> conns_at cs a P = conns_at cs a Q"
  unfolding conns_at_def by (intro arg_cong [of _ _ length] filter_cong) auto

lemma conns_at_mset: "mset cs = mset ds \<Longrightarrow> conns_at cs a P = conns_at ds a P"
  unfolding conns_at_def size_mset [symmetric] mset_filter by simp

lemma conns_at_mono: "(\<And>c. P c \<Longrightarrow> Q c) \<Longrightarrow> conns_at cs a P \<le> conns_at cs a Q"
  by (induction cs) auto

lemma rebalance_loop_closed:
  assumes "distinct (map fst cs)"
  shows "conns_at cs a (\<lambda>c. c \<in> set (rebalance_loop addrs target isIdle counts cs)) =
    (if a \<in> set addrs then min (conns_at cs a isIdle) (counts a - target) else conns_at cs a isIdle)"
  using assms
proof (induction cs arbitrary: counts)
  case (Cons c cs)
  obtain conn b where c: "c = (conn, b)" by fastforce
  let ?L = "\<lambda>counts. rebalance_loop addrs target isIdle counts cs"
  have fresh: "conn \<notin> fst ` set cs" using Cons.prems c by simp
  then have notin: "conn \<notin> set (?L counts')" for counts'
    using rebalance_loop_subset [of addrs target isIdle counts' cs] by auto
  have tl: "conns_at cs a (\<lambda>x. x = conn \<or> x \<in> set (?L counts')) = conns_at cs a (\<lambda>x. x \<in> set (?L counts'))" for counts'
    using fresh by (intro conns_at_cong) auto
  have dist: "distinct (map fst cs)" using Cons.prems by simp
  define c1 where "c1 = counts(b := counts b - 1)"
  have step: "rebalance_loop addrs target isIdle counts (c # cs) =
      (if (b \<in> set addrs \<longrightarrow> target < counts b) \<and> isIdle conn
       then conn # ?L (if b \<in> set addrs then c1 else counts) else ?L counts)"
    by (simp add: c c1_def Let_def)
  have c1: "c1 a = (if a = b then counts a - 1 else counts a)" by (simp add: c1_def)
  show ?case
    using Cons.IH [OF dist, of counts] Cons.IH [OF dist, of c1] notin [of counts] c1
    unfolding step by (auto simp: c tl)
qed simp


section \<open>Lemmas: the dialer at work\<close>

text \<open>
  The bookkeeping invariant: the tracked connections are exactly the open ones, with the address
  they were dialed at; a closed one was closed once; there is always an address to dial; and a
  refresh only ever schedules connections that exist.
\<close>

definition dialer_inv :: "dialer_world \<Rightarrow> bool" where
  "dialer_inv w \<longleftrightarrow>
     distinct (map fst (d_conns (dw_dialer w))) \<and>
     set (d_conns (dw_dialer w)) =
       {(i, tc_addr (dw_conns w ! i)) | i. i < length (dw_conns w) \<and> \<not> tc_once (dw_conns w ! i)} \<and>
     (\<forall>i < length (dw_conns w). tc_closes (dw_conns w ! i) = (if tc_once (dw_conns w ! i) then 1 else 0)) \<and>
     d_addrs (dw_dialer w) \<noteq> [] \<and>
     set (dw_closing w) \<subseteq> {..<length (dw_conns w)}"

lemma dialer_init_addrs: "d_addrs (fst (dialer_init lookup d)) \<noteq> []"
  by (auto simp: dialer_init_def Let_def split: sum.splits)

lemma dialer_init_conns: "d_conns (fst (dialer_init lookup d)) = d_conns d"
  by (auto simp: dialer_init_def Let_def split: sum.splits)

lemma nextAddr_frame:
  "nextAddr d = (a, d') \<Longrightarrow> d_conns d' = d_conns d \<and> d_addrs d' = d_addrs d \<and> d_addr d' = d_addr d \<and>
     d_host d' = d_host d \<and> d_port d' = d_port d"
  by (auto simp: nextAddr_def Let_def split: if_splits)

lemma refreshOnce_frame:
  "refreshOnce lookup isIdle order d = (d', cl) \<Longrightarrow> d_conns d' = d_conns d \<and>
     (d_addrs d \<noteq> [] \<longrightarrow> d_addrs d' \<noteq> []) \<and> set cl \<subseteq> fst ` set order \<and>
     d_host d' = d_host d \<and> d_port d' = d_port d"
  using rebalance_loop_subset
  by (fastforce simp: refreshOnce_def rebalanceLocked_def Let_def split: if_splits)

lemma inv_close:
  assumes inv: "dialer_inv w" and c: "conn < length (dw_conns w)"
  shows "dialer_inv (tracked_Close conn w)"
proof (cases "tc_once (dw_conns w ! conn)")
  case True
  with inv show ?thesis by (simp add: tracked_Close_def)
next
  case False
  let ?w = "tracked_Close conn w"
  have w: "dw_dialer ?w = dialer_remove conn (dw_dialer w)" "dw_closing ?w = dw_closing w"
    "dw_conns ?w = (dw_conns w)[conn := (dw_conns w ! conn)\<lparr>tc_once := True, tc_closes := Suc (tc_closes (dw_conns w ! conn))\<rparr>]"
    using False by (simp_all add: tracked_Close_def Let_def)
  have "set (d_conns (dw_dialer ?w)) =
      {(i, tc_addr (dw_conns ?w ! i)) | i. i < length (dw_conns ?w) \<and> \<not> tc_once (dw_conns ?w ! i)}"
    using inv c unfolding w dialer_inv_def dialer_remove_def
    by (auto simp: nth_list_update)
  moreover have "tc_closes (dw_conns ?w ! i) = (if tc_once (dw_conns ?w ! i) then 1 else 0)"
    if "i < length (dw_conns ?w)" for i
    using that inv False c unfolding w dialer_inv_def by (auto simp: nth_list_update)
  moreover have "distinct (map fst (d_conns (dw_dialer ?w)))"
    using inv by (simp add: w dialer_inv_def dialer_remove_def distinct_map_filter)
  ultimately show ?thesis
    using inv by (simp add: dialer_inv_def w dialer_remove_def)
qed

lemma inv_register:
  assumes inv: "dialer_inv w"
  shows "dialer_inv (dial_register owner a w)"
proof -
  let ?w = "dial_register owner a w" and ?n = "length (dw_conns w)"
  have w: "d_conns (dw_dialer ?w) = (?n, a) # d_conns (dw_dialer w)" "dw_closing ?w = dw_closing w"
    "dw_conns ?w = dw_conns w @ [\<lparr>tc_addr = a, tc_owner = owner, tc_once = False, tc_closes = 0\<rparr>]"
    "d_addrs (dw_dialer ?w) = d_addrs (dw_dialer w)"
    by (simp_all add: dial_register_def Let_def)
  have new: "?n \<notin> fst ` set (d_conns (dw_dialer w))"
    using inv by (auto simp: dialer_inv_def)
  have "set (d_conns (dw_dialer ?w)) =
      {(i, tc_addr (dw_conns ?w ! i)) | i. i < length (dw_conns ?w) \<and> \<not> tc_once (dw_conns ?w ! i)}"
    using inv unfolding w dialer_inv_def by (auto simp: nth_append less_Suc_eq)
  moreover have "set (dw_closing w) \<subseteq> {..<Suc ?n}"
    using inv by (auto simp: dialer_inv_def less_Suc_eq)
  ultimately show ?thesis
    using inv new by (auto simp: dialer_inv_def w nth_append less_Suc_eq)
qed

lemma inv_step: "dialer_step w w' \<Longrightarrow> dialer_inv w \<Longrightarrow> dialer_inv w'"
proof (induction rule: dialer_step.induct)
  case (start_dial w a d owner)
  with nextAddr_frame [OF start_dial(1)] show ?case by (simp add: dialer_inv_def)
next
  case (dial_done w xs owner a ys)
  with inv_register [of w owner a] show ?case by (simp add: dialer_inv_def)
next
  case (refresh order w lookup pending d toClose)
  have "set order = set (d_conns (dw_dialer w))" using refresh(1) by (metis set_mset_mset)
  then have "set toClose \<subseteq> {..<length (dw_conns w)}"
    using refreshOnce_frame [OF refresh(2)] refresh(3) by (auto simp: dialer_inv_def)
  then show ?case
    using refreshOnce_frame [OF refresh(2)] refresh(3) by (simp add: dialer_inv_def)
next
  case (close_chosen w conn conns)
  then have "dialer_inv (tracked_Close conn w)" by (intro inv_close) (auto simp: dialer_inv_def)
  moreover have "dw_closing (tracked_Close conn w) = conn # conns"
    using close_chosen by (simp add: tracked_Close_def Let_def)
  ultimately show ?case by (simp add: dialer_inv_def)
qed (simp_all add: dialer_inv_def inv_close [unfolded dialer_inv_def])

lemma inv_reachable: "dialer_reachable w \<Longrightarrow> dialer_inv w"
proof (induction rule: dialer_reachable.induct)
  case (start lookup addr t r)
  then show ?case
    by (simp add: dialer_inv_def dialer_start_def newDNSDialer_def dialer_init_addrs dialer_init_conns)
qed (rule inv_step)


section \<open>Properties\<close>

text \<open>
  C10. Connections are neither leaked nor closed twice: however dials, refreshes and closes of
  one dialer interleave (two goroutines closing the same connection included), the connections
  it tracks are exactly those not closed yet, each at the address it was dialed at, every
  connection below is closed at most once, and there is always an address to dial.
\<close>

theorem dialer_tracks_open_connections:
  assumes "dialer_reachable w" "i < length (dw_conns w)"
  shows "((i, a) \<in> set (d_conns (dw_dialer w)) \<longleftrightarrow>
      \<not> tc_once (dw_conns w ! i) \<and> a = tc_addr (dw_conns w ! i)) \<and>
    tc_closes (dw_conns w ! i) \<le> 1 \<and> d_addrs (dw_dialer w) \<noteq> []"
  using inv_reachable [OF assms(1)] assms(2) by (auto simp: dialer_inv_def)

text \<open>
  C21. What a refresh closes, exactly, whatever order the map is iterated in: only idle
  connections, each once; every idle connection to an address that is gone; and of an address
  that stays, as many idle ones as it has beyond the target (the average over the addresses,
  at least 1) and no more, so an address never falls below the target through a refresh and
  keeps a connection it has. A refresh that resolves nothing changes nothing.
\<close>

theorem refresh_closes_exactly_the_surplus:
  assumes "distinct (map fst (d_conns d))" "mset order = mset (d_conns d)"
    and "refreshOnce lookup isIdle order d = (d', toClose)"
    and "conns = d_conns d" "addrs = resolve lookup d"
    and "target = max 1 (length (filter (\<lambda>c. snd c \<in> set addrs) conns) div length addrs)"
  shows "if addrs = [] then d' = d \<and> toClose = [] else
    d_addrs d' = addrs \<and> d_conns d' = conns \<and> distinct toClose \<and>
    (\<forall>c \<in> set toClose. isIdle c \<and> c \<in> fst ` set conns) \<and>
    (\<forall>a. conns_at conns a (\<lambda>c. c \<in> set toClose) =
       (if a \<in> set addrs then min (conns_at conns a isIdle) (conns_at conns a (\<lambda>_. True) - target)
        else conns_at conns a isIdle))"
proof (cases "addrs = []")
  case True
  with assms(3,5) show ?thesis by (simp add: refreshOnce_def)
next
  case False
  let ?loop = "rebalance_loop addrs target isIdle (conn_counts addrs conns) order"
  have keys: "set order = set conns" "distinct (map fst order)"
    using assms(1,2,4) by (metis set_mset_mset) (metis assms(1,2) mset_map mset_eq_imp_distinct_iff)
  have r: "d' = d\<lparr>d_addrs := addrs\<rparr>" "toClose = (if conns = [] then [] else ?loop)"
    using assms(3-6) False
    by (auto simp: refreshOnce_def Let_def rebalanceLocked_def rebalance_target_def)
  have "toClose = ?loop" using r(2) keys(1) by auto
  moreover have "distinct ?loop" by (rule rebalance_loop_distinct [OF keys(2)])
  moreover have "\<forall>c \<in> set ?loop. isIdle c \<and> c \<in> fst ` set conns"
    using rebalance_loop_subset [of addrs target isIdle "conn_counts addrs conns" order] keys(1) by auto
  moreover have "conns_at conns a (\<lambda>c. c \<in> set ?loop) =
       (if a \<in> set addrs then min (conns_at conns a isIdle) (conns_at conns a (\<lambda>_. True) - target)
        else conns_at conns a isIdle)" for a
  proof -
    have "conn_counts addrs conns a = conns_at conns a (\<lambda>_. True)" if "a \<in> set addrs"
      using that by (simp add: conn_counts_def conns_at_def)
    then show ?thesis
      using rebalance_loop_closed [OF keys(2), of a addrs target isIdle "conn_counts addrs conns"]
        conns_at_mset [OF assms(2)] by (simp add: assms(4))
  qed
  ultimately show ?thesis using r(1) False assms(4) by simp
qed

text \<open>
  C36. A host name is dialed at its IPv4 addresses: after start-up the address list is sorted and
  free of duplicates, holds one entry for each distinct IPv4 address of the resolver's answer
  and none for any other address, and each entry is a host and port that splits again into
  that address's text, which parses as it, and the configured port. With no IPv4 answer, the
  configured address itself is the list.
\<close>

theorem dialer_resolves_to_ipv4:
  assumes "SplitHostPort addr = Inr (host, port)" "host \<noteq> ''''" "port \<noteq> ''''"
    and "ParseIP host = None" "lookup host = Inr ips"
    and "as = d_addrs (fst (newDNSDialer lookup addr t r))"
  shows "if \<forall>ip \<in> set ips. To4 ip = None then as = [addr] else
    sorted as \<and> distinct as \<and>
    set as = {JoinHostPort (dotted ip4) port | ip ip4. ip \<in> set ips \<and> To4 ip = Some ip4} \<and>
    (\<forall>ip ip4. ip \<in> set ips \<and> To4 ip = Some ip4 \<longrightarrow>
       SplitHostPort (JoinHostPort (dotted ip4) port) = Inr (dotted ip4, port) \<and>
       ParseIP (dotted ip4) = Some (v4InV6 ip4))"
proof -
  have as: "as = (if resolve_answer port ips = [] then [addr] else resolve_answer port ips)"
    using assms by (simp add: newDNSDialer_def dialer_init_def Let_def resolve_def)
  have empty: "resolve_answer port ips = [] \<longleftrightarrow> (\<forall>ip \<in> set ips. To4 ip = None)"
  proof -
    have "resolve_answer port ips = [] \<longleftrightarrow> set (resolve_answer port ips) = {}" by simp
    then show ?thesis unfolding resolve_answer_set by (auto, metis not_None_eq)
  qed
  have "SplitHostPort (JoinHostPort (dotted ip4) port) = Inr (dotted ip4, port) \<and>
      ParseIP (dotted ip4) = Some (v4InV6 ip4)" if "To4 ip = Some ip4" for ip ip4
    using Split_Join [OF dotted_plain dotted_nonempty split_port_plain [OF assms(1)], of ip4]
      ParseIP_dotted [of ip4] To4_length [OF that] by simp
  then show ?thesis
    using as empty resolve_answer_set [of port ips] resolve_answer_sorted [of port ips] by auto
qed

text \<open>
  Dials are spread evenly: \<open>c\<close> rounds of picks hand out every resolved address exactly \<open>c\<close>
  times, wherever the counter stands, as long as it does not wrap.
\<close>

lemma next_addr_fair:
  assumes "a \<in> set (d_addrs d)" "distinct (d_addrs d)"
    and "unat (d_next d) + c * length (d_addrs d) \<le> 2 ^ 64"
  shows "count_list (picks nextAddr (c * length (d_addrs d)) d) a = c"
  using next_addr.fair [of d a c] assms by (cases "d_addrs d = []") auto


text \<open>Witnesses: a resolver with two IPv4 addresses, one IPv6 and a duplicate.\<close>

definition sample_lookup :: "string \<Rightarrow> ip list result" where
  "sample_lookup h = Inr [[10, 0, 0, 2], v4InV6 [10, 0, 0, 1], replicate 16 1, [10, 0, 0, 2]]"

definition sample_dialer :: dns_dialer where
  "sample_dialer = \<lparr>d_addr = ''h:1'', d_host = ''h'', d_port = ''1'', d_refreshInterval = 0, d_dialTimeout = 1,
     d_next = 3, d_addrs = [''a'', ''b''], d_conns = [(2, ''a''), (1, ''a''), (0, ''c'')]\<rparr>"

lemma sample_split: "SplitHostPort ''h:1'' = Inr (''h'', ''1'')"
  by code_simp

lemma sample_ParseIP: "ParseIP ''h'' = None"
  by code_simp

theorem dialer_tracks_open_connections_witness:
  "\<exists>w. dialer_reachable w \<and> length (dw_conns w) = 1 \<and> tc_closes (dw_conns w ! 0) \<le> 1"
proof -
  let ?w0 = "dialer_start sample_lookup ''h:1'' 1 0"
  obtain a d where n: "nextAddr (dw_dialer ?w0) = (a, d)" by fastforce
  let ?w1 = "?w0\<lparr>dw_dialer := d, dw_dialing := [(None, a)]\<rparr>"
  let ?w2 = "(dial_register None a ?w1)\<lparr>dw_dialing := []\<rparr>"
  have "dialer_step ?w0 ?w1"
    using start_dial [OF n, of None] by (simp add: dialer_start_def)
  moreover have "dialer_step ?w1 ?w2"
    using dial_done [of ?w1 "[]" None a "[]"] by simp
  moreover have len: "length (dw_conns ?w2) = 1"
    by (simp add: dial_register_def Let_def dialer_start_def)
  moreover from this have "dialer_step ?w2 (tracked_Close 0 ?w2)"
    by (intro close_any) simp
  ultimately have r: "dialer_reachable (tracked_Close 0 ?w2)"
    by (meson dialer_reachable.intros)
  have "length (dw_conns (tracked_Close 0 ?w2)) = 1"
    using len by (simp add: tracked_Close_def Let_def)
  with r dialer_tracks_open_connections [OF r, of 0] show ?thesis by auto
qed

theorem refresh_closes_exactly_the_surplus_witness:
  "\<exists>d' toClose. refreshOnce sample_lookup (\<lambda>c. c \<noteq> 1) (d_conns sample_dialer) sample_dialer = (d', toClose) \<and>
     d_addrs d' = [''10.0.0.1:1'', ''10.0.0.2:1''] \<and>
     conns_at (d_conns sample_dialer) ''c'' (\<lambda>c. c \<in> set toClose) = 1 \<and>
     conns_at (d_conns sample_dialer) ''a'' (\<lambda>c. c \<in> set toClose) = 1"
proof -
  have r: "resolve sample_lookup sample_dialer = [''10.0.0.1:1'', ''10.0.0.2:1'']"
    by code_simp
  have dist: "distinct (map fst (d_conns sample_dialer))" by code_simp
  obtain d' toClose where
    run: "refreshOnce sample_lookup (\<lambda>c. c \<noteq> 1) (d_conns sample_dialer) sample_dialer = (d', toClose)"
    by fastforce
  have "conns_at (d_conns sample_dialer) ''c'' (\<lambda>c. c \<noteq> 1) = 1"
    "conns_at (d_conns sample_dialer) ''a'' (\<lambda>c. c \<noteq> 1) = 1"
    by code_simp+
  with refresh_closes_exactly_the_surplus [OF dist refl run refl r [symmetric] refl] run show ?thesis
    by auto
qed

theorem dialer_resolves_to_ipv4_witness:
  "''10.0.0.1:1'' \<in> set (d_addrs (fst (newDNSDialer sample_lookup ''h:1'' 1 0)))"
proof -
  let ?ips = "[[10, 0, 0, 2], v4InV6 [10, 0, 0, 1], replicate 16 1, [10, 0, 0, 2]]"
  have a: "''10.0.0.1:1'' = JoinHostPort (dotted [10, 0, 0, 1]) ''1''" by code_simp
  have v: "To4 (v4InV6 [10, 0, 0, 1]) = Some [10, 0, 0, 1]" by code_simp
  have l: "sample_lookup ''h'' = Inr ?ips" by (simp add: sample_lookup_def)
  have "v4InV6 [10, 0, 0, 1] \<in> set ?ips" by simp
  moreover from this v have "\<not> (\<forall>ip \<in> set ?ips. To4 ip = None)"
    by (metis option.distinct(1))
  moreover note x = dialer_resolves_to_ipv4 [of "''h:1''" "''h''" "''1''" sample_lookup ?ips
      "d_addrs (fst (newDNSDialer sample_lookup ''h:1'' 1 0))" 1 0, OF sample_split _ _ sample_ParseIP l refl]
  ultimately have "set (d_addrs (fst (newDNSDialer sample_lookup ''h:1'' 1 0))) =
      {JoinHostPort (dotted ip4) ''1'' | ip ip4. ip \<in> set ?ips \<and> To4 ip = Some ip4}"
    by (simp only: if_False list.distinct simp_thms)
  with v \<open>v4InV6 [10, 0, 0, 1] \<in> set ?ips\<close> show ?thesis unfolding a by blast
qed


end
