(* ===== verification/Sharded.thy ===== *)
theory Sharded
  imports DnsDialer
begin

text \<open>
  \<^verbatim>\<open>pkg/client/shardedClient.go\<close>: the configuration and its defaults, the construction
  of the client (one group of connections per address), the two round robins, and the three
  calls \<open>Target\<close>, \<open>Report\<close> and \<open>Touch\<close>, which stamp payers, pick a connection and run
  \<open>doUnary\<close> on it. The TLS configuration is a value of any type \<open>'tls\<close> here; \<open>Mtls\<close> builds it.
\<close>

section \<open>Configuration\<close>

record configuration =
  Addrs :: string
  MaxRequestDuration :: int
  MaxDialDuration :: int
  DNSRefreshInterval :: int
  MaxPendingRequests :: int
  MaximumSimultaneousConnections :: int
  ReadBufferSize :: int
  WriteBufferSize :: int

definition zero_configuration :: configuration where
  "zero_configuration = \<lparr>Addrs = '''', MaxRequestDuration = 0, MaxDialDuration = 0,
     DNSRefreshInterval = 0, MaxPendingRequests = 0, MaximumSimultaneousConnections = 0,
     ReadBufferSize = 0, WriteBufferSize = 0\<rparr>"

definition defaultCloudAddr :: string where
  "defaultCloudAddr = ''cloud.mygaru.com:7937''"

definition defaultMaxRequestDuration :: int where "defaultMaxRequestDuration = 10 ^ 9"
definition defaultMaximumSimultaneousConnections :: int where "defaultMaximumSimultaneousConnections = 128"
definition defaultMaxPendingRequests :: int where "defaultMaxPendingRequests = 8"
definition defaultBufferSize :: int where "defaultBufferSize = 4 * 1024"

text \<open>The addresses of a comma-separated list: trimmed, without empty ones.\<close>

definition addr_list :: "string \<Rightarrow> string list" where
  "addr_list addrs = filter (\<lambda>a. a \<noteq> '''') (map TrimSpace (split_on (CHR '','') addrs))"

definition normalizeAddrs :: "string \<Rightarrow> string" where
  "normalizeAddrs addrs = join '','' (addr_list addrs)"

definition default_if :: "bool \<Rightarrow> 'a \<Rightarrow> 'a \<Rightarrow> 'a" where
  "default_if unset dflt x = (if unset then dflt else x)"

definition normalizeConfiguration :: "configuration option \<Rightarrow> configuration" where
  "normalizeConfiguration cfg =
     (let n = (case cfg of None \<Rightarrow> zero_configuration | Some c \<Rightarrow> c);
          n = n\<lparr>MaximumSimultaneousConnections := default_if (MaximumSimultaneousConnections n \<le> 0)
                  defaultMaximumSimultaneousConnections (MaximumSimultaneousConnections n)\<rparr>;
          n = n\<lparr>Addrs := normalizeAddrs (Addrs n)\<rparr>;
          n = n\<lparr>Addrs := default_if (Addrs n = '''') defaultCloudAddr (Addrs n)\<rparr>;
          n = n\<lparr>MaxRequestDuration := default_if (MaxRequestDuration n \<le> 0)
                  defaultMaxRequestDuration (MaxRequestDuration n)\<rparr>;
          n = n\<lparr>MaxDialDuration := default_if (MaxDialDuration n \<le> 0)
                  (MaxRequestDuration n) (MaxDialDuration n)\<rparr>;
          n = n\<lparr>DNSRefreshInterval := default_if (DNSRefreshInterval n = 0)
                  defaultDNSRefreshInterval (DNSRefreshInterval n)\<rparr>;
          n = n\<lparr>MaxPendingRequests := default_if (MaxPendingRequests n \<le> 0)
                  defaultMaxPendingRequests (MaxPendingRequests n)\<rparr>;
          n = n\<lparr>ReadBufferSize := default_if (ReadBufferSize n \<le> 0) defaultBufferSize (ReadBufferSize n)\<rparr>
      in n\<lparr>WriteBufferSize := default_if (WriteBufferSize n \<le> 0) defaultBufferSize (WriteBufferSize n)\<rparr>)"

section \<open>The client\<close>

definition SniffHeader :: string where "SniffHeader = ''MyGaruSDK''"
definition ProtocolVersion :: int where "ProtocolVersion = 1"

text \<open>What \<open>newClient\<close> asks of fastrpc for one connection.\<close>

record 'tls fastrpc_options =
  fo_SniffHeader :: string
  fo_ProtocolVersion :: int
  fo_TLSConfig :: 'tls
  fo_Addr :: string
  fo_ReadTimeout :: int
  fo_WriteTimeout :: int
  fo_MaxPendingRequests :: int
  fo_CompressType :: string
  fo_WriteBufferSize :: int
  fo_ReadBufferSize :: int

record 'tls clients_group =
  cg_roundRobin :: uint64
  cg_clients :: "rpc_client list"
  cg_options :: "'tls fastrpc_options"
  cg_dialer :: dns_dialer

record 'tls sharded_client =
  sh_Configuration :: configuration
  sh_roundRobin :: uint64
  sh_clients :: "'tls clients_group list"

definition new_group :: "(string \<Rightarrow> ip list result) \<Rightarrow> configuration \<Rightarrow> 'tls \<Rightarrow> string \<Rightarrow>
    'tls clients_group option" where
  "new_group lookup cfg tls shardAddr =
     (case buildShardMetrics shardAddr of
        None \<Rightarrow> None
      | Some metrics \<Rightarrow> Some
         \<lparr>cg_roundRobin = 0,
          cg_clients = replicate (nat (MaximumSimultaneousConnections cfg))
            \<lparr>maxRequestDuration = MaxRequestDuration cfg, metricGroups = metrics,
             connDials = 0, cl_conn = None\<rparr>,
          cg_options =
            \<lparr>fo_SniffHeader = SniffHeader, fo_ProtocolVersion = ProtocolVersion, fo_TLSConfig = tls,
             fo_Addr = shardAddr, fo_ReadTimeout = 60 * 10 ^ 9,
             fo_WriteTimeout = wrap64 (MaxRequestDuration cfg * 10),
             fo_MaxPendingRequests = MaxPendingRequests cfg, fo_CompressType = ''CompressSnappy'',
             fo_WriteBufferSize = WriteBufferSize cfg, fo_ReadBufferSize = ReadBufferSize cfg\<rparr>,
          cg_dialer = fst (newDNSDialer lookup shardAddr (MaxDialDuration cfg) (DNSRefreshInterval cfg))\<rparr>)"

fun new_groups :: "(string \<Rightarrow> ip list result) \<Rightarrow> configuration \<Rightarrow> 'tls \<Rightarrow> string list \<Rightarrow>
    'tls clients_group list option" where
  "new_groups lookup cfg tls [] = Some []"
| "new_groups lookup cfg tls (shardAddr # addrs) =
     (let shardAddr = TrimSpace shardAddr in
      if shardAddr = '''' then new_groups lookup cfg tls addrs
      else case new_group lookup cfg tls shardAddr of
        None \<Rightarrow> None
      | Some g \<Rightarrow> map_option (\<lambda>gs. g # gs) (new_groups lookup cfg tls addrs))"

definition newClient :: "(string \<Rightarrow> ip list result) \<Rightarrow> configuration option \<Rightarrow> 'tls \<Rightarrow>
    'tls sharded_client option" where
  "newClient lookup cfg tls =
     (let cfg = normalizeConfiguration cfg in
      map_option (\<lambda>gs. \<lparr>sh_Configuration = cfg, sh_roundRobin = 0, sh_clients = gs\<rparr>)
        (new_groups lookup cfg tls (split_on (CHR '','') (Addrs cfg))))"

section \<open>Picking a connection\<close>

text \<open>
  An empty list divides by zero: the panic is \<open>None\<close>. The counter wraps at 64 bits; the length
  of a slice always fits \<^verbatim>\<open>uint64\<close>, so the remainder is taken on numbers.
\<close>

definition getClient :: "'tls clients_group \<Rightarrow> (nat \<times> 'tls clients_group) option" where
  "getClient g =
     (let n = cg_roundRobin g + 1 in
      if cg_clients g = [] then None
      else Some (unat n mod length (cg_clients g), g\<lparr>cg_roundRobin := n\<rparr>))"

definition getGroup :: "'tls sharded_client \<Rightarrow> (nat \<times> 'tls sharded_client) option" where
  "getGroup sc =
     (let n = sh_roundRobin sc + 1 in
      if sh_clients sc = [] then None
      else Some (unat n mod length (sh_clients sc), sc\<lparr>sh_roundRobin := n\<rparr>))"

definition pick_client :: "'tls sharded_client \<Rightarrow> (slot \<times> rpc_client \<times> 'tls sharded_client) option" where
  "pick_client sc =
     (case getGroup sc of
        None \<Rightarrow> None
      | Some (g, sc1) \<Rightarrow>
         (case getClient (sh_clients sc1 ! g) of
            None \<Rightarrow> None
          | Some (i, grp) \<Rightarrow>
              Some ((g, i), cg_clients grp ! i, sc1\<lparr>sh_clients := (sh_clients sc1)[g := grp]\<rparr>)))"

section \<open>The calls\<close>

text \<open>A request as the marshaller sees it: the rules its pointers lead to.\<close>

definition deref_target :: "match_rule store \<Rightarrow> addr option target_request option \<Rightarrow>
    match_rule option target_request option" where
  "deref_target h = map_option (\<lambda>r.
     \<lparr>TargetRequest_Uids = TargetRequest_Uids r, TargetRequest_Frequency = TargetRequest_Frequency r,
      TargetRequest_Match = map (map_option h) (TargetRequest_Match r),
      TargetRequest_IndividualErrors = TargetRequest_IndividualErrors r,
      TargetRequest_Context = TargetRequest_Context r,
      TargetRequest_Inventory = TargetRequest_Inventory r\<rparr>)"

definition deref_report :: "report_rule store \<Rightarrow> addr option report_request \<Rightarrow> report_rule option report_request" where
  "deref_report h r =
     \<lparr>ReportRequest_Payer = ReportRequest_Payer r, ReportRequest_TrackingId = ReportRequest_TrackingId r,
      ReportRequest_Event = ReportRequest_Event r,
      ReportRequest_Rules = map (map_option h) (ReportRequest_Rules r)\<rparr>"

definition call_picked :: "'n ext \<Rightarrow> call \<Rightarrow> bytes result \<Rightarrow> (bytes \<Rightarrow> 'r result) \<Rightarrow> RPCRegister \<Rightarrow>
    'tls sharded_client \<Rightarrow> 'n world \<Rightarrow>
    ('tls sharded_client \<times> 'n world \<times> 'r option \<times> int32 \<times> go_error option) option" where
  "call_picked X k raw unmarshal reqn sc w =
     (case pick_client sc of
        None \<Rightarrow> None
      | Some (slot, c, sc') \<Rightarrow>
          map_option (\<lambda>(w', m, st, err). (sc', w', m, st, err)) (doUnary X k slot c raw unmarshal reqn w))"

definition Sharded_Target :: "'n ext \<Rightarrow> call \<Rightarrow> addr option target_request option \<Rightarrow>
    'tls sharded_client \<Rightarrow> 'n world \<Rightarrow>
    ('tls sharded_client \<times> 'n world \<times> target_response option \<times> int32 \<times> go_error option) option" where
  "Sharded_Target X k req sc w =
     (case applyMatchRulePayers (uuid_parse X) (uuid_string X) (TargetRequest_GetMatch req) uuid_Nil (w_match w) of
        (h, Some err) \<Rightarrow> Some (sc, w\<lparr>w_match := h\<rparr>, None, RPC_INVALID_REQUEST, Some err)
      | (h, None) \<Rightarrow>
          call_picked X k (marshal_target X (deref_target h req)) (unmarshal_target X) Target sc
            (w\<lparr>w_match := h\<rparr>))"

text \<open>
  \<open>Report\<close> writes the parsed payer's text into the request before it stamps the rules; a nil
  request panics. The result carries the request as the caller finds it afterwards.
\<close>

definition Sharded_Report :: "'n ext \<Rightarrow> call \<Rightarrow> addr option report_request option \<Rightarrow>
    'tls sharded_client \<Rightarrow> 'n world \<Rightarrow>
    ('tls sharded_client \<times> 'n world \<times> addr option report_request \<times> int32 \<times> go_error option) option" where
  "Sharded_Report X k reqp sc w =
     (case reqp of
        None \<Rightarrow> None
      | Some req \<Rightarrow>
         if ReportRequest_TrackingId req = None
         then Some (sc, w, req, RPC_UNKNOWN, Some (Errorf ''tracking id is required'' []))
         else
          (case applyPayers (uuid_parse X) (ReportRequest_GetPayer reqp)
                  (\<lambda>payer (req, h).
                     let req = req\<lparr>ReportRequest_Payer := uuid_string X payer\<rparr>;
                         (h', err) = applyReportRulePayers (uuid_parse X) (uuid_string X)
                                       (ReportRequest_GetRules (Some req)) payer h
                     in ((req, h'), err))
                  (req, w_report w) of
             ((req', h), Some err) \<Rightarrow> Some (sc, w\<lparr>w_report := h\<rparr>, req', RPC_INVALID_REQUEST, Some err)
           | ((req', h), None) \<Rightarrow>
               map_option (\<lambda>(sc', w', m, st, err). (sc', w', req', st, err))
                 (call_picked X k (marshal_report X (deref_report h req')) (\<lambda>_. Inr ()) Report sc
                    (w\<lparr>w_report := h\<rparr>))))"

definition Sharded_Touch :: "'n ext \<Rightarrow> call \<Rightarrow> touch_request option \<Rightarrow> 'tls sharded_client \<Rightarrow> 'n world \<Rightarrow>
    ('tls sharded_client \<times> 'n world \<times> touch_response option \<times> int32 \<times> go_error option) option" where
  "Sharded_Touch X k req sc w = call_picked X k (marshal_touch X req) (unmarshal_touch X) Touch sc w"

section \<open>The rest of the interface\<close>

definition IsValidTrackingID :: "(bytes \<Rightarrow> int) \<Rightarrow> bytes \<Rightarrow> bool" where
  "IsValidTrackingID GetServerID trackingId \<longleftrightarrow> 0 < GetServerID trackingId"

text \<open>The two counters walk every client; Go's \<open>int\<close> sums wrap.\<close>

definition slots :: "'tls sharded_client \<Rightarrow> slot list" where
  "slots sc = concat (map (\<lambda>g. map (Pair g) [0..<length (cg_clients (sh_clients sc ! g))]) [0..<length (sh_clients sc)])"

definition client_at :: "'tls sharded_client \<Rightarrow> slot \<Rightarrow> rpc_client" where
  "client_at sc s = cg_clients (sh_clients sc ! fst s) ! snd s"

definition PendingRequests :: "(slot \<Rightarrow> int) \<Rightarrow> 'tls sharded_client \<Rightarrow> int" where
  "PendingRequests pending sc = foldl (\<lambda>n s. wrap64 (n + pending s)) 0 (slots sc)"

definition Sharded_Reconnects :: "'tls sharded_client \<Rightarrow> int" where
  "Sharded_Reconnects sc = foldl (\<lambda>n s. wrap64 (n + sint (Reconnects (client_at sc s)))) 0 (slots sc)"

text \<open>
  \<open>Reconnect\<close> runs \<open>reconnect\<close> on every client at once: \<open>env\<close> says for each what its requests in
  flight, its clock and its dial hook do meanwhile. It returns when all of them have.
\<close>

type_synonym reconnect_env = "slot \<Rightarrow> (nat \<Rightarrow> nat) \<times> (nat \<Rightarrow> int) \<times> (rpc_client \<Rightarrow> rpc_client)"

definition reconnect_all :: "bool \<Rightarrow> reconnect_env \<Rightarrow> 'tls sharded_client \<Rightarrow> (slot \<times> (conn_id option \<times> rpc_client)) list option" where
  "reconnect_all force env sc =
     those (map (\<lambda>s. case env s of (pending, clock, interim) \<Rightarrow>
       map_option (Pair s) (reconnect force (MaxRequestDuration (sh_Configuration sc)) pending clock interim (client_at sc s)))
       (slots sc))"

section \<open>Lemmas: configuration\<close>

lemma addr_list_members:
  assumes "a \<in> set (addr_list s)"
  shows "a \<noteq> ''''" "TrimSpace a = a" "CHR '','' \<notin> set a"
proof -
  obtain p where p: "p \<in> set (split_on (CHR '','') s)" "a = TrimSpace p" "a \<noteq> ''''"
    using assms by (auto simp: addr_list_def)
  then show "a \<noteq> ''''" "TrimSpace a = a" by simp_all
  show "CHR '','' \<notin> set a" using p set_TrimSpace [of p] split_on_no_sep by blast
qed

lemma addr_list_join:
  assumes "\<forall>a \<in> set as. a \<noteq> '''' \<and> TrimSpace a = a \<and> CHR '','' \<notin> set a"
  shows "addr_list (join '','' as) = as"
proof (cases "as = []")
  case True
  then show ?thesis by (simp add: addr_list_def)
next
  case False
  have "split_on (CHR '','') (join '','' as) = as"
    using split_on_join [OF False] assms by simp
  moreover have "filter (\<lambda>a. a \<noteq> '''') (map TrimSpace as) = as"
    using assms by (induction as) auto
  ultimately show ?thesis by (simp add: addr_list_def)
qed

text \<open>Normalising keeps the list of addresses, and so normalising twice is normalising once.\<close>

lemma addr_list_normalizeAddrs [simp]: "addr_list (normalizeAddrs s) = addr_list s"
  unfolding normalizeAddrs_def by (rule addr_list_join) (use addr_list_members in blast)

lemma normalizeAddrs_idem [simp]: "normalizeAddrs (normalizeAddrs s) = normalizeAddrs s"
  by (simp only: normalizeAddrs_def [of "normalizeAddrs s"] addr_list_normalizeAddrs)
    (simp add: normalizeAddrs_def)

lemma join_empty: "\<forall>a \<in> set as. a \<noteq> '''' \<Longrightarrow> join sep as = '''' \<longleftrightarrow> as = []"
  by (induction sep as rule: join.induct) auto

lemma normalizeAddrs_empty: "normalizeAddrs s = '''' \<longleftrightarrow> addr_list s = []"
  unfolding normalizeAddrs_def by (rule join_empty) (use addr_list_members in blast)

lemma addr_list_default: "addr_list defaultCloudAddr = [defaultCloudAddr]"
  by code_simp

lemma normalizeAddrs_default: "normalizeAddrs defaultCloudAddr = defaultCloudAddr"
  by (simp add: normalizeAddrs_def addr_list_default)

lemma defaultCloudAddr_nonempty: "defaultCloudAddr \<noteq> ''''"
  by (simp add: defaultCloudAddr_def)

lemmas defaults = defaultMaxRequestDuration_def defaultMaximumSimultaneousConnections_def
  defaultMaxPendingRequests_def defaultBufferSize_def defaultDNSRefreshInterval_def

definition config_of :: "configuration option \<Rightarrow> configuration" where
  "config_of cfg = (case cfg of None \<Rightarrow> zero_configuration | Some c \<Rightarrow> c)"

text \<open>The normalised configuration, field by field.\<close>

lemma normalizeConfiguration_fields:
  "normalizeConfiguration cfg =
     (let c = config_of cfg; mrd = default_if (MaxRequestDuration c \<le> 0) defaultMaxRequestDuration (MaxRequestDuration c) in
     \<lparr>Addrs = default_if (addr_list (Addrs c) = []) defaultCloudAddr (normalizeAddrs (Addrs c)),
      MaxRequestDuration = mrd,
      MaxDialDuration = default_if (MaxDialDuration c \<le> 0) mrd (MaxDialDuration c),
      DNSRefreshInterval = default_if (DNSRefreshInterval c = 0) defaultDNSRefreshInterval (DNSRefreshInterval c),
      MaxPendingRequests = default_if (MaxPendingRequests c \<le> 0) defaultMaxPendingRequests (MaxPendingRequests c),
      MaximumSimultaneousConnections = default_if (MaximumSimultaneousConnections c \<le> 0)
        defaultMaximumSimultaneousConnections (MaximumSimultaneousConnections c),
      ReadBufferSize = default_if (ReadBufferSize c \<le> 0) defaultBufferSize (ReadBufferSize c),
      WriteBufferSize = default_if (WriteBufferSize c \<le> 0) defaultBufferSize (WriteBufferSize c)\<rparr>)"
  by (cases "config_of cfg")
    (simp add: normalizeConfiguration_def Let_def config_of_def [symmetric] normalizeAddrs_empty)


section \<open>Lemmas: the client built\<close>

lemma new_group_built:
  "\<exists>g. new_group lookup cfg tls a = Some g \<and> fo_Addr (cg_options g) = a \<and>
     length (cg_clients g) = nat (MaximumSimultaneousConnections cfg) \<and> cg_roundRobin g = 0 \<and>
     (\<forall>c \<in> set (cg_clients g). buildShardMetrics a = Some (metricGroups c) \<and>
        maxRequestDuration c = MaxRequestDuration cfg)"
  by (simp add: new_group_def buildShardMetrics_total)

lemma new_group_fields:
  "fo_Addr (cg_options (the (new_group lookup cfg tls a))) = a"
  "length (cg_clients (the (new_group lookup cfg tls a))) = nat (MaximumSimultaneousConnections cfg)"
  "cg_roundRobin (the (new_group lookup cfg tls a)) = 0"
  "c \<in> set (cg_clients (the (new_group lookup cfg tls a))) \<Longrightarrow>
     buildShardMetrics a = Some (metricGroups c) \<and> maxRequestDuration c = MaxRequestDuration cfg \<and>
     connDials c = 0 \<and> cl_conn c = None"
  by (simp_all add: new_group_def buildShardMetrics_total)

lemma new_groups_built:
  "new_groups lookup cfg tls as =
     Some (map (\<lambda>a. the (new_group lookup cfg tls a)) (filter (\<lambda>a. a \<noteq> '''') (map TrimSpace as)))"
proof (induction as)
  case (Cons a as)
  obtain g where "new_group lookup cfg tls (TrimSpace a) = Some g"
    using new_group_built [of lookup cfg tls "TrimSpace a"] by blast
  with Cons show ?case by (simp add: Let_def)
qed simp

definition client_addrs :: "configuration option \<Rightarrow> string list" where
  "client_addrs cfg =
     (if addr_list (Addrs (config_of cfg)) = [] then [defaultCloudAddr] else addr_list (Addrs (config_of cfg)))"

lemma newClient_groups:
  "\<exists>sc. newClient lookup cfg tls = Some sc \<and> sh_Configuration sc = normalizeConfiguration cfg \<and>
     sh_roundRobin sc = 0 \<and>
     sh_clients sc = map (\<lambda>a. the (new_group lookup (normalizeConfiguration cfg) tls a)) (client_addrs cfg)"
proof -
  have "addr_list (Addrs (normalizeConfiguration cfg)) = client_addrs cfg"
    by (simp add: normalizeConfiguration_fields Let_def default_if_def client_addrs_def addr_list_default)
  then show ?thesis
    by (simp add: newClient_def Let_def new_groups_built addr_list_def)
qed

text \<open>What the calls rely on: there is a connection to pick, and its metrics are there.\<close>

definition group_ok :: "'tls clients_group \<Rightarrow> bool" where
  "group_ok g \<longleftrightarrow> cg_clients g \<noteq> [] \<and>
     (\<forall>c \<in> set (cg_clients g). \<exists>ad. buildShardMetrics ad = Some (metricGroups c))"

definition client_ok :: "'tls sharded_client \<Rightarrow> bool" where
  "client_ok sc \<longleftrightarrow> sh_clients sc \<noteq> [] \<and> (\<forall>g \<in> set (sh_clients sc). group_ok g)"

lemma normalized_positive:
  "0 < MaxRequestDuration (normalizeConfiguration cfg) \<and> 0 < MaxDialDuration (normalizeConfiguration cfg) \<and>
   DNSRefreshInterval (normalizeConfiguration cfg) \<noteq> 0 \<and> 0 < MaxPendingRequests (normalizeConfiguration cfg) \<and>
   0 < MaximumSimultaneousConnections (normalizeConfiguration cfg) \<and>
   0 < ReadBufferSize (normalizeConfiguration cfg) \<and> 0 < WriteBufferSize (normalizeConfiguration cfg)"
  by (simp add: normalizeConfiguration_fields Let_def default_if_def defaults)

lemma newClient_ok: "newClient lookup cfg tls = Some sc \<Longrightarrow> client_ok sc"
proof -
  assume sc: "newClient lookup cfg tls = Some sc"
  have g: "group_ok (the (new_group lookup (normalizeConfiguration cfg) tls a))" for a
    using new_group_built [of lookup "normalizeConfiguration cfg" tls a] normalized_positive [of cfg]
    by (auto simp: group_ok_def)
  have "client_addrs cfg \<noteq> []" by (simp add: client_addrs_def)
  then show ?thesis
    using newClient_groups [of lookup cfg tls] sc g by (auto simp: client_ok_def)
qed

section \<open>Lemmas: picking\<close>

interpretation groups: rotation "\<lambda>sc. the (getGroup sc)" sh_roundRobin "\<lambda>sc. [0..<length (sh_clients sc)]" 1
  by unfold_locales (auto simp: getGroup_def Let_def)

interpretation clients: rotation "\<lambda>g. the (getClient g)" cg_roundRobin "\<lambda>g. [0..<length (cg_clients g)]" 1
  by unfold_locales (auto simp: getClient_def Let_def)

lemma pick_client_picks:
  assumes "client_ok sc"
  shows "\<exists>g i sc'. pick_client sc = Some ((g, i), client_at sc (g, i), sc') \<and>
    getGroup sc = Some (g, sc\<lparr>sh_roundRobin := sh_roundRobin sc + 1\<rparr>) \<and> g < length (sh_clients sc) \<and>
    (\<exists>grp. getClient (sh_clients sc ! g) = Some (i, grp) \<and>
       grp = (sh_clients sc ! g)\<lparr>cg_roundRobin := cg_roundRobin (sh_clients sc ! g) + 1\<rparr> \<and>
       sc' = sc\<lparr>sh_roundRobin := sh_roundRobin sc + 1, sh_clients := (sh_clients sc)[g := grp]\<rparr>) \<and>
    i < length (cg_clients (sh_clients sc ! g)) \<and> client_ok sc'"
proof -
  let ?g = "unat (sh_roundRobin sc + 1) mod length (sh_clients sc)"
  have ne: "sh_clients sc \<noteq> []" using assms by (simp add: client_ok_def)
  then have g: "?g < length (sh_clients sc)" by simp
  then have grp: "group_ok (sh_clients sc ! ?g)" using assms by (simp add: client_ok_def)
  let ?i = "unat (cg_roundRobin (sh_clients sc ! ?g) + 1) mod length (cg_clients (sh_clients sc ! ?g))"
  have i: "?i < length (cg_clients (sh_clients sc ! ?g))" using grp by (simp add: group_ok_def)
  have "client_ok (sc\<lparr>sh_roundRobin := sh_roundRobin sc + 1,
      sh_clients := (sh_clients sc)[?g := (sh_clients sc ! ?g)\<lparr>cg_roundRobin := cg_roundRobin (sh_clients sc ! ?g) + 1\<rparr>]\<rparr>)"
    using assms grp by (auto simp: client_ok_def group_ok_def dest: set_update_subset_insert [THEN subsetD])
  with ne g i grp show ?thesis
    by (simp add: pick_client_def getGroup_def getClient_def Let_def client_at_def group_ok_def)
qed

definition next_slot :: "'tls sharded_client \<Rightarrow> slot \<times> 'tls sharded_client" where
  "next_slot sc = (case pick_client sc of Some (s, _, sc') \<Rightarrow> (s, sc') | None \<Rightarrow> ((0, 0), sc))"

lemma picks_getGroup_cong:
  "sh_roundRobin sc = sh_roundRobin sc' \<Longrightarrow> length (sh_clients sc) = length (sh_clients sc') \<Longrightarrow>
   sh_clients sc \<noteq> [] \<Longrightarrow>
   picks (\<lambda>sc. the (getGroup sc)) k sc = picks (\<lambda>sc. the (getGroup sc)) k sc'"
proof (induction k arbitrary: sc sc')
  case (Suc k)
  have "sh_clients sc' \<noteq> []" using Suc.prems by auto
  with Suc.prems Suc.IH [of "snd (the (getGroup sc))" "snd (the (getGroup sc'))"] show ?case
    by (simp add: getGroup_def Let_def)
qed simp

lemma next_slot_step:
  assumes "client_ok sc"
  shows "\<exists>h i grp sc'. next_slot sc = ((h, i), sc') \<and> client_ok sc' \<and>
    h < length (sh_clients sc) \<and> getClient (sh_clients sc ! h) = Some (i, grp) \<and>
    sh_clients sc' = (sh_clients sc)[h := grp] \<and>
    (\<forall>k. picks (\<lambda>sc. the (getGroup sc)) (Suc k) sc = h # picks (\<lambda>sc. the (getGroup sc)) k sc')"
proof -
  from pick_client_picks [OF assms] obtain h i sc' grp where p:
    "pick_client sc = Some ((h, i), client_at sc (h, i), sc')"
    "getGroup sc = Some (h, sc\<lparr>sh_roundRobin := sh_roundRobin sc + 1\<rparr>)" "h < length (sh_clients sc)"
    "getClient (sh_clients sc ! h) = Some (i, grp)"
    "sc' = sc\<lparr>sh_roundRobin := sh_roundRobin sc + 1, sh_clients := (sh_clients sc)[h := grp]\<rparr>"
    "client_ok sc'" by blast
  have "picks (\<lambda>sc. the (getGroup sc)) k (sc\<lparr>sh_roundRobin := sh_roundRobin sc + 1\<rparr>) =
      picks (\<lambda>sc. the (getGroup sc)) k sc'" for k
    using assms by (intro picks_getGroup_cong) (simp_all add: p(5) client_ok_def)
  with p show ?thesis by (simp add: next_slot_def)
qed

text \<open>
  The groups picked are what the outer round robin picks, and the slots picked in one group are
  what the group's own round robin picks.
\<close>

lemma groups_picked:
  "client_ok sc \<Longrightarrow> map fst (picks next_slot k sc) = picks (\<lambda>sc. the (getGroup sc)) k sc"
proof (induction k arbitrary: sc)
  case (Suc k)
  from next_slot_step [OF Suc.prems] obtain h i sc' where
    "next_slot sc = ((h, i), sc')" "client_ok sc'"
    "picks (\<lambda>sc. the (getGroup sc)) (Suc k) sc = h # picks (\<lambda>sc. the (getGroup sc)) k sc'" by blast
  with Suc.IH [of sc'] show ?case by (simp only: picks.simps(2) [of next_slot]) simp
qed simp

lemma clients_picked:
  "client_ok sc \<Longrightarrow> g < length (sh_clients sc) \<Longrightarrow>
    map snd (filter (\<lambda>s. fst s = g) (picks next_slot k sc)) =
      picks (\<lambda>g. the (getClient g)) (count_list (picks (\<lambda>sc. the (getGroup sc)) k sc) g) (sh_clients sc ! g)"
proof (induction k arbitrary: sc)
  case (Suc k)
  from next_slot_step [OF Suc.prems(1)] obtain h i grp sc' where p:
    "next_slot sc = ((h, i), sc')" "client_ok sc'" "h < length (sh_clients sc)"
    "getClient (sh_clients sc ! h) = Some (i, grp)" "sh_clients sc' = (sh_clients sc)[h := grp]"
    "\<And>k. picks (\<lambda>sc. the (getGroup sc)) (Suc k) sc = h # picks (\<lambda>sc. the (getGroup sc)) k sc'"
    by blast
  have "sh_clients sc' ! g = (if g = h then grp else sh_clients sc ! g)"
    using p(3) by (simp add: p(5))
  with Suc.IH [OF p(2)] Suc.prems(2) p(4,5) show ?case
    unfolding p(6) by (cases "h = g") (simp_all add: p(1))
qed simp

lemma count_list_pair:
  "count_list xs (g, i) = count_list (map snd (filter (\<lambda>s. fst s = g) xs)) i"
  by (induction xs) auto


lemma slots_iff: "(g, i) \<in> set (slots sc) \<longleftrightarrow> g < length (sh_clients sc) \<and> i < length (cg_clients (sh_clients sc ! g))"
  by (force simp: slots_def)

lemma length_slots:
  assumes "\<forall>g \<in> set (sh_clients sc). length (cg_clients g) = n"
  shows "length (slots sc) = n * length (sh_clients sc)"
proof -
  have "map (\<lambda>g. length (cg_clients (sh_clients sc ! g))) [0..<length (sh_clients sc)] =
      replicate (length (sh_clients sc)) n"
    using assms by (intro nth_equalityI) auto
  then show ?thesis
    by (simp add: slots_def length_concat comp_def sum_list_replicate mult.commute)
qed

section \<open>Lemmas: the calls\<close>

text \<open>
  What it means that one exchange happened for a call: the connection is the one picked, the
  request sent carries the register and the bytes, and the result follows from the answer.
\<close>

definition one_exchange :: "'n ext \<Rightarrow> call \<Rightarrow> RPCRegister \<Rightarrow> bytes \<Rightarrow> (bytes \<Rightarrow> 'r result) \<Rightarrow>
    'tls sharded_client \<Rightarrow> 'n world \<Rightarrow>
    'tls sharded_client \<times> 'n world \<times> 'r option \<times> int32 \<times> go_error option \<Rightarrow> bool" where
  "one_exchange X k reqn raw un sc w res \<longleftrightarrow>
     (case res of (sc', w', m, st, err) \<Rightarrow>
       \<exists>slot c req resp net resp' derr.
         pick_client sc = Some (slot, c, sc') \<and> slot \<in> set (slots sc) \<and> c = client_at sc slot \<and>
         request_obs req = (reqn, raw) \<and> request_ok req \<and> response_clean resp \<and>
         (list_all response_ok (w_responses w) \<longrightarrow> response_ok resp) \<and>
         do_deadline X slot req resp (now k + maxRequestDuration c) (w_net w) = (net, resp', derr) \<and>
         w_net w' = net \<and> w_match w' = w_match w \<and> w_report w' = w_report w \<and> pools_ok w' \<and>
         (case derr of
            Some e \<Rightarrow> m = None \<and> st = RPC_NETWORK_ERROR \<and> err \<noteq> None
          | None \<Rightarrow> st = GetStatusCode resp' \<and>
              (if st \<noteq> RPC_OK then m = None \<and> err \<noteq> None
               else case un (Response_Value resp') of
                 Inl _ \<Rightarrow> m = None \<and> err \<noteq> None
               | Inr x \<Rightarrow> m = Some x \<and> err = None)))"

lemma group_metrics:
  assumes "client_ok sc" "s \<in> set (slots sc)" "reqn \<in> {Target, Report, Touch}"
  shows "\<exists>mg. metric_group (client_at sc s) reqn = Some mg"
proof -
  have "client_at sc s \<in> set (cg_clients (sh_clients sc ! fst s))" "sh_clients sc ! fst s \<in> set (sh_clients sc)"
    using assms(2) slots_iff [of "fst s" "snd s" sc] by (simp_all add: client_at_def)
  with assms(1) obtain ad where "buildShardMetrics ad = Some (metricGroups (client_at sc s))"
    by (auto simp: client_ok_def group_ok_def)
  from metric_group_built [OF this assms(3)] show ?thesis by blast
qed

lemma call_picked_local:
  assumes "client_ok sc" "raw = Inl e \<or> raw = Inr []"
  shows "\<exists>sc' err. call_picked X k raw un reqn sc w = Some (sc', w, None, RPC_UNKNOWN, Some err) \<and> client_ok sc'"
proof -
  from pick_client_picks [OF assms(1)] obtain s c sc' where
    p: "pick_client sc = Some (s, c, sc')" "client_ok sc'" by blast
  from doUnary_local_error [OF assms(2), of X k s c un reqn w] show ?thesis
    using p by (auto simp: call_picked_def)
qed

lemma call_picked_sent:
  assumes "client_ok sc" "pools_ok w" "reqn \<in> {Target, Report, Touch}" "raw \<noteq> []"
  shows "\<exists>res. call_picked X k (Inr raw) un reqn sc w = Some res \<and>
    one_exchange X k reqn raw un sc w res \<and> client_ok (fst res)"
proof -
  from pick_client_picks [OF assms(1)] obtain g i sc' where
    p: "pick_client sc = Some ((g, i), client_at sc (g, i), sc')" "client_ok sc'"
      "g < length (sh_clients sc)" "i < length (cg_clients (sh_clients sc ! g))" by blast
  let ?c = "client_at sc (g, i)"
  have slot: "(g, i) \<in> set (slots sc)" using p by (simp add: slots_iff)
  obtain mg where mg: "metric_group ?c reqn = Some mg" using group_metrics [OF assms(1) slot assms(3)] by blast
  then obtain w' m st err where run: "doUnary X k (g, i) ?c (Inr raw) un reqn w = Some (w', m, st, err)"
    using doUnary_no_panic [of ?c reqn X k "(g, i)" "Inr raw" un w]
    by (metis not_Some_eq option.distinct(1) prod_cases4)
  have "one_exchange X k reqn raw un sc w (sc', w', m, st, err)"
  proof (rule doUnary_exchange [OF assms(2,4) mg run], goal_cases)
    case (1 req resp net resp' derr)
    then show ?case using p(1) slot unfolding one_exchange_def prod.case
      by - (rule exI [of _ "(g, i)"], rule exI [of _ ?c], rule exI [of _ req], rule exI [of _ resp],
          rule exI [of _ net], rule exI [of _ resp'], rule exI [of _ derr],
          auto split: option.splits sum.splits if_splits)
  qed
  with p run show ?thesis by (auto simp: call_picked_def)
qed


section \<open>Properties\<close>

text \<open>
  C31. Every configuration is made usable, and only once: a nil or partial configuration is
  completed so that all durations, sizes and counts are positive, the refresh interval is never
  zero and at least one address is there, with every value the caller did set kept: each duration,
  size and count that is positive, a refresh interval that is not zero, and the addresses of a list
  that holds any (up to blanks and empty entries). Normalising again changes nothing.
\<close>

theorem configuration_normalised:
  "normalizeConfiguration (Some (normalizeConfiguration cfg)) = normalizeConfiguration cfg \<and>
   0 < MaxRequestDuration (normalizeConfiguration cfg) \<and> 0 < MaxDialDuration (normalizeConfiguration cfg) \<and>
   DNSRefreshInterval (normalizeConfiguration cfg) \<noteq> 0 \<and> 0 < MaxPendingRequests (normalizeConfiguration cfg) \<and>
   0 < MaximumSimultaneousConnections (normalizeConfiguration cfg) \<and>
   0 < ReadBufferSize (normalizeConfiguration cfg) \<and> 0 < WriteBufferSize (normalizeConfiguration cfg) \<and>
   addr_list (Addrs (normalizeConfiguration cfg)) = client_addrs cfg \<and> client_addrs cfg \<noteq> [] \<and>
   (\<forall>c. cfg = Some c \<longrightarrow>
      (0 < MaxRequestDuration c \<longrightarrow> MaxRequestDuration (normalizeConfiguration cfg) = MaxRequestDuration c) \<and>
      (0 < MaxDialDuration c \<longrightarrow> MaxDialDuration (normalizeConfiguration cfg) = MaxDialDuration c) \<and>
      (DNSRefreshInterval c \<noteq> 0 \<longrightarrow> DNSRefreshInterval (normalizeConfiguration cfg) = DNSRefreshInterval c) \<and>
      (0 < MaxPendingRequests c \<longrightarrow> MaxPendingRequests (normalizeConfiguration cfg) = MaxPendingRequests c) \<and>
      (0 < MaximumSimultaneousConnections c \<longrightarrow>
         MaximumSimultaneousConnections (normalizeConfiguration cfg) = MaximumSimultaneousConnections c) \<and>
      (0 < ReadBufferSize c \<longrightarrow> ReadBufferSize (normalizeConfiguration cfg) = ReadBufferSize c) \<and>
      (0 < WriteBufferSize c \<longrightarrow> WriteBufferSize (normalizeConfiguration cfg) = WriteBufferSize c) \<and>
      (addr_list (Addrs c) \<noteq> [] \<longrightarrow> addr_list (Addrs (normalizeConfiguration cfg)) = addr_list (Addrs c)))"
proof -
  let ?n = "normalizeConfiguration cfg"
  note f = normalizeConfiguration_fields [unfolded Let_def]
  have a: "Addrs ?n = default_if (addr_list (Addrs (config_of cfg)) = []) defaultCloudAddr
      (normalizeAddrs (Addrs (config_of cfg)))"
    by (simp add: f)
  have list: "addr_list (Addrs ?n) = client_addrs cfg"
    by (simp add: a default_if_def client_addrs_def addr_list_default)
  moreover have "client_addrs cfg \<noteq> []" by (simp add: client_addrs_def)
  moreover have "normalizeAddrs (Addrs ?n) = Addrs ?n"
    by (simp add: a default_if_def normalizeAddrs_default)
  moreover have "config_of (Some ?n) = ?n" by (simp add: config_of_def)
  ultimately have "normalizeConfiguration (Some ?n) = ?n"
    using normalized_positive [of cfg] by (subst f) (simp add: default_if_def)
  then show ?thesis
    using normalized_positive [of cfg] list \<open>client_addrs cfg \<noteq> []\<close>
    by (auto simp: client_addrs_def) (simp_all add: f default_if_def config_of_def)
qed

theorem configuration_normalised_witness:
  "MaxRequestDuration (normalizeConfiguration (Some (zero_configuration\<lparr>MaxRequestDuration := 5\<rparr>))) = 5"
  using configuration_normalised [of "Some (zero_configuration\<lparr>MaxRequestDuration := 5\<rparr>)"] by simp

text \<open>
  \<open>newClient\<close> always builds a client, with one group per configured address in the order
  given, every group with exactly the configured number of connections, none dialed yet, the
  request deadline and metrics of its address in each; so there is always a connection to pick.
\<close>

lemma new_client_layout:
  "\<exists>sc. newClient lookup cfg tls = Some sc \<and> client_ok sc \<and>
     map (\<lambda>g. fo_Addr (cg_options g)) (sh_clients sc) = client_addrs cfg \<and>
     length (slots sc) = nat (MaximumSimultaneousConnections (normalizeConfiguration cfg)) * length (client_addrs cfg) \<and>
     slots sc \<noteq> [] \<and>
     (\<forall>s \<in> set (slots sc).
        cl_conn (client_at sc s) = None \<and> connDials (client_at sc s) = 0 \<and>
        maxRequestDuration (client_at sc s) = MaxRequestDuration (normalizeConfiguration cfg) \<and>
        buildShardMetrics (client_addrs cfg ! fst s) = Some (metricGroups (client_at sc s)))"
proof -
  let ?n = "normalizeConfiguration cfg"
  let ?g = "\<lambda>a. the (new_group lookup ?n tls a)"
  obtain sc where sc: "newClient lookup cfg tls = Some sc" "sh_clients sc = map ?g (client_addrs cfg)"
    using newClient_groups [of lookup cfg tls] by blast
  have g: "fo_Addr (cg_options (?g a)) = a" "length (cg_clients (?g a)) = nat (MaximumSimultaneousConnections ?n)" for a
    using new_group_built [of lookup ?n tls a] by auto
  have len: "length (slots sc) = nat (MaximumSimultaneousConnections ?n) * length (client_addrs cfg)"
    using length_slots [of sc "nat (MaximumSimultaneousConnections ?n)"] g(2) by (simp add: sc(2))
  have "client_addrs cfg \<noteq> []" by (simp add: client_addrs_def)
  with len normalized_positive [of cfg] have "slots sc \<noteq> []" by auto
  moreover have "cl_conn (client_at sc s) = None \<and> connDials (client_at sc s) = 0 \<and>
        maxRequestDuration (client_at sc s) = MaxRequestDuration ?n \<and>
        buildShardMetrics (client_addrs cfg ! fst s) = Some (metricGroups (client_at sc s))"
    if "s \<in> set (slots sc)" for s
  proof -
    have "fst s < length (client_addrs cfg)" "snd s < length (cg_clients (?g (client_addrs cfg ! fst s)))"
      using that slots_iff [of "fst s" "snd s" sc] by (auto simp: sc(2))
    then have "client_at sc s \<in> set (cg_clients (?g (client_addrs cfg ! fst s)))"
      by (simp add: client_at_def sc(2))
    from new_group_fields(4) [OF this] show ?thesis by simp
  qed
  ultimately show ?thesis
    using sc newClient_ok [OF sc(1)] g(1) len by (simp add: comp_def)
qed

text \<open>
  C9. The load is spread evenly over every connection of every address: for a new client with
  \<open>n\<close> connections in all, any \<open>c * n\<close> consecutive calls use each connection exactly \<open>c\<close> times,
  although the two round robins, over the groups and inside each group, count separately.
\<close>

theorem calls_spread_evenly:
  assumes "newClient lookup cfg tls = Some sc" "s \<in> set (slots sc)" "c * length (slots sc) < 2 ^ 64"
  shows "count_list (picks next_slot (c * length (slots sc)) sc) s = c"
proof -
  let ?G = "length (sh_clients sc)" and ?C = "nat (MaximumSimultaneousConnections (normalizeConfiguration cfg))"
  obtain g i where s: "s = (g, i)" "g < ?G" "i < length (cg_clients (sh_clients sc ! g))"
    using assms(2) slots_iff [of "fst s" "snd s" sc] by (metis prod.collapse)
  note ok = newClient_ok [OF assms(1)]
  have layout: "sh_roundRobin sc = 0" "\<forall>g \<in> set (sh_clients sc). length (cg_clients g) = ?C \<and> cg_roundRobin g = 0"
    using newClient_groups [of lookup cfg tls] assms(1) by (auto simp: new_group_fields)
  then have len: "length (slots sc) = ?C * ?G" by (intro length_slots) auto
  have grp: "length (cg_clients (sh_clients sc ! g)) = ?C" "cg_roundRobin (sh_clients sc ! g) = 0"
    using layout(2) s(2) by auto
  have bounds: "c * ?C * ?G < 2 ^ 64" using assms(3) by (simp add: len mult.assoc)
  moreover have "c * ?C \<le> c * ?C * ?G" using s(2) by simp
  ultimately have b: "Suc (c * ?C * ?G) \<le> 2 ^ 64" "Suc (c * ?C) \<le> 2 ^ 64" by linarith+
  have "count_list (picks (\<lambda>sc. the (getGroup sc)) (c * ?C * ?G) sc) g = c * ?C"
    using groups.fair [of sc g "c * ?C"] s(2) b(1) by (cases "sh_clients sc = []") (simp_all add: layout(1))
  then have "count_list (picks next_slot (c * ?C * ?G) sc) s =
      count_list (picks (\<lambda>g. the (getClient g)) (c * ?C) (sh_clients sc ! g)) i"
    using clients_picked [OF ok s(2)] by (simp add: s(1) count_list_pair)
  also have "\<dots> = c"
    using clients.fair [of "sh_clients sc ! g" i c] s(3) b(2)
    by (cases "cg_clients (sh_clients sc ! g) = []") (simp_all add: grp)
  finally show ?thesis by (simp add: len mult.assoc)
qed

theorem calls_spread_evenly_witness:
  "\<exists>sc. newClient sample_lookup None () = Some sc \<and> count_list (picks next_slot (3 * length (slots sc)) sc) (0, 5) = 3"
proof -
  obtain sc where sc: "newClient sample_lookup None () = Some sc" "sh_clients sc =
      map (\<lambda>a. the (new_group sample_lookup (normalizeConfiguration None) () a)) (client_addrs None)"
    using newClient_groups [of sample_lookup None "()"] by blast
  have n: "MaximumSimultaneousConnections (normalizeConfiguration None) = 128" by code_simp
  have a: "client_addrs None = [defaultCloudAddr]" by code_simp
  have "length (cg_clients (sh_clients sc ! 0)) = 128" "length (sh_clients sc) = 1"
    using new_group_built [of sample_lookup "normalizeConfiguration None" "()" defaultCloudAddr]
    by (auto simp: sc(2) a n)
  then have "(0, 5) \<in> set (slots sc)" "length (slots sc) = 128"
    by (simp_all add: slots_iff slots_def)
  with calls_spread_evenly [OF sc(1), of "(0, 5)" 3] sc(1) show ?thesis by simp
qed


text \<open>
  A call that fails before anything is sent: only the round robins may have moved.
\<close>

definition not_sent :: "'n world \<Rightarrow> 'tls sharded_client \<times> 'n world \<times> 'r option \<times> int32 \<times> go_error option \<Rightarrow> bool" where
  "not_sent w res \<longleftrightarrow> (\<exists>sc' err. res = (sc', w, None, RPC_UNKNOWN, Some err))"

definition marshalled_call :: "'n ext \<Rightarrow> call \<Rightarrow> RPCRegister \<Rightarrow> bytes result \<Rightarrow> (bytes \<Rightarrow> 'r result) \<Rightarrow>
    'tls sharded_client \<Rightarrow> 'n world \<Rightarrow>
    'tls sharded_client \<times> 'n world \<times> 'r option \<times> int32 \<times> go_error option \<Rightarrow> bool" where
  "marshalled_call X k reqn raw un sc w res \<longleftrightarrow>
     client_ok (fst res) \<and>
     (case raw of
        Inl _ \<Rightarrow> not_sent w res
      | Inr bs \<Rightarrow> if bs = [] then not_sent w res else one_exchange X k reqn bs un sc w res)"

lemma one_exchange_stores:
  assumes "one_exchange X k reqn raw un sc w res"
  shows "w_match (fst (snd res)) = w_match w \<and> w_report (fst (snd res)) = w_report w"
proof -
  obtain sc' w' m st err where r: "res = (sc', w', m, st, err)" by (cases res) auto
  from assms have "w_match w' = w_match w" "w_report w' = w_report w"
    unfolding one_exchange_def r prod.case by blast+
  with r show ?thesis by simp
qed

lemma call_picked_total:
  assumes "client_ok sc" "pools_ok w" "reqn \<in> {Target, Report, Touch}"
  shows "\<exists>res. call_picked X k raw un reqn sc w = Some res \<and> marshalled_call X k reqn raw un sc w res"
proof (cases "\<exists>bs. raw = Inr bs \<and> bs \<noteq> []")
  case True
  then obtain bs where "raw = Inr bs" "bs \<noteq> []" by blast
  with call_picked_sent [OF assms, of bs X k un] show ?thesis by (auto simp: marshalled_call_def)
next
  case False
  then have "(\<exists>e. raw = Inl e) \<or> raw = Inr []" by (cases raw) auto
  then obtain e where e: "raw = Inl e \<or> raw = Inr []" by blast
  from call_picked_local [OF assms(1) e, of X k un reqn w] e show ?thesis
    by (auto simp: marshalled_call_def not_sent_def)
qed

lemma pools_ok_stores [simp]:
  "pools_ok (w\<lparr>w_match := h\<rparr>) = pools_ok w" "pools_ok (w\<lparr>w_report := g\<rparr>) = pools_ok w"
  by (simp_all add: pools_ok_def)

text \<open>
  C27. \<open>Target\<close>, from the caller's request to the wire. It never panics and leaves a client that
  can be called again. If the match rules cannot be stamped the result is INVALID_REQUEST with
  the stamping's error, no connection is picked, and network, metrics and pools are untouched.
  Otherwise the bytes sent are those of the request with its stamped rules, over the connection
  the round robins pick, and the answer decides the result; what does not marshal is not sent.
\<close>

theorem target_call:
  assumes "client_ok sc" "pools_ok w"
    and "applyMatchRulePayers (uuid_parse X) (uuid_string X) (TargetRequest_GetMatch req) uuid_Nil (w_match w) = (h, perr)"
  shows "\<exists>res. Sharded_Target X k req sc w = Some res \<and>
    (case perr of
       Some e \<Rightarrow> res = (sc, w\<lparr>w_match := h\<rparr>, None, RPC_INVALID_REQUEST, Some e)
     | None \<Rightarrow> marshalled_call X k Target (marshal_target X (deref_target h req)) (unmarshal_target X)
                 sc (w\<lparr>w_match := h\<rparr>) res)"
  using call_picked_total [of sc "w\<lparr>w_match := h\<rparr>" Target X k "marshal_target X (deref_target h req)"
      "unmarshal_target X"] assms
  by (cases perr) (simp_all add: Sharded_Target_def)

definition sample_sharded :: "unit sharded_client" where
  "sample_sharded = the (newClient sample_lookup None ())"

lemma sample_client_ok: "client_ok sample_sharded"
  using newClient_groups [of sample_lookup None "()"] newClient_ok [of sample_lookup None "()" sample_sharded]
  by (auto simp: sample_sharded_def)

definition sample_target :: "addr option target_request" where
  "sample_target = \<lparr>TargetRequest_Uids = [], TargetRequest_Frequency = [], TargetRequest_Match = [Some 0],
     TargetRequest_IndividualErrors = False, TargetRequest_Context = None, TargetRequest_Inventory = None\<rparr>"

lemma sample_ext_fields [simp]:
  "marshal_target sample_ext t = Inr [1]" "marshal_report sample_ext r = Inr [2]"
  "marshal_touch sample_ext u = Inr [3]" "uuid_string sample_ext = sample_uuid_string"
  "sample_world\<lparr>w_match := sample_match\<rparr> = sample_world"
  by (simp_all add: sample_ext_def sample_world_def)

lemma sample_target_stamps:
  "applyMatchRulePayers (uuid_parse sample_ext) (uuid_string sample_ext) (TargetRequest_GetMatch (Some sample_target))
     uuid_Nil (w_match sample_world) = (sample_match, None)"
  by (simp add: applyMatchRulePayers_def sample_ext_def sample_world_def sample_target_def getters
      sample_match_def resolveRulePayer_def uuid_Nil_def sample_uuid_simps match_set_payer_def fun_eq_iff)

theorem target_call_witness:
  "\<exists>res. Sharded_Target sample_ext sample_call (Some sample_target) sample_sharded sample_world = Some res \<and>
     one_exchange sample_ext sample_call Target [1] (unmarshal_target sample_ext) sample_sharded sample_world res"
  using target_call [OF sample_client_ok sample_pools_ok sample_target_stamps, of sample_call]
  by (auto simp: marshalled_call_def)

text \<open>A Report past its first two checks, under the payer \<open>u\<close> it names.\<close>

lemma report_stamped:
  assumes "client_ok sc" "pools_ok w" "ReportRequest_TrackingId req \<noteq> None"
    and "resolveRequestPayer (uuid_parse X) (ReportRequest_Payer req) = Inr u"
    and "applyReportRulePayers (uuid_parse X) (uuid_string X) (ReportRequest_Rules req) u (w_report w) = (h, perr)"
    and "req' = req\<lparr>ReportRequest_Payer := uuid_string X u\<rparr>"
  shows "\<exists>sc' w' st err. Sharded_Report X k (Some req) sc w = Some (sc', w', req', st, err) \<and> client_ok sc' \<and>
    (case perr of
       Some e \<Rightarrow> (sc', w', st, err) = (sc, w\<lparr>w_report := h\<rparr>, RPC_INVALID_REQUEST, Some e)
     | None \<Rightarrow> \<exists>m. marshalled_call X k Report (marshal_report X (deref_report h req')) (\<lambda>_. Inr ())
                 sc (w\<lparr>w_report := h\<rparr>) (sc', w', m, st, err))"
proof (cases perr)
  case (Some e)
  then have "Sharded_Report X k (Some req) sc w = Some (sc, w\<lparr>w_report := h\<rparr>, req', RPC_INVALID_REQUEST, Some e)"
    using assms(3-6) by (auto simp: Sharded_Report_def applyPayers_def getters Let_def)
  with Some assms(1) show ?thesis by simp
next
  case None
  obtain sc' w' m s err where r: "call_picked X k (marshal_report X (deref_report h req')) (\<lambda>_. Inr ()) Report sc
      (w\<lparr>w_report := h\<rparr>) = Some (sc', w', m, s, err)"
    and m: "marshalled_call X k Report (marshal_report X (deref_report h req')) (\<lambda>_. Inr ()) sc (w\<lparr>w_report := h\<rparr>)
      (sc', w', m, s, err)"
    using call_picked_total [of sc "w\<lparr>w_report := h\<rparr>" Report X k "marshal_report X (deref_report h req')" "\<lambda>_. Inr ()"]
      assms(1,2) by fastforce
  have "Sharded_Report X k (Some req) sc w = Some (sc', w', req', s, err)"
    using assms(3-6) None r by (auto simp: Sharded_Report_def applyPayers_def getters Let_def)
  moreover have "client_ok sc'" using m by (simp add: marshalled_call_def)
  ultimately show ?thesis using None m by auto
qed

text \<open>
  C4. \<open>Report\<close>, from the caller's request to the wire. Without a tracking id it is refused before
  anything else; without a valid payer of its own it is INVALID_REQUEST and nothing has changed.
  With payer \<open>u\<close> the request's payer becomes the text of \<open>u\<close>, even when a rule then fails to
  stamp; once all rules are stamped under \<open>u\<close>, the bytes sent are those of that request with
  the stamped rules, over the connection the round robins pick.
\<close>

theorem report_call:
  assumes "client_ok sc" "pools_ok w"
  shows "\<exists>sc' w' req' st err. Sharded_Report X k (Some req) sc w = Some (sc', w', req', st, err) \<and> client_ok sc' \<and>
    (if ReportRequest_TrackingId req = None
     then (sc', w', req', st) = (sc, w, req, RPC_UNKNOWN) \<and> err \<noteq> None
     else if \<forall>u. \<not> names_payer (uuid_parse X) (ReportRequest_Payer req) u
     then (sc', w', req', st) = (sc, w, req, RPC_INVALID_REQUEST) \<and> err \<noteq> None
     else \<exists>u h perr. names_payer (uuid_parse X) (ReportRequest_Payer req) u \<and>
       req' = req\<lparr>ReportRequest_Payer := uuid_string X u\<rparr> \<and>
       applyReportRulePayers (uuid_parse X) (uuid_string X) (ReportRequest_Rules req) u (w_report w) = (h, perr) \<and>
       (case perr of
          Some e \<Rightarrow> (sc', w', st, err) = (sc, w\<lparr>w_report := h\<rparr>, RPC_INVALID_REQUEST, Some e)
        | None \<Rightarrow> \<exists>m. marshalled_call X k Report (marshal_report X (deref_report h req')) (\<lambda>_. Inr ())
                    sc (w\<lparr>w_report := h\<rparr>) (sc', w', m, st, err)))"
proof (cases "ReportRequest_TrackingId req = None")
  case True
  then show ?thesis using assms(1) by (simp add: Sharded_Report_def)
next
  case tracked: False
  show ?thesis
  proof (cases "resolveRequestPayer (uuid_parse X) (ReportRequest_Payer req)")
    case (Inl e)
    then have "\<forall>u. \<not> names_payer (uuid_parse X) (ReportRequest_Payer req) u"
      by (metis Inl_Inr_False resolveRequestPayer_Inr)
    with tracked Inl assms(1) show ?thesis
      by (auto simp: Sharded_Report_def applyPayers_def getters)
  next
    case (Inr u)
    then have u: "names_payer (uuid_parse X) (ReportRequest_Payer req) u"
      by (simp add: resolveRequestPayer_Inr)
    obtain h perr where st: "applyReportRulePayers (uuid_parse X) (uuid_string X) (ReportRequest_Rules req) u
        (w_report w) = (h, perr)" by fastforce
    have ne: "(\<forall>u. \<not> names_payer (uuid_parse X) (ReportRequest_Payer req) u) = False"
      using u by blast
    from report_stamped [OF assms tracked Inr st refl, of k] show ?thesis
      unfolding ne if_False using tracked u st by (elim exE conjE) (intro exI conjI, assumption+, auto)
  qed
qed

theorem report_call_witness:
  "\<exists>sc' w' req' st err. Sharded_Report sample_ext sample_call
     (Some \<lparr>ReportRequest_Payer = sample_uuid_string 9, ReportRequest_TrackingId = Some [1], ReportRequest_Event = 0,
        ReportRequest_Rules = [Some 0, Some 1]\<rparr>) sample_sharded sample_world = Some (sc', w', req', st, err) \<and>
     ReportRequest_Payer req' = sample_uuid_string 9"
proof -
  have "names_payer (uuid_parse sample_ext) (sample_uuid_string 9) u \<longleftrightarrow> u = 9" for u
    by (auto simp: names_payer_def sample_ext_def sample_uuid_simps uuid_Nil_def)
  then show ?thesis
    using report_call [OF sample_client_ok sample_pools_ok, of sample_ext sample_call
      "\<lparr>ReportRequest_Payer = sample_uuid_string 9, ReportRequest_TrackingId = Some [1], ReportRequest_Event = 0,
        ReportRequest_Rules = [Some 0, Some 1]\<rparr>"]
    by fastforce
qed

text \<open>
  \<open>Touch\<close> bills nobody: it never panics, leaves every rule of every request as it is, and
  sends the request as the caller wrote it.
\<close>

lemma touch_call:
  assumes "client_ok sc" "pools_ok w"
  shows "\<exists>res. Sharded_Touch X k req sc w = Some res \<and>
    marshalled_call X k Touch (marshal_touch X req) (unmarshal_touch X) sc w res \<and>
    w_match (fst (snd res)) = w_match w \<and> w_report (fst (snd res)) = w_report w"
proof -
  obtain res where r: "Sharded_Touch X k req sc w = Some res"
    "marshalled_call X k Touch (marshal_touch X req) (unmarshal_touch X) sc w res"
    using call_picked_total [of sc w Touch X k "marshal_touch X req" "unmarshal_touch X"] assms
    by (auto simp: Sharded_Touch_def)
  then have "w_match (fst (snd res)) = w_match w \<and> w_report (fst (snd res)) = w_report w"
    using one_exchange_stores [of X k Touch _ "unmarshal_touch X" sc w res]
    by (auto simp: marshalled_call_def not_sent_def split: sum.splits if_splits)
  with r show ?thesis by blast
qed


section \<open>Lemmas: reconnecting\<close>

lemma those_map_Some:
  "\<forall>x \<in> set xs. f x = Some (h x) \<Longrightarrow> those (map f xs) = Some (map h xs)"
  by (induction xs) auto

lemma reconnect_closes:
  assumes "\<And>i. 1 \<le> i \<Longrightarrow> clock i + poll_sleep \<le> clock (Suc i)"
  shows "\<exists>c'. reconnect force wait pending clock interim c = Some (cl_conn c, c') \<and>
    (cl_conn c \<noteq> None \<longrightarrow> cl_conn c' \<noteq> cl_conn c)"
proof (cases "cl_conn c")
  case None
  then show ?thesis by (simp add: reconnect_def)
next
  case (Some conn)
  obtain j where "wait_idle pending clock (clock 0 + wait) 1 = Some j"
    using wait_idle_returns [of clock 1 pending "clock 0 + wait", OF assms] by auto
  with Some show ?thesis by (auto simp: reconnect_def Let_def)
qed

text \<open>
  \<open>Reconnect\<close> returns for all clients, whatever their requests in flight and dial hooks do
  meanwhile, having closed exactly the connections they were serving on when it looked.
\<close>

lemma reconnect_closes_all:
  assumes "\<forall>s \<in> set (slots sc). \<forall>i \<ge> 1. fst (snd (env s)) i + poll_sleep \<le> fst (snd (env s)) (Suc i)"
  shows "\<exists>rs. reconnect_all force env sc = Some rs \<and> map fst rs = slots sc \<and>
    (\<forall>(s, closed, c') \<in> set rs. closed = cl_conn (client_at sc s) \<and> (closed \<noteq> None \<longrightarrow> cl_conn c' \<noteq> closed))"
proof -
  define f where "f s = (case env s of (pending, clock, interim) \<Rightarrow>
      map_option (Pair s) (reconnect force (MaxRequestDuration (sh_Configuration sc)) pending clock interim (client_at sc s)))" for s
  have "\<exists>c'. f s = Some (s, cl_conn (client_at sc s), c') \<and>
      (cl_conn (client_at sc s) \<noteq> None \<longrightarrow> cl_conn c' \<noteq> cl_conn (client_at sc s))" if s: "s \<in> set (slots sc)" for s
  proof -
    obtain pending clock interim where e: "env s = (pending, clock, interim)" using prod_cases3 by blast
    have tick: "1 \<le> i \<Longrightarrow> clock i + poll_sleep \<le> clock (Suc i)" for i
      using bspec [OF assms s] e by simp
    obtain c' where "reconnect force (MaxRequestDuration (sh_Configuration sc)) pending clock interim
        (client_at sc s) = Some (cl_conn (client_at sc s), c')"
      "cl_conn (client_at sc s) \<noteq> None \<longrightarrow> cl_conn c' \<noteq> cl_conn (client_at sc s)"
      using reconnect_closes [of clock force "MaxRequestDuration (sh_Configuration sc)" pending interim
          "client_at sc s", OF tick] by blast
    with e show ?thesis by (simp add: f_def)
  qed
  then obtain g where g: "\<forall>s \<in> set (slots sc). f s = Some (s, cl_conn (client_at sc s), g s) \<and>
      (cl_conn (client_at sc s) \<noteq> None \<longrightarrow> cl_conn (g s) \<noteq> cl_conn (client_at sc s))"
    by metis
  then have "those (map f (slots sc)) = Some (map (\<lambda>s. (s, cl_conn (client_at sc s), g s)) (slots sc))"
    by (intro those_map_Some) blast
  moreover have "reconnect_all force env sc = those (map f (slots sc))"
    by (simp add: reconnect_all_def f_def [abs_def])
  ultimately show ?thesis using g by (auto simp: comp_def)
qed

end
