(* ===== verification/Mtls.thy ===== *)
theory Mtls
  imports Sharded
begin

text \<open>
  \<^verbatim>\<open>pkg/client/mtls.go\<close> and the state of \<^verbatim>\<open>pkg/client/certprovider.go\<close>: loading
  and checking a client certificate, the embedded CA chain, the server name, the provider that
  serves the current certificate to every new connection, and the construction of a client.

  X.509, PEM and the \<^verbatim>\<open>mtls.CheckTLS\<close> policy are libraries: the record \<open>pki\<close> holds the
  functions the code calls. Certificate pools are shared by reference, so they live in a store
  from pool identifiers to certificates: a \<open>Clone\<close> is a new pool, an \<open>AddCert\<close> writes one.
\<close>

section \<open>Libraries and data\<close>

record x509_cert =
  NotBefore :: int
  NotAfter :: int
  SerialNumber :: int
  Raw :: bytes

text \<open>The certificates of a \<^verbatim>\<open>tls.Certificate\<close> in DER, and its parsed leaf.\<close>

record tls_certificate =
  Certificate :: "bytes list"
  Leaf :: x509_cert

type_synonym pool = nat
type_synonym pools = "x509_cert list list"

record pki =
  X509KeyPair :: "bytes \<Rightarrow> bytes \<Rightarrow> bytes list result"
  ParseCertificate :: "bytes \<Rightarrow> x509_cert result"
  CheckTLS :: "x509_cert \<Rightarrow> x509_cert list \<Rightarrow> x509_cert list \<Rightarrow> int \<Rightarrow> go_error option"
  self_signed :: "x509_cert \<Rightarrow> bool"

definition AddCert :: "pool \<Rightarrow> x509_cert \<Rightarrow> pools \<Rightarrow> pools" where
  "AddCert p c ps = (if c \<in> set (ps ! p) then ps else ps[p := ps ! p @ [c]])"

definition Clone :: "pool \<Rightarrow> pools \<Rightarrow> pool \<times> pools" where
  "Clone p ps = (length ps, ps @ [ps ! p])"

text \<open>
  \<open>myGaruCAs\<close>: the blocks \<^verbatim>\<open>pem.Decode\<close> yields of the embedded chain, one after the other,
  sorted into roots and intermediates; an unreadable one panics.
\<close>

fun split_cas :: "pki \<Rightarrow> bytes list \<Rightarrow> x509_cert list \<times> x509_cert list \<Rightarrow> (x509_cert list \<times> x509_cert list) option" where
  "split_cas K [] cas = Some cas"
| "split_cas K (block # blocks) (roots, intermediates) =
     (case ParseCertificate K block of
        Inl _ \<Rightarrow> None
      | Inr cert \<Rightarrow>
          split_cas K blocks
            (if self_signed K cert then (List.insert cert roots, intermediates)
             else (roots, List.insert cert intermediates)))"

text \<open>The two default pools; a nil pool of the configuration is \<open>None\<close>.\<close>

record cas =
  cas_roots :: pool
  cas_intermediates :: pool

record cert_check =
  roots :: pool
  intermediates :: pool
  currentTime :: "int option"

record mtls_config =
  CertPEM :: bytes
  KeyPEM :: bytes
  ServerRootCAs :: "pool option"
  ServerName :: string
  MinVersion :: "16 word"
  ClientCertRoots :: "pool option"
  ClientCertIntermediates :: "pool option"
  CurrentTime :: "int option"
  has_OnRenewed :: bool
  RenewBefore :: int
  RenewCheckInterval :: int
  CAURL :: string

definition newCertCheck :: "cas \<Rightarrow> mtls_config \<Rightarrow> cert_check" where
  "newCertCheck myGaruCAs cfg =
     \<lparr>roots = (case ClientCertRoots cfg of Some p \<Rightarrow> p | None \<Rightarrow> cas_roots myGaruCAs),
      intermediates = (case ClientCertIntermediates cfg of Some p \<Rightarrow> p | None \<Rightarrow> cas_intermediates myGaruCAs),
      currentTime = CurrentTime cfg\<rparr>"

section \<open>certCheck.load\<close>

fun add_intermediates :: "pki \<Rightarrow> pool \<Rightarrow> bytes list \<Rightarrow> pools \<Rightarrow> pools \<times> go_error option" where
  "add_intermediates K p [] ps = (ps, None)"
| "add_intermediates K p (der # ders) ps =
     (case ParseCertificate K der of
        Inl err \<Rightarrow> (ps, Some (Errorf ''parse mTLS intermediate certificate: %w'' [AWrap err]))
      | Inr cert \<Rightarrow> add_intermediates K p ders (AddCert p cert ps))"

text \<open>\<open>clk\<close> is the clock \<^verbatim>\<open>mtls.CheckTLS\<close> reads when no time is configured.\<close>

definition load_pair :: "pki \<Rightarrow> int \<Rightarrow> cert_check \<Rightarrow> bytes \<Rightarrow> bytes \<Rightarrow> pools \<Rightarrow> pools \<times> tls_certificate result" where
  "load_pair K clk check certPEM keyPEM ps =
     (case X509KeyPair K certPEM keyPEM of
        Inl err \<Rightarrow> (ps, Inl (Errorf ''parse mTLS client certificate: %w'' [AWrap err]))
      | Inr [] \<Rightarrow> (ps, Inl (Errorf ''mTLS client certificate is empty'' []))
      | Inr (leafDER # chain) \<Rightarrow>
         (case ParseCertificate K leafDER of
            Inl err \<Rightarrow> (ps, Inl (Errorf ''parse mTLS leaf certificate: %w'' [AWrap err]))
          | Inr leaf \<Rightarrow>
             (let (inter, ps1, err1) =
                    (if chain = [] then (intermediates check, ps, None)
                     else let (p, ps') = Clone (intermediates check) ps;
                              (ps'', err) = add_intermediates K p chain ps'
                          in (p, ps'', err))
              in case err1 of
                   Some err \<Rightarrow> (ps1, Inl err)
                 | None \<Rightarrow>
                    (case CheckTLS K leaf (ps1 ! roots check) (ps1 ! inter)
                            (case currentTime check of Some t \<Rightarrow> t | None \<Rightarrow> clk) of
                       Some err \<Rightarrow> (ps1, Inl (Errorf ''validate mTLS client certificate: %w'' [AWrap err]))
                     | None \<Rightarrow> (ps1, Inr \<lparr>Certificate = leafDER # chain, Leaf = leaf\<rparr>)))))"

section \<open>The server name\<close>

definition host_of :: "string \<Rightarrow> string" where
  "host_of ad = (case SplitHostPort ad of Inl _ \<Rightarrow> ad | Inr (host, _) \<Rightarrow> host)"

fun infer_name :: "string \<Rightarrow> string list \<Rightarrow> string result" where
  "infer_name name [] = Inr name"
| "infer_name name (ad # addrs) =
     (let ad = TrimSpace ad in
      if ad = '''' then infer_name name addrs
      else let host = host_of ad in
        if host = '''' then infer_name name addrs
        else if name = '''' then infer_name host addrs
        else if host \<noteq> name then
          Inl (Errorf (''MTLSConfig.ServerName is empty and cannot be inferred: '' @
            ''Addrs names more than one host (%q and %q), so set it to the name the '' @
            ''server certificate is issued for'') [AStr name, AStr host])
        else infer_name name addrs)"

definition resolveServerName :: "string \<Rightarrow> configuration option \<Rightarrow> string result" where
  "resolveServerName configured cfg =
     (if configured \<noteq> '''' then Inr configured
      else let addrs = Addrs (normalizeConfiguration cfg) in
        case infer_name '''' (split_on (CHR '','') addrs) of
          Inl err \<Rightarrow> Inl err
        | Inr name \<Rightarrow>
           (if name = '''' then
              Inl (Errorf (''MTLSConfig.ServerName is empty and cannot be inferred from Addrs %q: '' @
                ''set it to the name the server certificate is issued for'') [AStr addrs])
            else Inr name))"

section \<open>The certificate provider\<close>

record provided_cert =
  pc_cert :: tls_certificate
  pc_certPEM :: bytes

record cert_provider =
  cp_check :: cert_check
  cp_current :: "provided_cert option"
  cp_pollInterval :: int

definition Update :: "pki \<Rightarrow> int \<Rightarrow> bytes \<Rightarrow> bytes \<Rightarrow> cert_provider \<times> pools \<Rightarrow>
    (cert_provider \<times> pools) \<times> go_error option" where
  "Update K clk certPEM keyPEM = (\<lambda>(p, ps).
     (case load_pair K clk (cp_check p) certPEM keyPEM ps of
        (ps', Inl err) \<Rightarrow> ((p, ps'), Some err)
      | (ps', Inr cert) \<Rightarrow>
          ((p\<lparr>cp_current := Some \<lparr>pc_cert = cert, pc_certPEM = certPEM\<rparr>\<rparr>, ps'), None)))"

definition newCertProvider :: "pki \<Rightarrow> cas \<Rightarrow> int \<Rightarrow> mtls_config \<Rightarrow> pools \<Rightarrow> pools \<times> cert_provider result" where
  "newCertProvider K myGaruCAs clk cfg ps =
     (case Update K clk (CertPEM cfg) (KeyPEM cfg)
             (\<lparr>cp_check = newCertCheck myGaruCAs cfg, cp_current = None, cp_pollInterval = 0\<rparr>, ps) of
        ((p, ps'), Some err) \<Rightarrow> (ps', Inl err)
      | ((p, ps'), None) \<Rightarrow> (ps', Inr p))"

text \<open>Reading an unset certificate dereferences nil: \<open>None\<close>.\<close>

definition GetClientCertificate :: "cert_provider \<Rightarrow> tls_certificate option" where
  "GetClientCertificate p = map_option pc_cert (cp_current p)"

definition Provider_Leaf :: "cert_provider \<Rightarrow> x509_cert option" where
  "Provider_Leaf p = map_option (\<lambda>pc. tls_certificate.Leaf (pc_cert pc)) (cp_current p)"

definition Provider_CertPEM :: "cert_provider \<Rightarrow> bytes option" where
  "Provider_CertPEM p = map_option pc_certPEM (cp_current p)"

section \<open>Automatic renewal: what is asked for\<close>

record auto_renewer =
  ar_before :: int
  ar_every :: int
  ar_caURL :: string

definition defaultRenewBefore :: int where "defaultRenewBefore = 7 * 24 * 3600 * 10 ^ 9"
definition defaultRenewCheckInterval :: int where "defaultRenewCheckInterval = 12 * 3600 * 10 ^ 9"

definition newAutoRenewer :: "mtls_config \<Rightarrow> auto_renewer option" where
  "newAutoRenewer cfg =
     (if \<not> has_OnRenewed cfg \<or> RenewBefore cfg < 0 then None
      else Some \<lparr>ar_before = (if RenewBefore cfg = 0 then defaultRenewBefore else RenewBefore cfg),
                 ar_every = (if RenewCheckInterval cfg \<le> 0 then defaultRenewCheckInterval
                             else RenewCheckInterval cfg),
                 ar_caURL = CAURL cfg\<rparr>)"

section \<open>NewWithMTLS\<close>

text \<open>
  The TLS configuration of every connection. Its client certificate is asked of the provider
  on every handshake, so only the server side is data here.
\<close>

record tls_config =
  tls_RootCAs :: "pool option"
  tls_ServerName :: string
  tls_MinVersion :: "16 word"

definition VersionTLS12 :: "16 word" where "VersionTLS12 = 0x0303"

text \<open>The client, its provider and its renewer; a panic of \<open>newClient\<close> is \<open>None\<close>.\<close>

definition NewWithMTLS :: "pki \<Rightarrow> cas \<Rightarrow> (string \<Rightarrow> ip list result) \<Rightarrow> int \<Rightarrow> configuration option \<Rightarrow> mtls_config \<Rightarrow>
    pools \<Rightarrow> (pools \<times> (tls_config sharded_client \<times> cert_provider \<times> auto_renewer option) result) option" where
  "NewWithMTLS K myGaruCAs lookup clk cfg mtlsCfg ps =
     (case newCertProvider K myGaruCAs clk mtlsCfg ps of
        (ps', Inl err) \<Rightarrow> Some (ps', Inl err)
      | (ps', Inr provider) \<Rightarrow>
         (let minVersion = (if MinVersion mtlsCfg = 0 then VersionTLS12 else MinVersion mtlsCfg) in
          case resolveServerName (ServerName mtlsCfg) cfg of
            Inl err \<Rightarrow> Some (ps', Inl err)
          | Inr serverName \<Rightarrow>
              map_option (\<lambda>sc. (ps', Inr (sc, provider, newAutoRenewer mtlsCfg)))
                (newClient lookup cfg
                   \<lparr>tls_RootCAs = ServerRootCAs mtlsCfg, tls_ServerName = serverName,
                    tls_MinVersion = minVersion\<rparr>)))"

section \<open>Lemmas\<close>

lemma AddCert_other: "i \<noteq> p \<Longrightarrow> AddCert p c ps ! i = ps ! i"
  by (simp add: AddCert_def)

lemma length_AddCert [simp]: "length (AddCert p c ps) = length ps"
  by (simp add: AddCert_def)

lemma AddCert_set: "p < length ps \<Longrightarrow> set (AddCert p c ps ! p) = insert c (set (ps ! p))"
  by (auto simp: AddCert_def)

text \<open>Adding to one pool leaves the others; without error it has added every certificate.\<close>

lemma add_intermediates_effect:
  assumes "add_intermediates K p ders ps = (ps', err)" "p < length ps"
  shows "length ps' = length ps \<and> (\<forall>i. i \<noteq> p \<longrightarrow> ps' ! i = ps ! i) \<and>
    (err = None \<longrightarrow> (\<exists>cs. map (ParseCertificate K) ders = map Inr cs \<and>
       set (ps' ! p) = set (ps ! p) \<union> set cs))"
  using assms
proof (induction ders arbitrary: ps)
  case (Cons der ders)
  show ?case
  proof (cases "ParseCertificate K der")
    case (Inl e)
    with Cons.prems show ?thesis by auto
  next
    case (Inr cert)
    with Cons.IH [of "AddCert p cert ps"] Cons.prems
    have ih: "length ps' = length ps \<and> (\<forall>i. i \<noteq> p \<longrightarrow> ps' ! i = ps ! i) \<and>
      (err = None \<longrightarrow> (\<exists>cs. map (ParseCertificate K) ders = map Inr cs \<and>
         set (ps' ! p) = insert cert (set (ps ! p)) \<union> set cs))"
      by (simp add: AddCert_other AddCert_set)
    have "\<exists>cs. map (ParseCertificate K) (der # ders) = map Inr cs \<and> set (ps' ! p) = set (ps ! p) \<union> set cs"
      if none: "err = None"
    proof -
      obtain cs where "map (ParseCertificate K) ders = map Inr cs"
          "set (ps' ! p) = insert cert (set (ps ! p)) \<union> set cs"
        using ih none by blast
      with Inr show ?thesis by (intro exI [of _ "cert # cs"]) auto
    qed
    with ih show ?thesis by blast
  qed
qed auto

text \<open>
  What \<open>load\<close> accepts, and what it leaves alone: \<open>accepts\<close> is the check a loaded pair has
  passed, over the pools as they were.
\<close>

definition accepts :: "pki \<Rightarrow> cert_check \<Rightarrow> int \<Rightarrow> pools \<Rightarrow> bytes \<Rightarrow> bytes \<Rightarrow> tls_certificate \<Rightarrow> bool" where
  "accepts K check clk ps certPEM keyPEM cert \<longleftrightarrow>
     (\<exists>leafDER chain cs inter.
        X509KeyPair K certPEM keyPEM = Inr (leafDER # chain) \<and>
        Certificate cert = leafDER # chain \<and>
        ParseCertificate K leafDER = Inr (tls_certificate.Leaf cert) \<and>
        map (ParseCertificate K) chain = map Inr cs \<and>
        set inter = set (ps ! intermediates check) \<union> set cs \<and>
        CheckTLS K (tls_certificate.Leaf cert) (ps ! roots check) inter
          (case currentTime check of Some t \<Rightarrow> t | None \<Rightarrow> clk) = None)"

definition check_ok :: "cert_check \<Rightarrow> pools \<Rightarrow> bool" where
  "check_ok check ps \<longleftrightarrow> roots check < length ps \<and> intermediates check < length ps"

lemma load_pair_effect:
  assumes "load_pair K clk check certPEM keyPEM ps = (ps', r)" "check_ok check ps"
  shows "take (length ps) ps' = ps \<and> (\<forall>cert. r = Inr cert \<longrightarrow> accepts K check clk ps certPEM keyPEM cert)"
proof -
  note bounds = assms(2) [unfolded check_ok_def]
  show ?thesis
  proof (cases "\<exists>leafDER chain leaf. X509KeyPair K certPEM keyPEM = Inr (leafDER # chain) \<and>
      ParseCertificate K leafDER = Inr leaf")
    case False
    with assms(1) show ?thesis by (auto simp: load_pair_def split: sum.splits list.splits)
  next
    case True
    then obtain leafDER chain leaf where x: "X509KeyPair K certPEM keyPEM = Inr (leafDER # chain)"
      "ParseCertificate K leafDER = Inr leaf" by blast
    show ?thesis
    proof (cases "chain = []")
      case True
      with assms(1) x show ?thesis
        by (fastforce simp: load_pair_def accepts_def split: option.splits)
    next
      case False
      let ?ps0 = "ps @ [ps ! intermediates check]" and ?p = "length ps"
      obtain ps1 err where a: "add_intermediates K ?p chain ?ps0 = (ps1, err)" by fastforce
      have e: "length ps1 = Suc ?p" "\<And>i. i < ?p \<Longrightarrow> ps1 ! i = ps ! i"
        "err = None \<Longrightarrow> \<exists>cs. map (ParseCertificate K) chain = map Inr cs \<and>
           set (ps1 ! ?p) = set (ps ! intermediates check) \<union> set cs"
        using add_intermediates_effect [OF a] by (auto simp: nth_append)
      have "take ?p ps1 = ps" using e(1,2) by (intro nth_equalityI) auto
      moreover have "ps' = ps1"
        using assms(1) x False a by (auto simp: load_pair_def Clone_def split: option.splits)
      moreover have "accepts K check clk ps certPEM keyPEM cert" if cert: "r = Inr cert" for cert
      proof -
        have r: "err = None" "cert = \<lparr>Certificate = leafDER # chain, Leaf = leaf\<rparr>"
          "CheckTLS K leaf (ps1 ! roots check) (ps1 ! ?p) (case currentTime check of Some t \<Rightarrow> t | None \<Rightarrow> clk) = None"
          using assms(1) x False a cert by (auto simp: load_pair_def Clone_def split: option.splits)
        with e(2) [of "roots check"] e(3) x bounds show ?thesis by (auto simp: accepts_def)
      qed
      ultimately show ?thesis by simp
    qed
  qed
qed


lemma check_ok_mono: "check_ok check ps \<Longrightarrow> take (length ps) ps' = ps \<Longrightarrow> check_ok check ps'"
  by (metis check_ok_def le_trans length_take min.cobounded1 not_le order_less_le_trans)

section \<open>Lemmas: the server name\<close>

text \<open>The hosts the addresses name, without the empty ones.\<close>

definition named_hosts :: "configuration option \<Rightarrow> string list" where
  "named_hosts cfg = filter (\<lambda>h. h \<noteq> '''') (map host_of (client_addrs cfg))"

lemma infer_name_addr_list:
  "infer_name name (split_on (CHR '','') s) = infer_name name (addr_list s)"
proof -
  have "infer_name name as = infer_name name (filter (\<lambda>a. a \<noteq> '''') (map TrimSpace as))" for as name
    by (induction as arbitrary: name) (simp_all add: Let_def)
  then show ?thesis by (simp add: addr_list_def)
qed

lemma infer_name_result:
  assumes "\<forall>a \<in> set as. a \<noteq> '''' \<and> TrimSpace a = a"
  shows "infer_name name as = Inr n \<longleftrightarrow>
    (let hs = filter (\<lambda>h. h \<noteq> '''') (map host_of as) in
     if name \<noteq> '''' then n = name \<and> set hs \<subseteq> {name}
     else (hs = [] \<and> n = '''') \<or> (hs \<noteq> [] \<and> set hs = {n}))"
  using assms
proof (induction as arbitrary: name)
  case (Cons a as)
  then show ?case
    by (cases "host_of a = ''''"; cases "name = ''''") (auto simp: Let_def subset_singleton_iff filter_empty_conv)
qed (auto simp: Let_def)

section \<open>Properties\<close>

text \<open>
  C32. The server name is never guessed: a configured name is taken as it is; without one, a name
  is found exactly when all addresses that name a host name the same one, and then it is that
  host. In every other case, two different hosts or none at all, building the client fails.
\<close>

theorem server_name_settled:
  "(configured \<noteq> '''' \<longrightarrow> resolveServerName configured cfg = Inr configured) \<and>
   (resolveServerName '''' cfg = Inr n \<longleftrightarrow> n \<noteq> '''' \<and> set (named_hosts cfg) = {n})"
proof -
  have as: "addr_list (Addrs (normalizeConfiguration cfg)) = client_addrs cfg"
    by (simp add: normalizeConfiguration_fields Let_def default_if_def client_addrs_def addr_list_default)
  have "\<forall>a \<in> set (client_addrs cfg). a \<noteq> '''' \<and> TrimSpace a = a"
    using addr_list_members [of _ "Addrs (normalizeConfiguration cfg)"] as by metis
  note i = infer_name_result [OF this, of "''''", unfolded Let_def, folded named_hosts_def]
  have "n \<noteq> ''''" if "set (named_hosts cfg) = {n}" for n
    using that by (auto simp: named_hosts_def)
  then show ?thesis
    using i [of n] i [of "''''"]
    by (auto simp: resolveServerName_def Let_def infer_name_addr_list as split: sum.splits)
qed

theorem server_name_settled_witness:
  "resolveServerName ''x'' None = Inr ''x'' \<and> resolveServerName '''' None = Inr ''cloud.mygaru.com''"
proof -
  have "set (named_hosts None) = {''cloud.mygaru.com''}" by code_simp
  then show ?thesis
    using server_name_settled [of "''x''" None "''cloud.mygaru.com''"] by simp
qed

text \<open>The updates a provider is given, with the clock at each.\<close>

fun updates :: "pki \<Rightarrow> (int \<times> bytes \<times> bytes) list \<Rightarrow> cert_provider \<times> pools \<Rightarrow> cert_provider \<times> pools" where
  "updates K [] s = s"
| "updates K ((clk, c, k) # us) s = updates K us (fst (Update K clk c k s))"

text \<open>The provider serves a certificate that was accepted when one of the updates handed it over.\<close>

definition serves :: "pki \<Rightarrow> cert_check \<Rightarrow> pools \<Rightarrow> (int \<times> bytes \<times> bytes) set \<Rightarrow> cert_provider \<Rightarrow> bool" where
  "serves K check ps U p \<longleftrightarrow> (\<exists>clk certPEM keyPEM cert pools. (clk, certPEM, keyPEM) \<in> U \<and>
      cp_current p = Some \<lparr>pc_cert = cert, pc_certPEM = certPEM\<rparr> \<and> take (length ps) pools = ps \<and>
      accepts K check clk pools certPEM keyPEM cert)"

lemma Update_effect:
  assumes "check_ok (cp_check p) ps" "Update K clk c k (p, ps) = ((p', ps'), err)"
  shows "cp_check p' = cp_check p \<and> take (length ps) ps' = ps \<and>
    (err \<noteq> None \<longrightarrow> p' = p) \<and>
    (err = None \<longrightarrow> (\<exists>cert. cp_current p' = Some \<lparr>pc_cert = cert, pc_certPEM = c\<rparr> \<and>
       accepts K (cp_check p) clk ps c k cert))"
proof -
  obtain ps1 r where l: "load_pair K clk (cp_check p) c k ps = (ps1, r)" by fastforce
  from load_pair_effect [OF l assms(1)] assms(2) l show ?thesis
    by (auto simp: Update_def split: sum.splits)
qed

lemma Update_serves:
  assumes "cp_check p = check" "check_ok check q" "take (length ps) q = ps"
    and "Update K clk c k (p, q) = ((p', q'), e)"
  shows "cp_check p' = check \<and> take (length ps) q' = ps \<and> check_ok check q' \<and>
    (serves K check ps U p \<or> e = None \<longrightarrow> serves K check ps (insert (clk, c, k) U) p')"
proof -
  have chk: "check_ok (cp_check p) q" using assms by simp
  note eff = Update_effect [OF chk assms(4)]
  have le: "length ps \<le> length q" using assms(3) by (metis length_take min.cobounded1 min.commute)
  have "take (length ps) q' = take (length ps) (take (length q) q')" using le by (simp add: min_def)
  then have "take (length ps) q' = ps" using eff assms(3) by simp
  moreover have "check_ok check q'" using eff assms(2) check_ok_mono by blast
  moreover have "serves K check ps (insert (clk, c, k) U) p'" if e: "serves K check ps U p \<or> e = None"
  proof (cases "e = None")
    case True
    then obtain cert where "cp_current p' = Some \<lparr>pc_cert = cert, pc_certPEM = c\<rparr>"
        "accepts K check clk q c k cert" using eff assms(1) by auto
    with assms(3) show ?thesis unfolding serves_def by blast
  next
    case False
    then have "p' = p" "serves K check ps U p" using eff e by auto
    then show ?thesis unfolding serves_def by blast
  qed
  ultimately show ?thesis using eff assms(1) by simp
qed

lemma updates_serve:
  assumes "cp_check p = check" "check_ok check q" "take (length ps) q = ps"
    and "serves K check ps U p" "updates K us (p, q) = (p', q')"
  shows "cp_check p' = check \<and> check_ok check q' \<and> serves K check ps (U \<union> set us) p'"
  using assms
proof (induction us arbitrary: p q U)
  case (Cons u us)
  obtain clk c k where u: "u = (clk, c, k)" by (cases u)
  obtain p1 q1 e where up: "Update K clk c k (p, q) = ((p1, q1), e)" by (metis prod.collapse)
  note one = Update_serves [OF Cons.prems(1-3) up, of U]
  have "cp_check p' = check \<and> check_ok check q' \<and> serves K check ps (insert (clk, c, k) U \<union> set us) p'"
    by (rule Cons.IH [of p1 q1]) (use one Cons.prems(4,5) u up in auto)
  then show ?case by (simp add: u insert_commute)
qed simp

lemma newCertProvider_serves:
  assumes "newCertProvider K myGaruCAs clk cfg ps = (ps0, Inr p0)" "check_ok (newCertCheck myGaruCAs cfg) ps"
  shows "cp_check p0 = newCertCheck myGaruCAs cfg \<and> take (length ps) ps0 = ps \<and>
    check_ok (newCertCheck myGaruCAs cfg) ps0 \<and>
    serves K (newCertCheck myGaruCAs cfg) ps {(clk, CertPEM cfg, KeyPEM cfg)} p0"
proof -
  let ?p = "\<lparr>cp_check = newCertCheck myGaruCAs cfg, cp_current = None, cp_pollInterval = 0\<rparr>"
  have "Update K clk (CertPEM cfg) (KeyPEM cfg) (?p, ps) = ((p0, ps0), None)"
    using assms(1) by (auto simp: newCertProvider_def split: prod.splits option.splits)
  from Update_serves [OF _ assms(2) _ this, of ps "{}"] show ?thesis by simp
qed

text \<open>
  C20. The provider always serves a checked certificate: after any sequence of updates, failing
  ones included, it serves a certificate, its leaf and the PEM it came from, that was accepted
  when it was handed over, at construction or by one of the updates. A further update that
  fails leaves it in place; one that succeeds replaces it by the pair it was given.
\<close>

theorem provider_serves_checked:
  assumes "newCertProvider K myGaruCAs clk0 cfg ps = (ps0, Inr p0)"
    and "check_ok (newCertCheck myGaruCAs cfg) ps"
    and "updates K us (p0, ps0) = (p, ps1)"
  shows "(\<exists>clk certPEM keyPEM cert pools.
      (clk, certPEM, keyPEM) \<in> insert (clk0, CertPEM cfg, KeyPEM cfg) (set us) \<and>
      GetClientCertificate p = Some cert \<and> Provider_CertPEM p = Some certPEM \<and>
      Provider_Leaf p = Some (tls_certificate.Leaf cert) \<and>
      take (length ps) pools = ps \<and> accepts K (newCertCheck myGaruCAs cfg) clk pools certPEM keyPEM cert) \<and>
    (case Update K clk c k (p, ps1) of ((p', _), err) \<Rightarrow>
       if err \<noteq> None then p' = p else Provider_CertPEM p' = Some c)"
proof -
  let ?check = "newCertCheck myGaruCAs cfg" and ?first = "(clk0, CertPEM cfg, KeyPEM cfg)"
  note first = newCertProvider_serves [OF assms(1,2)]
  have end_: "cp_check p = ?check" "check_ok ?check ps1" "serves K ?check ps (insert ?first (set us)) p"
    using updates_serve [OF _ _ _ _ assms(3), of ?check ps "{?first}"] first by auto
  have chk: "check_ok (cp_check p) ps1" using end_ by simp
  obtain p' ps2 err where up: "Update K clk c k (p, ps1) = ((p', ps2), err)" by (metis prod.collapse)
  have "if err \<noteq> None then p' = p else Provider_CertPEM p' = Some c"
    using Update_effect [OF chk up] by (auto simp: Provider_CertPEM_def)
  moreover from end_(3) obtain clk' certPEM keyPEM cert pools where
    "(clk', certPEM, keyPEM) \<in> insert ?first (set us)"
    "cp_current p = Some \<lparr>pc_cert = cert, pc_certPEM = certPEM\<rparr>" "take (length ps) pools = ps"
    "accepts K ?check clk' pools certPEM keyPEM cert" unfolding serves_def by blast
  moreover from this(2) have "GetClientCertificate p = Some cert" "Provider_CertPEM p = Some certPEM"
      "Provider_Leaf p = Some (tls_certificate.Leaf cert)"
    by (simp_all add: GetClientCertificate_def Provider_CertPEM_def Provider_Leaf_def)
  ultimately show ?thesis unfolding up by auto
qed


lemma newClient_tls:
  "newClient lookup cfg tls = Some sc \<Longrightarrow> g \<in> set (sh_clients sc) \<Longrightarrow> fo_TLSConfig (cg_options g) = tls"
  using newClient_groups [of lookup cfg tls] by (auto simp: new_group_def buildShardMetrics_total)

lemma resolveServerName_nonempty: "resolveServerName configured cfg = Inr n \<Longrightarrow> n \<noteq> ''''"
  by (auto simp: resolveServerName_def Let_def split: if_splits sum.splits)

lemma newClient_configured:
  assumes "newClient lookup cfg tls = Some sc"
  shows "client_ok sc \<and> sh_Configuration sc = normalizeConfiguration cfg \<and>
    map (\<lambda>g. fo_Addr (cg_options g)) (sh_clients sc) = client_addrs cfg \<and>
    length (slots sc) = nat (MaximumSimultaneousConnections (normalizeConfiguration cfg)) * length (client_addrs cfg) \<and>
    (\<forall>s \<in> set (slots sc). maxRequestDuration (client_at sc s) = MaxRequestDuration (normalizeConfiguration cfg)) \<and>
    (\<forall>g \<in> set (sh_clients sc). fo_TLSConfig (cg_options g) = tls)"
  using new_client_layout [of lookup cfg tls] newClient_groups [of lookup cfg tls] newClient_ok [OF assms]
    newClient_tls [OF assms] assms by auto

lemma newAutoRenewer_asked:
  "(newAutoRenewer m \<noteq> None \<longleftrightarrow> has_OnRenewed m \<and> 0 \<le> RenewBefore m) \<and>
   (\<forall>r. newAutoRenewer m = Some r \<longrightarrow>
      ar_before r = (if RenewBefore m = 0 then defaultRenewBefore else RenewBefore m) \<and>
      ar_every r = (if RenewCheckInterval m \<le> 0 then defaultRenewCheckInterval else RenewCheckInterval m) \<and>
      ar_caURL r = CAURL m)"
  by (auto simp: newAutoRenewer_def)

text \<open>
  C11. No client without a checked certificate and a server to verify: \<open>NewWithMTLS\<close> never
  panics and leaves the caller's pools alone. It fails only when the certificate does not load
  or the server name cannot be settled, with the error of that. Otherwise the provider serves exactly the configured
  pair, which was accepted. The client is the one \<open>newClient\<close> builds from the caller's
  configuration: it keeps that configuration completed, and has a group for each of its addresses,
  in order, with the configured number of connections and request deadline. Every connection of
  every address verifies the server against a non-empty name (the configured one if there is
  one), with the configured roots and at least a minimum version set. And a renewer exists
  exactly when renewal was asked for, with the window, the interval and the CA asked for.
\<close>

theorem new_with_mtls:
  assumes "check_ok (newCertCheck myGaruCAs m) ps"
  shows "\<exists>ps' r. NewWithMTLS K myGaruCAs lookup clk cfg m ps = Some (ps', r) \<and> take (length ps) ps' = ps \<and>
    (case r of
       Inl err \<Rightarrow> snd (load_pair K clk (newCertCheck myGaruCAs m) (CertPEM m) (KeyPEM m) ps) = Inl err \<or>
                  resolveServerName (ServerName m) cfg = Inl err
     | Inr (sc, provider, renewer) \<Rightarrow>
         client_ok sc \<and>
         (\<exists>name. resolveServerName (ServerName m) cfg = Inr name \<and>
            newClient lookup cfg \<lparr>tls_RootCAs = ServerRootCAs m, tls_ServerName = name,
              tls_MinVersion = (if MinVersion m = 0 then VersionTLS12 else MinVersion m)\<rparr> = Some sc) \<and>
         sh_Configuration sc = normalizeConfiguration cfg \<and>
         map (\<lambda>g. fo_Addr (cg_options g)) (sh_clients sc) = client_addrs cfg \<and>
         length (slots sc) = nat (MaximumSimultaneousConnections (normalizeConfiguration cfg)) * length (client_addrs cfg) \<and>
         (\<forall>s \<in> set (slots sc). maxRequestDuration (client_at sc s) = MaxRequestDuration (normalizeConfiguration cfg)) \<and>
         (\<exists>cert. GetClientCertificate provider = Some cert \<and> Provider_CertPEM provider = Some (CertPEM m) \<and>
            accepts K (newCertCheck myGaruCAs m) clk ps (CertPEM m) (KeyPEM m) cert) \<and>
         (\<forall>g \<in> set (sh_clients sc).
            tls_RootCAs (fo_TLSConfig (cg_options g)) = ServerRootCAs m \<and>
            tls_MinVersion (fo_TLSConfig (cg_options g)) = (if MinVersion m = 0 then VersionTLS12 else MinVersion m) \<and>
            resolveServerName (ServerName m) cfg = Inr (tls_ServerName (fo_TLSConfig (cg_options g))) \<and>
            tls_ServerName (fo_TLSConfig (cg_options g)) \<noteq> '''') \<and>
         (renewer \<noteq> None \<longleftrightarrow> has_OnRenewed m \<and> 0 \<le> RenewBefore m) \<and>
         (\<forall>r. renewer = Some r \<longrightarrow>
            ar_before r = (if RenewBefore m = 0 then defaultRenewBefore else RenewBefore m) \<and>
            ar_every r = (if RenewCheckInterval m \<le> 0 then defaultRenewCheckInterval else RenewCheckInterval m) \<and>
            ar_caURL r = CAURL m))"
proof -
  let ?check = "newCertCheck myGaruCAs m"
  obtain ps' r where l: "load_pair K clk ?check (CertPEM m) (KeyPEM m) ps = (ps', r)" by fastforce
  note eff = load_pair_effect [OF l assms]
  show ?thesis
  proof (cases r)
    case (Inl e)
    with l eff show ?thesis by (simp add: NewWithMTLS_def newCertProvider_def Update_def)
  next
    case (Inr cert)
    define prov where "prov = \<lparr>cp_check = ?check,
      cp_current = Some \<lparr>pc_cert = cert, pc_certPEM = CertPEM m\<rparr>, cp_pollInterval = 0\<rparr>"
    have p: "newCertProvider K myGaruCAs clk m ps = (ps', Inr prov)"
      using l Inr by (simp add: newCertProvider_def Update_def prov_def)
    show ?thesis
    proof (cases "resolveServerName (ServerName m) cfg")
      case (Inl e)
      with p eff show ?thesis by (simp add: NewWithMTLS_def)
    next
      case name: (Inr name)
      define tls where "tls = \<lparr>tls_RootCAs = ServerRootCAs m, tls_ServerName = name,
        tls_MinVersion = (if MinVersion m = 0 then VersionTLS12 else MinVersion m)\<rparr>"
      obtain sc where sc: "newClient lookup cfg tls = Some sc" using newClient_groups [of lookup cfg tls] by blast
      have "NewWithMTLS K myGaruCAs lookup clk cfg m ps = Some (ps', Inr (sc, prov, newAutoRenewer m))"
        using p name sc by (simp add: NewWithMTLS_def Let_def tls_def)
      moreover have "\<exists>cert. GetClientCertificate prov = Some cert \<and> Provider_CertPEM prov = Some (CertPEM m) \<and>
          accepts K ?check clk ps (CertPEM m) (KeyPEM m) cert"
        using eff Inr by (simp add: prov_def GetClientCertificate_def Provider_CertPEM_def)
      ultimately show ?thesis
        using eff newClient_configured [OF sc] newAutoRenewer_asked [of m] resolveServerName_nonempty [OF name] name sc
        by (simp add: tls_def)
    qed
  qed
qed

text \<open>
  A sample library for the witnesses: a pair is two equal non-empty texts, its chain is the text
  and one intermediate, and a certificate is valid up to time 100.
\<close>

definition sample_pki :: pki where
  "sample_pki = \<lparr>X509KeyPair = (\<lambda>c k. if c = k \<and> c \<noteq> [] then Inr [c, [9]] else Inl (Sentinel ''mismatch'')),
     ParseCertificate = (\<lambda>d. Inr \<lparr>NotBefore = 0, NotAfter = 100, SerialNumber = int (length d), Raw = d\<rparr>),
     CheckTLS = (\<lambda>leaf rs is t. if t \<le> NotAfter leaf then None else Some (Sentinel ''expired'')),
     self_signed = (\<lambda>c. Raw c = [])\<rparr>"

definition sample_cas :: cas where
  "sample_cas = \<lparr>cas_roots = 0, cas_intermediates = 1\<rparr>"

definition sample_mtls :: mtls_config where
  "sample_mtls = \<lparr>CertPEM = [1], KeyPEM = [1], ServerRootCAs = None, ServerName = '''', MinVersion = 0,
     ClientCertRoots = None, ClientCertIntermediates = None, CurrentTime = None, has_OnRenewed = True,
     RenewBefore = 0, RenewCheckInterval = 0, CAURL = ''''\<rparr>"

lemma sample_check_ok: "check_ok (newCertCheck sample_cas sample_mtls) [[], []]"
  by (simp add: check_ok_def newCertCheck_def sample_cas_def sample_mtls_def)

lemma sample_provider:
  "\<exists>ps0 p0. newCertProvider sample_pki sample_cas 5 sample_mtls [[], []] = (ps0, Inr p0)"
  by (simp add: newCertProvider_def Update_def load_pair_def sample_pki_def newCertCheck_def sample_cas_def
      sample_mtls_def Clone_def Let_def)

theorem provider_serves_checked_witness:
  "\<exists>ps0 p0 cert. newCertProvider sample_pki sample_cas 5 sample_mtls [[], []] = (ps0, Inr p0) \<and>
     GetClientCertificate (fst (updates sample_pki [(7, [2], [3])] (p0, ps0))) = Some cert"
proof -
  obtain ps0 p0 where p0: "newCertProvider sample_pki sample_cas 5 sample_mtls [[], []] = (ps0, Inr p0)"
    using sample_provider by blast
  obtain p ps1 where u: "updates sample_pki [(7, [2], [3])] (p0, ps0) = (p, ps1)" by fastforce
  from provider_serves_checked [OF p0 sample_check_ok u, where clk = 0 and c = "[]" and k = "[]"] p0 u
  show ?thesis by auto
qed

lemma sample_server_name: "resolveServerName '''' None = Inr ''cloud.mygaru.com''"
  by code_simp

theorem new_with_mtls_witness:
  "\<exists>ps' sc provider renewer. NewWithMTLS sample_pki sample_cas sample_lookup 5 None sample_mtls [[], []] =
     Some (ps', Inr (sc, provider, renewer)) \<and> client_ok sc \<and> renewer \<noteq> None"
proof -
  obtain cert where l: "snd (load_pair sample_pki 5 (newCertCheck sample_cas sample_mtls)
      (CertPEM sample_mtls) (KeyPEM sample_mtls) [[], []]) = Inr cert"
    by (simp add: load_pair_def sample_pki_def newCertCheck_def sample_cas_def sample_mtls_def Clone_def Let_def)
  have m: "ServerName sample_mtls = ''''" "has_OnRenewed sample_mtls" "RenewBefore sample_mtls = 0"
    by (simp_all add: sample_mtls_def)
  show ?thesis
    using new_with_mtls [OF sample_check_ok, of sample_pki sample_lookup 5 None]
  proof (elim exE conjE, goal_cases)
    case (1 ps' r)
    then show ?case using l m sample_server_name by (cases r) auto
  qed
qed

end
