(* ===== verification/ServerAuth.thy ===== *)
theory ServerAuth
  imports Mtls
begin

text \<open>
  \<^verbatim>\<open>pkg/serverauth/auth.go\<close>: the server's side of mTLS. A listener gives every accepted
  connection an identity slot; the TLS configuration it builds authenticates the client
  certificate during the handshake and stores the certificate's UUID there.

  The connections with their slots are a store, \<open>None\<close> for a connection that did not come from
  the listener. A TLS configuration holds callbacks, one of which yields configurations, so it is
  a datatype. What \<^verbatim>\<open>crypto/tls\<close> does with it is \<open>handshake\<close>; certificate checks, OCSP
  and the UUID of a certificate are the library's, in the record \<open>auth_lib\<close>.
\<close>

section \<open>Connections\<close>

record auth_conn =
  ac_requests :: uint64
  ac_authID :: uuid

type_synonym auth_store = "nat \<Rightarrow> auth_conn option"

definition conn_GetUUID :: "auth_conn \<Rightarrow> uuid" where
  "conn_GetUUID c = ac_authID c"

definition conn_SetUUID :: "uuid \<Rightarrow> auth_conn \<Rightarrow> auth_conn" where
  "conn_SetUUID uid c = c\<lparr>ac_authID := uid\<rparr>"

definition RequestsCount :: "auth_conn \<Rightarrow> uint64" where
  "RequestsCount c = ac_requests c"

definition IncrementRequests :: "auth_conn \<Rightarrow> auth_conn \<times> uint64" where
  "IncrementRequests c = (c\<lparr>ac_requests := ac_requests c + 1\<rparr>, ac_requests c + 1)"

text \<open>
  \<open>Accept\<close> on what the listener below returns: a connection, an error, or both, which panics.
  Neither of the two is outside the contract of \<^verbatim>\<open>net.Listener\<close>, and left out.
\<close>

definition Accept :: "nat option \<Rightarrow> go_error option \<Rightarrow> auth_store \<Rightarrow> (auth_store \<times> nat result) option" where
  "Accept c err s =
     (case (err, c) of
        (Some _, Some _) \<Rightarrow> None
      | (Some e, None) \<Rightarrow> Some (s, Inl e)
      | (None, Some i) \<Rightarrow> Some (s(i \<mapsto> \<lparr>ac_requests = 0, ac_authID = uuid_Nil\<rparr>), Inr i)
      | (None, None) \<Rightarrow> None)"

definition GetConn :: "auth_store \<Rightarrow> nat \<Rightarrow> auth_conn option" where
  "GetConn s i = s i"

definition GetUUID :: "auth_store \<Rightarrow> nat \<Rightarrow> uuid \<times> bool" where
  "GetUUID s i =
     (case GetConn s i of
        None \<Rightarrow> (uuid_Nil, False)
      | Some c \<Rightarrow> (let uid = conn_GetUUID c in (uid, uid \<noteq> uuid_Nil)))"

definition SetUUID :: "nat \<Rightarrow> uuid \<Rightarrow> auth_store \<Rightarrow> auth_store \<times> go_error option" where
  "SetUUID i uid s =
     (case GetConn s i of
        None \<Rightarrow> (s, Some (Errorf ''connection auth is unavailable'' []))
      | Some c \<Rightarrow> (s(i \<mapsto> conn_SetUUID uid c), None))"

section \<open>Authenticating a certificate\<close>

record auth_lib =
  al_pki :: pki
  al_CheckStatus :: "x509_cert \<Rightarrow> x509_cert option \<Rightarrow> nat option \<Rightarrow> go_error option \<times> int"
  al_CertStatusGood :: int
  al_GetUUID :: "x509_cert \<Rightarrow> string"
  al_uuid_parse :: "string \<Rightarrow> uuid result"

text \<open>
  \<open>sm_CurrentTime = None\<close> is the zero time, for which the certificate is checked at the time of
  the handshake, \<open>clk\<close>. \<open>sm_StatusClient\<close> is the HTTP client for OCSP, by a number.
\<close>

record server_mtls =
  sm_Roots :: "x509_cert list"
  sm_Intermediates :: "x509_cert list"
  sm_CurrentTime :: "int option"
  sm_Issuer :: "x509_cert option"
  sm_StatusClient :: "nat option"
  sm_RequireOCSP :: bool

definition check_time :: "server_mtls \<Rightarrow> int \<Rightarrow> int" where
  "check_time cfg clk = (case sm_CurrentTime cfg of None \<Rightarrow> clk | Some t \<Rightarrow> t)"

definition authenticateClientCertificate :: "auth_lib \<Rightarrow> int \<Rightarrow> bytes list \<Rightarrow> server_mtls \<Rightarrow> uuid result" where
  "authenticateClientCertificate L clk rawCerts cfg =
     (case rawCerts of
        [] \<Rightarrow> Inl (Errorf ''client certificate is required'' [])
      | der # _ \<Rightarrow>
         (case ParseCertificate (al_pki L) der of
            Inl err \<Rightarrow> Inl (Errorf ''parse client certificate: %w'' [AWrap err])
          | Inr leaf \<Rightarrow>
             (case CheckTLS (al_pki L) leaf (sm_Roots cfg) (sm_Intermediates cfg) (check_time cfg clk) of
                Some err \<Rightarrow> Inl (Errorf ''validate client certificate: %w'' [AWrap err])
              | None \<Rightarrow>
                 (let named =
                    (let rawUUID = al_GetUUID L leaf in
                     if rawUUID = '''' then Inl (Errorf ''client certificate UUID is missing'' [])
                     else case al_uuid_parse L rawUUID of
                       Inl err \<Rightarrow> Inl (Errorf ''parse client certificate UUID: %w'' [AWrap err])
                     | Inr uid \<Rightarrow> Inr uid)
                  in if sm_RequireOCSP cfg then
                       (case al_CheckStatus L leaf (sm_Issuer cfg) (sm_StatusClient cfg) of
                          (Some err, _) \<Rightarrow> Inl (Errorf ''check client certificate status: %w'' [AWrap err])
                        | (None, status) \<Rightarrow>
                            if status \<noteq> al_CertStatusGood L
                            then Inl (Errorf ''client certificate status is not good: %v'' [AInt status])
                            else named)
                     else named))))"

section \<open>The TLS configuration\<close>

text \<open>
  \<open>ClientAuth\<close> by its number (0 no certificate, 1 asked for, 2 any required, 3 and 4 verified by
  the library too), the minimum version, and the two callbacks. A verification reads the clock.
\<close>

type_synonym verify = "int \<Rightarrow> bytes list \<Rightarrow> auth_store \<Rightarrow> auth_store \<times> go_error option"

datatype server_tls = ServerTLS
  (ClientAuth: nat)
  (ServerMinVersion: "16 word")
  (GetConfigForClient: "(nat \<Rightarrow> go_error + server_tls option) option")
  (VerifyPeerCertificate: "verify option")

definition NoClientCert :: nat where "NoClientCert = 0"
definition RequireAnyClientCert :: nat where "RequireAnyClientCert = 2"

text \<open>The verification the child configuration runs: the former one, then the certificate's identity.\<close>

definition verify_identity :: "auth_lib \<Rightarrow> server_mtls \<Rightarrow> nat \<Rightarrow> verify option \<Rightarrow> verify" where
  "verify_identity L auth conn previousVerify clk rawCerts s =
     (let identity = (\<lambda>s.
        (case authenticateClientCertificate L clk rawCerts auth of
           Inl err \<Rightarrow> (s, Some err)
         | Inr uid \<Rightarrow> SetUUID conn uid s))
      in case previousVerify of
           None \<Rightarrow> identity s
         | Some v \<Rightarrow> (case v clk rawCerts s of (s1, Some err) \<Rightarrow> (s1, Some err) | (s1, None) \<Rightarrow> identity s1))"

definition NewTLSConfig :: "auth_lib \<Rightarrow> server_tls option \<Rightarrow> server_mtls \<Rightarrow> server_tls" where
  "NewTLSConfig L base auth =
     (let b = (case base of None \<Rightarrow> ServerTLS NoClientCert 0 None None | Some b \<Rightarrow> b);
          clientAuth = (if ClientAuth b = NoClientCert then RequireAnyClientCert else ClientAuth b);
          minVersion = (if ServerMinVersion b = 0 then VersionTLS12 else ServerMinVersion b);
          child = (\<lambda>conn ca mv verify. ServerTLS ca mv None (Some (verify_identity L auth conn verify)))
      in ServerTLS clientAuth minVersion
           (Some (\<lambda>conn.
              (case GetConfigForClient b of
                 None \<Rightarrow> Inr (Some (child conn clientAuth minVersion (VerifyPeerCertificate b)))
               | Some previous \<Rightarrow>
                  (case previous conn of
                     Inl err \<Rightarrow> Inl err
                   | Inr None \<Rightarrow> Inr (Some (child conn clientAuth minVersion (VerifyPeerCertificate b)))
                   | Inr (Some selected) \<Rightarrow>
                       Inr (Some (child conn (ClientAuth selected) (ServerMinVersion selected)
                              (VerifyPeerCertificate selected)))))))
           (VerifyPeerCertificate b))"

text \<open>
  The part of \<^verbatim>\<open>crypto/tls\<close>'s server handshake these callbacks are used in: the client's
  configuration, the client's certificates if it is asked for them (\<open>lib_ok\<close> stands for the
  library's own checks: key possession, chains, session tickets), then the verification callback.
  A resumed session does not present its certificates again, and the library documents that it
  does not invoke \<^verbatim>\<open>VerifyPeerCertificate\<close> then.
\<close>

definition handshake :: "server_tls \<Rightarrow> (server_tls \<Rightarrow> bytes list \<Rightarrow> bool) \<Rightarrow> bool \<Rightarrow> int \<Rightarrow> nat \<Rightarrow> bytes list \<Rightarrow>
    auth_store \<Rightarrow> auth_store \<times> bool" where
  "handshake cfg lib_ok resumed clk conn rawCerts s =
     (let selected =
        (case GetConfigForClient cfg of
           None \<Rightarrow> Inr cfg
         | Some g \<Rightarrow> (case g conn of Inl err \<Rightarrow> Inl err | Inr None \<Rightarrow> Inr cfg | Inr (Some c) \<Rightarrow> Inr c))
      in case selected of
           Inl _ \<Rightarrow> (s, False)
         | Inr c \<Rightarrow>
            (if ClientAuth c = NoClientCert then (s, lib_ok c [])
             else if resumed then (s, lib_ok c rawCerts)
             else if rawCerts = [] \<and> ClientAuth c \<in> {2, 4} then (s, False)
             else if \<not> lib_ok c rawCerts then (s, False)
             else case VerifyPeerCertificate c of
               None \<Rightarrow> (s, True)
             | Some v \<Rightarrow> (case v clk rawCerts s of (s', err) \<Rightarrow> (s', err = None))))"

section \<open>Lemmas\<close>

text \<open>The identity a connection of the listener has.\<close>

lemma GetUUID_at: "s i = Some c \<Longrightarrow> GetUUID s i = (ac_authID c, ac_authID c \<noteq> uuid_Nil)"
  by (simp add: GetUUID_def GetConn_def conn_GetUUID_def Let_def)

lemma GetUUID_stored [simp]: "GetUUID (s(i \<mapsto> c)) i = (ac_authID c, ac_authID c \<noteq> uuid_Nil)"
  by (simp add: GetUUID_at)

definition pure_verify :: "verify option \<Rightarrow> bool" where
  "pure_verify v \<longleftrightarrow> (\<forall>f. v = Some f \<longrightarrow> (\<forall>clk certs s. fst (f clk certs s) = s))"

text \<open>A verification that succeeds has authenticated, whatever the former one did.\<close>

lemma verify_identity_ok:
  assumes "verify_identity L auth conn prev clk certs s = (s', None)"
  shows "\<exists>uid. authenticateClientCertificate L clk certs auth = Inr uid \<and> GetUUID s' conn = (uid, uid \<noteq> uuid_Nil)"
  using assms
  by (auto simp: verify_identity_def SetUUID_def GetConn_def conn_SetUUID_def Let_def
      split: sum.splits option.splits prod.splits)

lemma verify_identity_effect:
  assumes "pure_verify prev" "verify_identity L auth conn prev clk certs s = (s', err)"
  shows "if err = None
    then \<exists>c uid. s conn = Some c \<and> authenticateClientCertificate L clk certs auth = Inr uid \<and>
           s' = s(conn \<mapsto> c\<lparr>ac_authID := uid\<rparr>)
    else s' = s"
proof -
  define ident where "ident = (case authenticateClientCertificate L clk certs auth of
      Inl err \<Rightarrow> (s, Some err) | Inr uid \<Rightarrow> SetUUID conn uid s)"
  have "(s', err) = ident \<or> (s' = s \<and> err \<noteq> None)"
  proof (cases prev)
    case None
    with assms(2) show ?thesis by (simp add: verify_identity_def ident_def)
  next
    case (Some f)
    obtain e where f: "f clk certs s = (s, e)" using assms(1) Some by (metis eq_fst_iff pure_verify_def)
    with Some assms(2) show ?thesis
      by (cases e) (auto simp: verify_identity_def ident_def)
  qed
  then show ?thesis
    by (auto simp: ident_def SetUUID_def GetConn_def conn_SetUUID_def split: sum.splits option.splits if_splits)
qed

text \<open>The outcome of a handshake whose configuration for the client is one of \<open>NewTLSConfig\<close>'s children.\<close>

definition child_run :: "auth_lib \<Rightarrow> server_mtls \<Rightarrow> (server_tls \<Rightarrow> bytes list \<Rightarrow> bool) \<Rightarrow> bool \<Rightarrow> int \<Rightarrow> nat \<Rightarrow> bytes list \<Rightarrow>
    auth_store \<Rightarrow> nat \<Rightarrow> 16 word \<Rightarrow> verify option \<Rightarrow> auth_store \<times> bool" where
  "child_run L auth lib_ok resumed clk conn certs s ca mv v =
     (let child = ServerTLS ca mv None (Some (verify_identity L auth conn v))
      in if ca = NoClientCert then (s, lib_ok child [])
         else if resumed then (s, lib_ok child certs)
         else if certs = [] \<and> ca \<in> {2, 4} then (s, False)
         else if \<not> lib_ok child certs then (s, False)
         else (case verify_identity L auth conn v clk certs s of (s', err) \<Rightarrow> (s', err = None)))"

definition base_tls :: "server_tls option \<Rightarrow> server_tls" where
  "base_tls base = (case base of None \<Rightarrow> ServerTLS NoClientCert 0 None None | Some b \<Rightarrow> b)"

definition required_auth :: "server_tls \<Rightarrow> nat" where
  "required_auth b = (if ClientAuth b = NoClientCert then RequireAnyClientCert else ClientAuth b)"

definition required_version :: "server_tls \<Rightarrow> 16 word" where
  "required_version b = (if ServerMinVersion b = 0 then VersionTLS12 else ServerMinVersion b)"

lemma required_auth_asks: "required_auth b \<noteq> NoClientCert"
  by (simp add: required_auth_def NoClientCert_def RequireAnyClientCert_def)

lemma NewTLSConfig_handshake:
  "handshake (NewTLSConfig L base auth) lib_ok resumed clk conn certs s =
     (let run = child_run L auth lib_ok resumed clk conn certs s; b = base_tls base;
          own = run (required_auth b) (required_version b) (VerifyPeerCertificate b)
      in case GetConfigForClient b of
           None \<Rightarrow> own
         | Some g \<Rightarrow>
            (case g conn of
               Inl _ \<Rightarrow> (s, False)
             | Inr None \<Rightarrow> own
             | Inr (Some sel) \<Rightarrow> run (ClientAuth sel) (ServerMinVersion sel) (VerifyPeerCertificate sel)))"
proof -
  note cfg = NewTLSConfig_def [unfolded Let_def, folded base_tls_def required_auth_def required_version_def]
  show ?thesis
    by (auto simp: cfg handshake_def child_run_def Let_def split: option.splits sum.splits simp del: insert_iff)
qed

lemma child_run_effect:
  assumes "pure_verify v" "child_run L auth lib_ok resumed clk conn certs s ca mv v = (s', ok)"
  shows "(s' = s \<and> (ok \<longrightarrow> ca = NoClientCert \<or> resumed)) \<or>
    (ok \<and> \<not> resumed \<and> (\<exists>c uid. s conn = Some c \<and> authenticateClientCertificate L clk certs auth = Inr uid \<and>
      s' = s(conn \<mapsto> c\<lparr>ac_authID := uid\<rparr>)))"
proof -
  obtain s1 err where x: "verify_identity L auth conn v clk certs s = (s1, err)" by fastforce
  from assms(2) x have "(s' = s \<and> (ok \<longrightarrow> ca = NoClientCert \<or> resumed)) \<or> (s' = s1 \<and> ok = (err = None) \<and> \<not> resumed)"
    by (auto simp: child_run_def Let_def split: if_splits)
  with verify_identity_effect [OF assms(1) x] show ?thesis by (cases err) auto
qed

lemma child_run_ok:
  assumes "child_run L auth lib_ok resumed clk conn certs s ca mv v = (s', True)" "ca \<noteq> NoClientCert" "\<not> resumed"
  shows "\<exists>uid. authenticateClientCertificate L clk certs auth = Inr uid \<and> GetUUID s' conn = (uid, uid \<noteq> uuid_Nil)"
  using assms by (auto simp: child_run_def Let_def intro: verify_identity_ok split: if_splits prod.splits)

lemma child_run_resumed: "child_run L auth lib_ok True clk conn certs s ca mv v = (s', ok) \<Longrightarrow> s' = s"
  by (auto simp: child_run_def Let_def split: if_splits)

text \<open>A handshake that comes to an end ran one of the children: the base's own, or the one of the client's configuration.\<close>

lemma NewTLSConfig_child:
  assumes "handshake (NewTLSConfig L base auth) lib_ok resumed clk conn certs s = (s', ok)"
  shows "\<not> ok \<and> s' = s \<or>
    (\<exists>ca mv v. child_run L auth lib_ok resumed clk conn certs s ca mv v = (s', ok) \<and>
      (ca = required_auth (base_tls base) \<and> v = VerifyPeerCertificate (base_tls base) \<or>
       (\<exists>g sel. GetConfigForClient (base_tls base) = Some g \<and> g conn = Inr (Some sel) \<and>
          ca = ClientAuth sel \<and> v = VerifyPeerCertificate sel)))"
  using assms unfolding NewTLSConfig_handshake Let_def
  by (cases "GetConfigForClient (base_tls base)") (auto split: sum.splits option.splits)

lemma authenticates_iff:
  "authenticateClientCertificate L clk rawCerts cfg = Inr uid \<longleftrightarrow>
     (\<exists>der others leaf. rawCerts = der # others \<and> ParseCertificate (al_pki L) der = Inr leaf \<and>
        CheckTLS (al_pki L) leaf (sm_Roots cfg) (sm_Intermediates cfg) (check_time cfg clk) = None \<and>
        (sm_RequireOCSP cfg \<longrightarrow> al_CheckStatus L leaf (sm_Issuer cfg) (sm_StatusClient cfg) = (None, al_CertStatusGood L)) \<and>
        al_GetUUID L leaf \<noteq> '''' \<and> al_uuid_parse L (al_GetUUID L leaf) = Inr uid)"
proof (cases rawCerts)
  case Nil
  then show ?thesis by (simp add: authenticateClientCertificate_def)
next
  case (Cons der others)
  show ?thesis
  proof (cases "ParseCertificate (al_pki L) der")
    case (Inl e)
    with Cons show ?thesis by (simp add: authenticateClientCertificate_def)
  next
    case (Inr leaf)
    obtain st code where "al_CheckStatus L leaf (sm_Issuer cfg) (sm_StatusClient cfg) = (st, code)" by fastforce
    with Cons Inr show ?thesis
      by (auto simp: authenticateClientCertificate_def Let_def split: sum.splits option.splits)
  qed
qed

text \<open>Whom a certificate names does not change with time.\<close>

lemma authenticates_same:
  "authenticateClientCertificate L t certs auth = Inr u \<Longrightarrow> authenticateClientCertificate L t' certs auth = Inr v \<Longrightarrow> u = v"
  by (auto simp: authenticates_iff)

section \<open>Properties\<close>

text \<open>
  C28. Which certificates name a partner: exactly those whose first certificate parses, passes
  \<^verbatim>\<open>CheckTLS\<close> against the configured roots and intermediates at the configured time (the time of the
  handshake, if none is configured), has a
  good OCSP status where one is required, and carries a UUID that parses, which is the result.
\<close>

theorem certificate_identity:
  "authenticateClientCertificate L clk rawCerts cfg = Inr uid \<longleftrightarrow>
     (\<exists>der others leaf. rawCerts = der # others \<and> ParseCertificate (al_pki L) der = Inr leaf \<and>
        CheckTLS (al_pki L) leaf (sm_Roots cfg) (sm_Intermediates cfg)
          (case sm_CurrentTime cfg of None \<Rightarrow> clk | Some t \<Rightarrow> t) = None \<and>
        (sm_RequireOCSP cfg \<longrightarrow> al_CheckStatus L leaf (sm_Issuer cfg) (sm_StatusClient cfg) = (None, al_CertStatusGood L)) \<and>
        al_GetUUID L leaf \<noteq> '''' \<and> al_uuid_parse L (al_GetUUID L leaf) = Inr uid)"
  unfolding authenticates_iff check_time_def by (rule refl)

definition sample_lib :: auth_lib where
  "sample_lib = \<lparr>al_pki = sample_pki, al_CheckStatus = (\<lambda>c i h. (None, 3)), al_CertStatusGood = 3,
     al_GetUUID = (\<lambda>c. sample_uuid_string 7), al_uuid_parse = sample_uuid_parse\<rparr>"

definition sample_auth :: server_mtls where
  "sample_auth = \<lparr>sm_Roots = [], sm_Intermediates = [], sm_CurrentTime = None, sm_Issuer = None,
     sm_StatusClient = None, sm_RequireOCSP = True\<rparr>"

theorem certificate_identity_witness:
  "authenticateClientCertificate sample_lib 5 [[1], [9]] sample_auth = Inr 7"
  unfolding certificate_identity
  by (simp add: sample_lib_def sample_auth_def sample_pki_def sample_uuid_simps)

text \<open>
  C7. The identity of a connection comes from its certificate only, and no full handshake goes
  without one. Whatever the base configuration's own verification callbacks do, a full handshake
  that succeeds has authenticated the client's certificate, and the connection has exactly the
  identity that names, even if the base only asks for a certificate or for none: the one
  exception is a configuration the base chooses for that client which asks for no certificate. A
  resumed session succeeds without being authenticated again, but gives its connection no
  identity: it stays the anonymous one it was accepted as. And as long as the base's callbacks
  write no identities themselves, a handshake changes no other connection, and its own only when
  it succeeds.
\<close>

theorem handshake_identity:
  assumes "b = (case base of None \<Rightarrow> ServerTLS NoClientCert 0 None None | Some b \<Rightarrow> b)"
    and "handshake (NewTLSConfig L base auth) lib_ok resumed clk conn rawCerts s = (s', ok)"
  shows "(ok \<and> \<not> resumed \<and>
       (\<forall>g sel. GetConfigForClient b = Some g \<and> g conn = Inr (Some sel) \<longrightarrow> ClientAuth sel \<noteq> NoClientCert) \<longrightarrow>
       (\<exists>uid. authenticateClientCertificate L clk rawCerts auth = Inr uid \<and> GetUUID s' conn = (uid, uid \<noteq> uuid_Nil))) \<and>
    (resumed \<longrightarrow> s' = s) \<and>
    (pure_verify (VerifyPeerCertificate b) \<and>
       (\<forall>g sel. GetConfigForClient b = Some g \<and> g conn = Inr (Some sel) \<longrightarrow> pure_verify (VerifyPeerCertificate sel)) \<longrightarrow>
       s' = s \<or> (ok \<and> \<not> resumed \<and> (\<exists>c uid. s conn = Some c \<and>
         authenticateClientCertificate L clk rawCerts auth = Inr uid \<and> s' = s(conn \<mapsto> c\<lparr>ac_authID := uid\<rparr>))))"
proof -
  have b: "base_tls base = b" using assms(1) by (simp add: base_tls_def)
  from NewTLSConfig_child [OF assms(2), unfolded b] show ?thesis
  proof (elim disjE exE conjE, goal_cases)
    case (2 ca mv v)
    note run = 2(1)
    show ?case
      using child_run_ok [of L auth lib_ok resumed clk conn rawCerts s ca mv v s'] child_run_resumed
        child_run_effect [OF _ run] run 2(2,3) required_auth_asks [of b] by auto
  next
    case (3 ca mv v g sel)
    note run = 3(1)
    show ?case
      using child_run_ok [of L auth lib_ok resumed clk conn rawCerts s ca mv v s'] child_run_resumed
        child_run_effect [OF _ run] run 3(2-) by auto
  qed simp
qed

theorem handshake_identity_witness:
  "GetUUID (fst (handshake (NewTLSConfig sample_lib None sample_auth) (\<lambda>_ _. True) False 5 0 [[1], [9]]
     [0 \<mapsto> \<lparr>ac_requests = 0, ac_authID = uuid_Nil\<rparr>])) 0 = (7, True)"
proof -
  let ?s = "[0 \<mapsto> \<lparr>ac_requests = 0, ac_authID = uuid_Nil\<rparr>]"
  have a: "authenticateClientCertificate sample_lib 5 [[1], [9]] sample_auth = Inr 7"
    by (simp add: authenticateClientCertificate_def check_time_def sample_lib_def sample_auth_def sample_pki_def
        sample_uuid_simps Let_def)
  obtain s' ok where h: "handshake (NewTLSConfig sample_lib None sample_auth) (\<lambda>_ _. True) False 5 0 [[1], [9]] ?s = (s', ok)"
    by fastforce
  have ok: ok
    using h a by (auto simp: handshake_def NewTLSConfig_def verify_identity_def SetUUID_def GetConn_def
        NoClientCert_def RequireAnyClientCert_def Let_def)
  from handshake_identity [OF refl h] a ok h show ?thesis by (auto simp: uuid_Nil_def)
qed

end
