(* ===== verification/TestCloud.thy ===== *)
theory TestCloud
  imports ServerAuth
begin

text \<open>
  \<^verbatim>\<open>internal/testcloud/server.go\<close>: the server's side of the three requests. Every request
  that reached the handler is answered on its context; the state is the configuration, the
  buffered channel of reports, the counter behind the tracking ids, the last caller, the count
  of refused requests and the connections whose closing has been scheduled.

  A handler is one step on that state: per request the code touches each field once, atomically.
  Protobuf and UUID text are the libraries', in the record \<open>tc_lib\<close>; so is an error's text.
\<close>

section \<open>Configuration and state\<close>

record tc_config =
  tcc_ListenAddr :: string
  tcc_ServerID :: "16 word"
  tcc_TLSConfig :: "server_tls option"
  tcc_TouchPartners :: "uuid list"
  tcc_TargetStatus :: int32
  tcc_ReportBuffer :: int
  tcc_DropConnAfterRequest :: bool

type_synonym served_target = "match_rule option target_request"
type_synonym served_report = "report_rule option report_request"

text \<open>What \<open>NewServer\<close> asks of fastrpc.\<close>

record rpc_server =
  rpc_SniffHeader :: string
  rpc_ProtocolVersion :: int
  rpc_ReadTimeout :: int
  rpc_WriteTimeout :: int
  rpc_CompressType :: string
  rpc_PipelineRequests :: bool
  rpc_TLSConfig :: "server_tls option"

record 'l tc_server =
  ts_rpc :: rpc_server
  ts_cfg :: tc_config
  ts_ln :: "'l option"
  ts_reports :: "served_report list"
  ts_counter :: uint64
  ts_lastCaller :: "uuid option"
  ts_unauthorized :: uint64
  ts_closing :: "nat list"

record tc_lib =
  tl_uuid_parse :: "string \<Rightarrow> uuid result"
  tl_uuid_string :: "uuid \<Rightarrow> string"
  tl_error_text :: "go_error \<Rightarrow> bytes"
  tl_grow :: "nat \<Rightarrow> nat \<Rightarrow> nat"
  tl_unmarshal_target :: "bytes \<Rightarrow> served_target result"
  tl_unmarshal_report :: "bytes \<Rightarrow> served_report result"
  tl_unmarshal_touch :: "bytes \<Rightarrow> touch_request result"
  tl_marshal_target :: "target_response \<Rightarrow> bytes result"
  tl_marshal_touch :: "touch_response \<Rightarrow> bytes result"

definition tc_normalizeConfig :: "tc_config \<Rightarrow> tc_config" where
  "tc_normalizeConfig cfg =
     (let c = cfg\<lparr>tcc_ListenAddr := default_if (tcc_ListenAddr cfg = '''') ''127.0.0.1:0'' (tcc_ListenAddr cfg)\<rparr>;
          c = c\<lparr>tcc_ServerID := default_if (tcc_ServerID c = 0) 1024 (tcc_ServerID c)\<rparr>;
          c = c\<lparr>tcc_TargetStatus := default_if (tcc_TargetStatus c = RPC_UNKNOWN) RPC_OK (tcc_TargetStatus c)\<rparr>
      in c\<lparr>tcc_ReportBuffer := default_if (tcc_ReportBuffer c \<le> 0) 8 (tcc_ReportBuffer c)\<rparr>)"

definition NewServer :: "tc_config \<Rightarrow> 'l tc_server" where
  "NewServer cfg =
     \<lparr>ts_rpc = \<lparr>rpc_SniffHeader = SniffHeader, rpc_ProtocolVersion = ProtocolVersion,
        rpc_ReadTimeout = 5 * 60 * 10 ^ 9, rpc_WriteTimeout = 10 * 10 ^ 9, rpc_CompressType = ''CompressSnappy'',
        rpc_PipelineRequests = True, rpc_TLSConfig = tcc_TLSConfig (tc_normalizeConfig cfg)\<rparr>,
      ts_cfg = tc_normalizeConfig cfg, ts_ln = None, ts_reports = [], ts_counter = 0,
      ts_lastCaller = None, ts_unauthorized = 0, ts_closing = []\<rparr>"

definition errNoTLSConfig :: go_error where
  "errNoTLSConfig = Sentinel ''test-cloud serves mTLS only: TLSConfig is required''"

text \<open>\<open>listen\<close> is \<^verbatim>\<open>net.Listen("tcp4", addr)\<close>; \<open>serve\<close> is fastrpc's server loop.\<close>

definition tc_Start :: "(string \<Rightarrow> 'l result) \<Rightarrow> tc_config \<Rightarrow> 'l tc_server result" where
  "tc_Start listen cfg =
     (let cfg = tc_normalizeConfig cfg in
      if tcc_TLSConfig cfg = None then Inl errNoTLSConfig
      else case listen (tcc_ListenAddr cfg) of
        Inl err \<Rightarrow> Inl (Errorf ''listen on %q: %w'' [AStr (tcc_ListenAddr cfg), AWrap err])
      | Inr ln \<Rightarrow> Inr ((NewServer cfg)\<lparr>ts_ln := Some ln\<rparr>))"

definition tc_ListenAndServe :: "(string \<Rightarrow> 'l result) \<Rightarrow> ('l tc_server \<Rightarrow> 'l \<Rightarrow> go_error option) \<Rightarrow> tc_config \<Rightarrow>
    go_error option" where
  "tc_ListenAndServe listen serve cfg =
     (let cfg = tc_normalizeConfig cfg in
      if tcc_TLSConfig cfg = None then Some errNoTLSConfig
      else case listen (tcc_ListenAddr cfg) of
        Inl err \<Rightarrow> Some (Errorf ''listen on %q: %w'' [AStr (tcc_ListenAddr cfg), AWrap err])
      | Inr ln \<Rightarrow> serve (NewServer cfg) ln)"

definition tc_Addr :: "('l \<Rightarrow> string) \<Rightarrow> 'l tc_server option \<Rightarrow> string" where
  "tc_Addr addr_string s =
     (case s of None \<Rightarrow> '''' | Some s \<Rightarrow> (case ts_ln s of None \<Rightarrow> '''' | Some ln \<Rightarrow> addr_string ln))"

text \<open>
  \<open>Close\<close> of a started server: \<open>stopped\<close> is what the serving goroutine returns within a second,
  if it does.
\<close>

definition tc_Close :: "('l \<Rightarrow> go_error option) \<Rightarrow> go_error option option \<Rightarrow> 'l tc_server option \<Rightarrow> go_error option" where
  "tc_Close close_listener stopped s =
     (case s of
        None \<Rightarrow> None
      | Some s \<Rightarrow>
         (case ts_ln s of
            None \<Rightarrow> None
          | Some ln \<Rightarrow>
             (case close_listener ln of
                Some err \<Rightarrow> Some err
              | None \<Rightarrow>
                 (case stopped of
                    Some err \<Rightarrow> err
                  | None \<Rightarrow> Some (Errorf ''test-cloud server did not stop in time'' [])))))"

text \<open>
  \<open>Serve\<close> hands fastrpc's loop the listener wrapped by \<open>NewListener\<close>; \<open>Reports\<close> is the channel, of
  which the model holds what is in it.
\<close>

definition tc_Serve :: "(rpc_server \<Rightarrow> 'w \<Rightarrow> go_error option) \<Rightarrow> ('l \<Rightarrow> 'w) \<Rightarrow> 'l tc_server \<Rightarrow> 'l \<Rightarrow> go_error option" where
  "tc_Serve rpc_Serve NewListener s ln = rpc_Serve (ts_rpc s) (NewListener ln)"

definition Reports :: "'l tc_server \<Rightarrow> served_report list" where
  "Reports s = ts_reports s"

definition Unauthorized :: "'l tc_server \<Rightarrow> uint64" where
  "Unauthorized s = ts_unauthorized s"

definition LastCaller :: "'l tc_server \<Rightarrow> uuid" where
  "LastCaller s = (case ts_lastCaller s of Some uid \<Rightarrow> uid | None \<Rightarrow> uuid_Nil)"

section \<open>Answering\<close>

definition requestPayer :: "tc_lib \<Rightarrow> string \<Rightarrow> 'l tc_server \<Rightarrow> 'l tc_server \<times> uuid result" where
  "requestPayer L payer s =
     (let missing = (s\<lparr>ts_unauthorized := ts_unauthorized s + 1\<rparr>, Inl (Errorf ''payer is missing'' [])) in
      if payer \<noteq> '''' then
        (case tl_uuid_parse L payer of
           Inl err \<Rightarrow> (s, Inl (Errorf ''payer %q is not a uuid: %w'' [AStr payer, AWrap err]))
         | Inr payerID \<Rightarrow> if payerID \<noteq> uuid_Nil then (s, Inr payerID) else missing)
      else missing)"

definition dropConn :: "nat \<Rightarrow> 'l tc_server \<Rightarrow> 'l tc_server" where
  "dropConn conn s =
     (if \<not> tcc_DropConnAfterRequest (ts_cfg s) then s else s\<lparr>ts_closing := ts_closing s @ [conn]\<rparr>)"

definition nextTrackingID :: "'l tc_server \<Rightarrow> 'l tc_server \<times> bytes" where
  "nextTrackingID s =
     (let n = ts_counter s + 1 in
      (s\<lparr>ts_counter := n\<rparr>,
       bytes_of_string (hex_pad 4 (unat (tcc_ServerID (ts_cfg s))) @ hex_pad 12 (unat n))))"

definition ctx_status :: "int32 \<Rightarrow> nat request_ctx \<Rightarrow> nat request_ctx" where
  "ctx_status code ctx = ctx\<lparr>ctx_Response := SetStatusCode code (ctx_Response ctx)\<rparr>"

definition writeError :: "tc_lib \<Rightarrow> int32 \<Rightarrow> go_error \<Rightarrow> nat request_ctx \<Rightarrow> nat request_ctx" where
  "writeError L code err ctx = Ctx_Write (tl_grow L) (tl_error_text L err) (ctx_status code ctx)"

definition writeProto :: "tc_lib \<Rightarrow> int32 \<Rightarrow> bytes result \<Rightarrow> nat request_ctx \<Rightarrow> nat request_ctx" where
  "writeProto L code marshalled ctx =
     (case marshalled of
        Inl err \<Rightarrow> writeError L RPC_TECH_ERROR (Errorf ''cannot marshal response: %w'' [AWrap err]) ctx
      | Inr bb \<Rightarrow> Ctx_Write (tl_grow L) bb (ctx_status code ctx))"

section \<open>Handlers\<close>

text \<open>The loop over the payers of the rules: the first that does not resolve ends it.\<close>

fun check_rule_payers :: "tc_lib \<Rightarrow> string \<Rightarrow> nat \<Rightarrow> string list \<Rightarrow> 'l tc_server \<Rightarrow> 'l tc_server \<times> go_error option" where
  "check_rule_payers L what i [] s = (s, None)"
| "check_rule_payers L what i (payer # payers) s =
     (case requestPayer L payer s of
        (s', Inl err) \<Rightarrow> (s', Some (Errorf what [AInt (int i), AWrap err]))
      | (s', Inr _) \<Rightarrow> check_rule_payers L what (Suc i) payers s')"

definition handleTarget :: "tc_lib \<Rightarrow> nat request_ctx \<Rightarrow> 'l tc_server \<Rightarrow> 'l tc_server \<times> nat request_ctx" where
  "handleTarget L ctx s =
     (let (s', ctx') =
        (case tl_unmarshal_target L (Request_Value (ctx_Request ctx)) of
           Inl err \<Rightarrow>
             (s, writeError L RPC_INVALID_REQUEST (Errorf ''cannot unmarshal target request: %w'' [AWrap err]) ctx)
         | Inr req \<Rightarrow>
            (case check_rule_payers L ''match rule %d: %w'' 0
                    (map Match_Rule_GetPayer (TargetRequest_GetMatch (Some req))) s of
               (s1, Some err) \<Rightarrow> (s1, writeError L RPC_UNAUTHORIZED err ctx)
             | (s1, None) \<Rightarrow>
                 if tcc_TargetStatus (ts_cfg s1) \<noteq> RPC_OK
                 then (s1, writeError L (tcc_TargetStatus (ts_cfg s1)) (Errorf ''target failed'' []) ctx)
                 else let (s2, trackingId) = nextTrackingID s1 in
                   (s2, writeProto L RPC_OK (tl_marshal_target L
                      \<lparr>TargetResponse_TrackingId = trackingId, TargetResponse_StatusCode = RPC_OK,
                       TargetResponse_Frequency =
                         replicate (length (TargetRequest_Frequency req)) Frequency_STATUS_PASSED,
                       TargetResponse_Match = replicate (length (TargetRequest_Match req)) Match_OK\<rparr>) ctx)))
      in (dropConn (ctx_conn ctx) s', ctx'))"

text \<open>The send on the report channel: taken while there is room in the buffer, dropped otherwise.\<close>

definition offer_report :: "served_report \<Rightarrow> 'l tc_server \<Rightarrow> 'l tc_server" where
  "offer_report req s =
     (if length (ts_reports s) < nat (tcc_ReportBuffer (ts_cfg s))
      then s\<lparr>ts_reports := ts_reports s @ [req]\<rparr> else s)"

definition handleReport :: "tc_lib \<Rightarrow> nat request_ctx \<Rightarrow> 'l tc_server \<Rightarrow> 'l tc_server \<times> nat request_ctx" where
  "handleReport L ctx s =
     (let (s', ctx') =
        (case tl_unmarshal_report L (Request_Value (ctx_Request ctx)) of
           Inl err \<Rightarrow>
             (s, writeError L RPC_INVALID_REQUEST (Errorf ''cannot unmarshal report request: %w'' [AWrap err]) ctx)
         | Inr req \<Rightarrow>
            (case requestPayer L (ReportRequest_GetPayer (Some req)) s of
               (s1, Inl err) \<Rightarrow> (s1, writeError L RPC_UNAUTHORIZED err ctx)
             | (s1, Inr _) \<Rightarrow>
                (case check_rule_payers L ''rule %d: %w'' 0
                        (map ReportRequest_Rule_GetPayer (ReportRequest_GetRules (Some req))) s1 of
                   (s2, Some err) \<Rightarrow> (s2, writeError L RPC_UNAUTHORIZED err ctx)
                 | (s2, None) \<Rightarrow> (offer_report req s2, ctx_status RPC_OK ctx))))
      in (dropConn (ctx_conn ctx) s', ctx'))"

definition TouchUserID :: string where "TouchUserID = ''test-cloud-user''"

definition handleTouch :: "tc_lib \<Rightarrow> nat request_ctx \<Rightarrow> uuid \<Rightarrow> 'l tc_server \<Rightarrow> 'l tc_server \<times> nat request_ctx" where
  "handleTouch L ctx partnerID s =
     (if partnerID \<notin> set (tcc_TouchPartners (ts_cfg s)) then
        (s, writeError L RPC_FORBIDDEN (Errorf ''touch is not granted to %s'' [AStr (tl_uuid_string L partnerID)]) ctx)
      else case tl_unmarshal_touch L (Request_Value (ctx_Request ctx)) of
        Inl err \<Rightarrow>
          (s, writeError L RPC_INVALID_REQUEST (Errorf ''cannot unmarshal touch request: %w'' [AWrap err]) ctx)
      | Inr req \<Rightarrow>
          (s, writeProto L RPC_OK (tl_marshal_touch L
             \<lparr>TouchResponse_UserId = bytes_of_string TouchUserID, TouchResponse_Accuracy = TouchResponse_Reliable,
              TouchResponse_Label = bytes_of_string ''test-telecom''\<rparr>) ctx))"

definition handle_request :: "tc_lib \<Rightarrow> auth_store \<Rightarrow> nat request_ctx \<Rightarrow> 'l tc_server \<Rightarrow>
    'l tc_server \<times> nat request_ctx" where
  "handle_request L conns ctx s =
     (case GetUUID conns (ctx_conn ctx) of
        (_, False) \<Rightarrow>
          (s\<lparr>ts_unauthorized := ts_unauthorized s + 1\<rparr>,
           writeError L RPC_UNAUTHORIZED (Errorf ''mTLS client certificate is required'' []) ctx)
      | (partnerID, True) \<Rightarrow>
         (let s1 = s\<lparr>ts_lastCaller := Some partnerID\<rparr>; name = Request_GetName (ctx_Request ctx) in
          if name = Target then handleTarget L ctx s1
          else if name = Report then handleReport L ctx s1
          else if name = Touch then handleTouch L ctx partnerID s1
          else (s1, writeError L RPC_INVALID_REQUEST (Errorf ''unsupported request name: %s'' [reg_arg name]) ctx)))"

text \<open>The handler of fastrpc's concurrency limit.\<close>

definition tc_concurrency_limit :: "tc_lib \<Rightarrow> nat request_ctx \<Rightarrow> int \<Rightarrow> nat request_ctx" where
  "tc_concurrency_limit L ctx concurrency =
     writeError L RPC_TECH_ERROR (Errorf ''concurrency limit exceeded: %d'' [AInt concurrency]) ctx"

section \<open>The server at work\<close>

text \<open>
  A server handles requests, each on a connection of the store it finds, and hands reports to
  whoever receives from its channel.
\<close>

inductive tc_step :: "tc_lib \<Rightarrow> 'l tc_server \<Rightarrow> 'l tc_server \<Rightarrow> bool" for L where
  handled: "handle_request L conns ctx s = (s', ctx') \<Longrightarrow> tc_step L s s'"
| received: "ts_reports s = r # rs \<Longrightarrow> tc_step L s (s\<lparr>ts_reports := rs\<rparr>)"

inductive tc_reachable :: "tc_lib \<Rightarrow> tc_config \<Rightarrow> 'l tc_server \<Rightarrow> bool" for L cfg where
  start: "tc_reachable L cfg (NewServer cfg)"
| step: "tc_reachable L cfg s \<Longrightarrow> tc_step L s s' \<Longrightarrow> tc_reachable L cfg s'"

inductive_cases tc_stepE: "tc_step L s s'"

section \<open>Lemmas\<close>

definition payer_named :: "tc_lib \<Rightarrow> string \<Rightarrow> bool" where
  "payer_named L p \<longleftrightarrow> (\<exists>u. names_payer (tl_uuid_parse L) p u)"

definition report_billed :: "tc_lib \<Rightarrow> served_report \<Rightarrow> bool" where
  "report_billed L r \<longleftrightarrow> payer_named L (ReportRequest_Payer r) \<and>
     (\<forall>rule \<in> set (ReportRequest_Rules r). payer_named L (ReportRequest_Rule_GetPayer rule))"

lemma requestPayer_named: "payer_named L p \<Longrightarrow> \<exists>u. requestPayer L p s = (s, Inr u)"
  by (auto simp: requestPayer_def payer_named_def names_payer_def)

lemma requestPayer_unnamed:
  "\<not> payer_named L p \<Longrightarrow> \<exists>e. requestPayer L p s =
    (if unset_payer (tl_uuid_parse L) p then s\<lparr>ts_unauthorized := ts_unauthorized s + 1\<rparr> else s, Inl e)"
  by (auto simp: requestPayer_def payer_named_def names_payer_def unset_payer_def Let_def split: sum.splits)

text \<open>The first payer of a list that is not named.\<close>

definition first_unnamed :: "tc_lib \<Rightarrow> string list \<Rightarrow> nat \<Rightarrow> bool" where
  "first_unnamed L ps i \<longleftrightarrow> i < length ps \<and> \<not> payer_named L (ps ! i) \<and> (\<forall>j < i. payer_named L (ps ! j))"

lemma check_rule_payers_ok:
  "\<forall>p \<in> set ps. payer_named L p \<Longrightarrow> check_rule_payers L what i ps s = (s, None)"
  by (induction ps arbitrary: i) (auto dest: requestPayer_named [of L _ s])

lemma check_rule_payers_fails:
  assumes "\<not> (\<forall>p \<in> set ps. payer_named L p)"
  shows "\<exists>i e. first_unnamed L ps i \<and> check_rule_payers L what k ps s =
    (if unset_payer (tl_uuid_parse L) (ps ! i) then s\<lparr>ts_unauthorized := ts_unauthorized s + 1\<rparr> else s,
     Some (Errorf what [AInt (int (k + i)), AWrap e]))"
  using assms
proof (induction ps arbitrary: k)
  case (Cons p ps)
  show ?case
  proof (cases "payer_named L p")
    case True
    with Cons obtain i e where i: "first_unnamed L ps i" "check_rule_payers L what (Suc k) ps s =
      (if unset_payer (tl_uuid_parse L) (ps ! i) then s\<lparr>ts_unauthorized := ts_unauthorized s + 1\<rparr> else s,
       Some (Errorf what [AInt (int (Suc k + i)), AWrap e]))" by fastforce
    have "first_unnamed L (p # ps) (Suc i)"
      using i(1) True by (auto simp: first_unnamed_def nth_Cons split: nat.splits)
    moreover obtain u where "requestPayer L p s = (s, Inr u)" using requestPayer_named [OF True] by blast
    ultimately show ?thesis using i(2) by (intro exI [of _ "Suc i"] exI [of _ e]) simp
  next
    case False
    from requestPayer_unnamed [OF this, of s] obtain e where "requestPayer L p s =
      (if unset_payer (tl_uuid_parse L) p then s\<lparr>ts_unauthorized := ts_unauthorized s + 1\<rparr> else s, Inl e)" by blast
    with False show ?thesis
      by (intro exI [of _ 0] exI [of _ e]) (simp add: first_unnamed_def)
  qed
qed simp

text \<open>What the writers leave on the context.\<close>

lemma writeError_answer [simp]:
  "GetStatusCode (ctx_Response (writeError L code err ctx)) = code"
  "Response_Value (ctx_Response (writeError L code err ctx)) = Response_Value (ctx_Response ctx) @ tl_error_text L err"
  "ctx_Request (writeError L code err ctx) = ctx_Request ctx"
  "ctx_conn (writeError L code err ctx) = ctx_conn ctx"
  by (simp_all add: writeError_def ctx_status_def Ctx_Write_def response_ops)

lemma writeProto_answer [simp]:
  "GetStatusCode (ctx_Response (writeProto L code m ctx)) = (case m of Inl _ \<Rightarrow> RPC_TECH_ERROR | Inr _ \<Rightarrow> code)"
  "Response_Value (ctx_Response (writeProto L code m ctx)) = Response_Value (ctx_Response ctx) @
     (case m of Inl err \<Rightarrow> tl_error_text L (Errorf ''cannot marshal response: %w'' [AWrap err]) | Inr bb \<Rightarrow> bb)"
  "ctx_Request (writeProto L code m ctx) = ctx_Request ctx"
  "ctx_conn (writeProto L code m ctx) = ctx_conn ctx"
  by (simp_all add: writeProto_def writeError_def ctx_status_def Ctx_Write_def response_ops split: sum.split)

lemma ctx_status_answer [simp]:
  "GetStatusCode (ctx_Response (ctx_status code ctx)) = code"
  "Response_Value (ctx_Response (ctx_status code ctx)) = Response_Value (ctx_Response ctx)"
  "ctx_Request (ctx_status code ctx) = ctx_Request ctx" "ctx_conn (ctx_status code ctx) = ctx_conn ctx"
  by (simp_all add: ctx_status_def response_ops)

lemma dropConn_fields [simp]:
  "ts_cfg (dropConn c s) = ts_cfg s" "ts_reports (dropConn c s) = ts_reports s"
  "ts_counter (dropConn c s) = ts_counter s" "ts_lastCaller (dropConn c s) = ts_lastCaller s"
  "ts_unauthorized (dropConn c s) = ts_unauthorized s"
  by (simp_all add: dropConn_def)

text \<open>A refused request: only the count of refusals may have moved.\<close>

definition only_refused :: "'l tc_server \<Rightarrow> 'l tc_server \<Rightarrow> bool" where
  "only_refused s s' \<longleftrightarrow> (\<exists>n. s' = s\<lparr>ts_unauthorized := n\<rparr>)"

lemma only_refused_fields:
  "only_refused s s' \<Longrightarrow> ts_cfg s' = ts_cfg s \<and> ts_reports s' = ts_reports s \<and> ts_counter s' = ts_counter s \<and>
     ts_lastCaller s' = ts_lastCaller s \<and> ts_closing s' = ts_closing s"
  by (auto simp: only_refused_def)

lemma only_refused_refl [simp, intro]: "only_refused s s"
  unfolding only_refused_def by (rule exI [of _ "ts_unauthorized s"]) simp

lemma only_refused_count [simp, intro]: "only_refused s (s\<lparr>ts_unauthorized := n\<rparr>)"
  by (auto simp: only_refused_def)

lemma check_rule_payers_refuses:
  "check_rule_payers L what k ps s = (s', Some err) \<Longrightarrow> only_refused s s'"
  "check_rule_payers L what k ps s = (s', None) \<Longrightarrow> s' = s \<and> (\<forall>p \<in> set ps. payer_named L p)"
proof -
  assume a: "check_rule_payers L what k ps s = (s', Some err)"
  show "only_refused s s'"
  proof (cases "\<forall>p \<in> set ps. payer_named L p")
    case True
    with check_rule_payers_ok [OF True, of what k s] a show ?thesis by simp
  next
    case False
    from check_rule_payers_fails [OF False, of what k s] a show ?thesis by (auto split: if_splits)
  qed
next
  assume a: "check_rule_payers L what k ps s = (s', None)"
  show "s' = s \<and> (\<forall>p \<in> set ps. payer_named L p)"
  proof (cases "\<forall>p \<in> set ps. payer_named L p")
    case True
    with check_rule_payers_ok [OF True, of what k s] a show ?thesis by simp
  next
    case False
    from check_rule_payers_fails [OF False, of what k s] a show ?thesis by auto
  qed
qed

lemma requestPayer_refuses:
  "requestPayer L p s = (s', Inl err) \<Longrightarrow> only_refused s s' \<and> \<not> payer_named L p"
  "requestPayer L p s = (s', Inr u) \<Longrightarrow> s' = s \<and> payer_named L p"
proof -
  assume "requestPayer L p s = (s', Inl err)"
  then show "only_refused s s' \<and> \<not> payer_named L p"
    using requestPayer_named [of L p s] requestPayer_unnamed [of L p s]
    by (cases "payer_named L p") (auto split: if_splits)
next
  assume "requestPayer L p s = (s', Inr u)"
  then show "s' = s \<and> payer_named L p"
    using requestPayer_named [of L p s] requestPayer_unnamed [of L p s]
    by (cases "payer_named L p") auto
qed

section \<open>Lemmas: the handlers\<close>

lemma refusal_codes [simp]:
  "RPC_FORBIDDEN \<noteq> RPC_OK" "RPC_INVALID_REQUEST \<noteq> RPC_OK" "RPC_UNAUTHORIZED \<noteq> RPC_OK" "RPC_TECH_ERROR \<noteq> RPC_OK"
  by (simp_all add: rpc_codes)

definition target_payers :: "served_target \<Rightarrow> string list" where
  "target_payers req = map Match_Rule_GetPayer (TargetRequest_Match req)"

definition report_payers :: "served_report \<Rightarrow> string list" where
  "report_payers req = map ReportRequest_Rule_GetPayer (ReportRequest_Rules req)"

lemma report_billed_payers:
  "report_billed L req \<longleftrightarrow> payer_named L (ReportRequest_Payer req) \<and> (\<forall>p \<in> set (report_payers req). payer_named L p)"
  by (simp add: report_billed_def report_payers_def)

definition target_reply :: "'l tc_server \<Rightarrow> served_target \<Rightarrow> target_response" where
  "target_reply s req =
     \<lparr>TargetResponse_TrackingId = snd (nextTrackingID s), TargetResponse_StatusCode = RPC_OK,
      TargetResponse_Frequency = replicate (length (TargetRequest_Frequency req)) Frequency_STATUS_PASSED,
      TargetResponse_Match = replicate (length (TargetRequest_Match req)) Match_OK\<rparr>"

lemma handleTarget_accepts:
  assumes "tl_unmarshal_target L (Request_Value (ctx_Request ctx)) = Inr req"
    and "\<forall>p \<in> set (target_payers req). payer_named L p" "tcc_TargetStatus (ts_cfg s) = RPC_OK"
  shows "handleTarget L ctx s =
    (dropConn (ctx_conn ctx) (fst (nextTrackingID s)),
     writeProto L RPC_OK (tl_marshal_target L (target_reply s req)) ctx)"
  using check_rule_payers_ok [OF assms(2), of "''match rule %d: %w''" 0 s] assms(1,3)
  by (simp add: handleTarget_def target_payers_def getters target_reply_def nextTrackingID_def Let_def)

lemma handleTarget_cases:
  assumes "handleTarget L ctx s = (s', ctx')"
  obtains (ok) req where "tl_unmarshal_target L (Request_Value (ctx_Request ctx)) = Inr req"
      "\<forall>p \<in> set (target_payers req). payer_named L p" "tcc_TargetStatus (ts_cfg s) = RPC_OK"
      "s' = dropConn (ctx_conn ctx) (fst (nextTrackingID s))"
      "ctx' = writeProto L RPC_OK (tl_marshal_target L (target_reply s req)) ctx"
  | (refused) s1 code err where "only_refused s s1" "s' = dropConn (ctx_conn ctx) s1" "code \<noteq> RPC_OK"
      "ctx' = writeError L code err ctx"
proof (cases "tl_unmarshal_target L (Request_Value (ctx_Request ctx))")
  case (Inl e)
  with assms have "s' = dropConn (ctx_conn ctx) s"
    "ctx' = writeError L RPC_INVALID_REQUEST (Errorf ''cannot unmarshal target request: %w'' [AWrap e]) ctx"
    by (simp_all add: handleTarget_def)
  then show ?thesis by (intro refused [of s RPC_INVALID_REQUEST]) simp_all
next
  case (Inr req)
  let ?check = "check_rule_payers L ''match rule %d: %w'' 0 (map Match_Rule_GetPayer (TargetRequest_Match req)) s"
  obtain s1 res where c: "?check = (s1, res)" by fastforce
  show ?thesis
  proof (cases res)
    case (Some e)
    with c Inr assms have "s' = dropConn (ctx_conn ctx) s1" "ctx' = writeError L RPC_UNAUTHORIZED e ctx"
      by (simp_all add: handleTarget_def getters)
    with check_rule_payers_refuses(1) [OF c [unfolded Some]] show ?thesis
      by (intro refused [of s1 RPC_UNAUTHORIZED]) (simp_all add: rpc_codes)
  next
    case None
    from check_rule_payers_refuses(2) [OF c [unfolded None]]
    have s1: "s1 = s" and named: "\<forall>p \<in> set (target_payers req). payer_named L p"
      by (simp_all add: target_payers_def)
    show ?thesis
    proof (cases "tcc_TargetStatus (ts_cfg s) = RPC_OK")
      case True
      with handleTarget_accepts [OF Inr named True] assms show ?thesis by (intro ok [OF Inr named True]) simp_all
    next
      case False
      with c None s1 Inr assms have "s' = dropConn (ctx_conn ctx) s"
        "ctx' = writeError L (tcc_TargetStatus (ts_cfg s)) (Errorf ''target failed'' []) ctx"
        by (simp_all add: handleTarget_def getters)
      with False show ?thesis by (intro refused [of s]) simp_all
    qed
  qed
qed

lemma handleReport_accepts:
  assumes "tl_unmarshal_report L (Request_Value (ctx_Request ctx)) = Inr req" "report_billed L req"
  shows "handleReport L ctx s = (dropConn (ctx_conn ctx) (offer_report req s), ctx_status RPC_OK ctx)"
proof -
  have named: "payer_named L (ReportRequest_Payer req)" "\<forall>p \<in> set (report_payers req). payer_named L p"
    using assms(2) by (simp_all add: report_billed_payers)
  obtain u where "requestPayer L (ReportRequest_Payer req) s = (s, Inr u)"
    using requestPayer_named [OF named(1)] by blast
  with assms(1) check_rule_payers_ok [OF named(2), of "''rule %d: %w''" 0 s] show ?thesis
    by (simp add: handleReport_def report_payers_def getters)
qed

lemma handleReport_cases:
  assumes "handleReport L ctx s = (s', ctx')"
  obtains (ok) req where "tl_unmarshal_report L (Request_Value (ctx_Request ctx)) = Inr req" "report_billed L req"
      "s' = dropConn (ctx_conn ctx) (offer_report req s)" "ctx' = ctx_status RPC_OK ctx"
  | (refused) s1 code err where "only_refused s s1" "s' = dropConn (ctx_conn ctx) s1" "code \<noteq> RPC_OK"
      "ctx' = writeError L code err ctx"
      "\<forall>req. tl_unmarshal_report L (Request_Value (ctx_Request ctx)) = Inr req \<longrightarrow> \<not> report_billed L req \<and> code = RPC_UNAUTHORIZED"
proof (cases "tl_unmarshal_report L (Request_Value (ctx_Request ctx))")
  case (Inl e)
  with assms have "s' = dropConn (ctx_conn ctx) s"
    "ctx' = writeError L RPC_INVALID_REQUEST (Errorf ''cannot unmarshal report request: %w'' [AWrap e]) ctx"
    by (simp_all add: handleReport_def)
  with Inl show ?thesis by (intro refused [of s RPC_INVALID_REQUEST]) simp_all
next
  case (Inr req)
  obtain s1 r where p: "requestPayer L (ReportRequest_Payer req) s = (s1, r)" by fastforce
  show ?thesis
  proof (cases r)
    case (Inl e)
    with p Inr assms have "s' = dropConn (ctx_conn ctx) s1" "ctx' = writeError L RPC_UNAUTHORIZED e ctx"
      by (simp_all add: handleReport_def getters)
    moreover have "only_refused s s1" "\<not> report_billed L req"
      using requestPayer_refuses(1) [OF p [unfolded Inl]] by (simp_all add: report_billed_payers)
    ultimately show ?thesis using Inr by (intro refused [of s1 RPC_UNAUTHORIZED]) (simp_all add: rpc_codes)
  next
    case (Inr u)
    from requestPayer_refuses(2) [OF p [unfolded Inr]]
    have s1: "s1 = s" and named: "payer_named L (ReportRequest_Payer req)" by simp_all
    obtain s2 res where c: "check_rule_payers L ''rule %d: %w'' 0
        (map ReportRequest_Rule_GetPayer (ReportRequest_Rules req)) s = (s2, res)" by fastforce
    show ?thesis
    proof (cases res)
      case (Some e)
      with p c s1 Inr \<open>_ = Inr req\<close> assms have "s' = dropConn (ctx_conn ctx) s2" "ctx' = writeError L RPC_UNAUTHORIZED e ctx"
        by (simp_all add: handleReport_def getters)
      moreover have "only_refused s s2" by (rule check_rule_payers_refuses(1) [OF c [unfolded Some]])
      moreover have "\<not> report_billed L req"
        using check_rule_payers_ok [of "report_payers req" L "''rule %d: %w''" 0 s] c Some
        by (auto simp: report_billed_payers report_payers_def)
      ultimately show ?thesis using \<open>_ = Inr req\<close> by (intro refused [of s2 RPC_UNAUTHORIZED]) (simp_all add: rpc_codes)
    next
      case None
      from check_rule_payers_refuses(2) [OF c [unfolded None]] named have billed: "report_billed L req"
        by (simp add: report_billed_payers report_payers_def)
      with handleReport_accepts [OF \<open>_ = Inr req\<close> billed, of s] assms show ?thesis
        by (intro ok [OF \<open>_ = Inr req\<close>]) simp_all
    qed
  qed
qed

lemma handleTouch_cases:
  assumes "handleTouch L ctx partnerID s = (s', ctx')"
  obtains (ok) req m where "partnerID \<in> set (tcc_TouchPartners (ts_cfg s))"
      "tl_unmarshal_touch L (Request_Value (ctx_Request ctx)) = Inr req" "s' = s"
      "ctx' = writeProto L RPC_OK m ctx"
  | (refused) code err where "s' = s" "code \<noteq> RPC_OK" "ctx' = writeError L code err ctx"
      "partnerID \<notin> set (tcc_TouchPartners (ts_cfg s)) \<Longrightarrow> code = RPC_FORBIDDEN"
proof (cases "partnerID \<in> set (tcc_TouchPartners (ts_cfg s))")
  case False
  with assms show ?thesis
    by (intro refused [of RPC_FORBIDDEN]) (auto simp: handleTouch_def)
next
  case True
  with assms show ?thesis
    by (cases "tl_unmarshal_touch L (Request_Value (ctx_Request ctx))")
      (auto simp: handleTouch_def intro: ok refused [of RPC_INVALID_REQUEST])
qed

lemma handle_request_cases:
  assumes "handle_request L conns ctx s = (s', ctx')"
  obtains (anonymous) u where "GetUUID conns (ctx_conn ctx) = (u, False)"
      "s' = s\<lparr>ts_unauthorized := ts_unauthorized s + 1\<rparr>"
      "ctx' = writeError L RPC_UNAUTHORIZED (Errorf ''mTLS client certificate is required'' []) ctx"
  | (target) u where "GetUUID conns (ctx_conn ctx) = (u, True)" "Request_GetName (ctx_Request ctx) = Target"
      "handleTarget L ctx (s\<lparr>ts_lastCaller := Some u\<rparr>) = (s', ctx')"
  | (report) u where "GetUUID conns (ctx_conn ctx) = (u, True)" "Request_GetName (ctx_Request ctx) = Report"
      "handleReport L ctx (s\<lparr>ts_lastCaller := Some u\<rparr>) = (s', ctx')"
  | (touch) u where "GetUUID conns (ctx_conn ctx) = (u, True)" "Request_GetName (ctx_Request ctx) = Touch"
      "handleTouch L ctx u (s\<lparr>ts_lastCaller := Some u\<rparr>) = (s', ctx')"
  | (other) u err where "GetUUID conns (ctx_conn ctx) = (u, True)"
      "Request_GetName (ctx_Request ctx) \<notin> {Target, Report, Touch}"
      "s' = s\<lparr>ts_lastCaller := Some u\<rparr>" "ctx' = writeError L RPC_INVALID_REQUEST err ctx"
proof -
  obtain u b where g: "GetUUID conns (ctx_conn ctx) = (u, b)" by fastforce
  show ?thesis
  proof (cases b)
    case False
    with g assms show ?thesis by (intro anonymous) (simp_all add: handle_request_def)
  next
    case True
    with g assms show ?thesis
      by (auto simp: handle_request_def Let_def split: if_splits intro: target report touch other)
  qed
qed

lemma GetUUID_conn: "GetUUID conns i = (u, True) \<Longrightarrow> \<exists>c. conns i = Some c \<and> ac_authID c = u \<and> u \<noteq> uuid_Nil"
  by (auto simp: GetUUID_def GetConn_def conn_GetUUID_def Let_def split: option.splits)

lemma GetUUID_True: "GetUUID conns i = (u, True) \<Longrightarrow> u \<noteq> uuid_Nil"
  by (auto simp: GetUUID_def Let_def split: option.splits)

definition tc_inv :: "tc_lib \<Rightarrow> tc_config \<Rightarrow> 'l tc_server \<Rightarrow> bool" where
  "tc_inv L cfg s \<longleftrightarrow> ts_cfg s = tc_normalizeConfig cfg \<and>
     length (ts_reports s) \<le> nat (tcc_ReportBuffer (tc_normalizeConfig cfg)) \<and>
     list_all (report_billed L) (ts_reports s) \<and> ts_lastCaller s \<noteq> Some uuid_Nil"

lemma tc_inv_caller [simp]: "u \<noteq> uuid_Nil \<Longrightarrow> tc_inv L cfg s \<Longrightarrow> tc_inv L cfg (s\<lparr>ts_lastCaller := Some u\<rparr>)"
  by (simp add: tc_inv_def)

lemma tc_inv_refused: "only_refused s s' \<Longrightarrow> tc_inv L cfg s \<Longrightarrow> tc_inv L cfg s'"
  by (auto simp: tc_inv_def only_refused_def)

lemma tc_inv_drop [simp]: "tc_inv L cfg (dropConn c s) = tc_inv L cfg s"
  by (simp add: tc_inv_def)

lemma tc_inv_offer: "report_billed L r \<Longrightarrow> tc_inv L cfg s \<Longrightarrow> tc_inv L cfg (offer_report r s)"
  by (auto simp: tc_inv_def offer_report_def)

lemma tc_inv_tracking: "tc_inv L cfg s \<Longrightarrow> tc_inv L cfg (fst (nextTrackingID s))"
  by (simp add: tc_inv_def nextTrackingID_def Let_def)

lemma tc_inv_handle:
  assumes "handle_request L conns ctx s = (s', ctx')" "tc_inv L cfg s"
  shows "tc_inv L cfg s'"
  using assms(1)
proof (cases rule: handle_request_cases)
  case (anonymous u)
  with assms(2) show ?thesis by (simp add: tc_inv_def)
next
  case (target u)
  from target(3) GetUUID_True [OF target(1)] assms(2) show ?thesis
    by (cases rule: handleTarget_cases) (auto intro: tc_inv_tracking tc_inv_refused tc_inv_caller)
next
  case (report u)
  from report(3) GetUUID_True [OF report(1)] assms(2) show ?thesis
    by (cases rule: handleReport_cases) (auto intro: tc_inv_offer tc_inv_refused tc_inv_caller)
next
  case (touch u)
  from touch(3) GetUUID_True [OF touch(1)] assms(2) show ?thesis
    by (cases rule: handleTouch_cases) (auto intro: tc_inv_caller)
next
  case (other u err)
  with GetUUID_True assms(2) show ?thesis by simp
qed

lemma tc_reachable_inv: "tc_reachable L cfg s \<Longrightarrow> tc_inv L cfg s"
proof (induction rule: tc_reachable.induct)
  case start
  then show ?case by (simp add: tc_inv_def NewServer_def)
next
  case (step s s')
  from step.hyps(2) show ?case
  proof (cases rule: tc_step.cases)
    case (handled conns ctx ctx')
    from tc_inv_handle [OF this step.IH] show ?thesis .
  next
    case (received r rs)
    with step.IH show ?thesis by (auto simp: tc_inv_def)
  qed
qed

section \<open>Lemmas: tracking ids\<close>

definition tracking_id :: "16 word \<Rightarrow> uint64 \<Rightarrow> bytes" where
  "tracking_id serverID n = bytes_of_string (hex_pad 4 (unat serverID) @ hex_pad 12 (unat n))"

lemma nextTrackingID_tracking_id:
  "nextTrackingID s = (s\<lparr>ts_counter := ts_counter s + 1\<rparr>, tracking_id (tcc_ServerID (ts_cfg s)) (ts_counter s + 1))"
  by (simp add: nextTrackingID_def tracking_id_def Let_def)

lemma length_hex_pad_4: "length (hex_pad 4 (unat (i :: 16 word))) = 4"
  using unsigned_less [of i] by (intro length_hex_pad) simp_all

lemma tracking_id_shape:
  "unat n < 2 ^ 48 \<Longrightarrow> length (tracking_id i n) = 16 \<and> take 4 (tracking_id i n) = bytes_of_string (hex_pad 4 (unat i))"
  using length_hex_pad [of 12 "unat n"]
  by (simp add: tracking_id_def bytes_of_string_def length_hex_pad_4 take_map)

lemma tracking_id_inject: "tracking_id i m = tracking_id i n \<longleftrightarrow> m = n"
  by (simp add: tracking_id_def bytes_of_string_inject hex_pad_inject word_unat_eq_iff)

text \<open>A run of requests, and the tracking ids its Target answers carry as a client decodes them.\<close>

fun tc_serve :: "tc_lib \<Rightarrow> (auth_store \<times> nat request_ctx) list \<Rightarrow> 'l tc_server \<Rightarrow> 'l tc_server \<times> nat request_ctx list" where
  "tc_serve L [] s = (s, [])"
| "tc_serve L ((conns, ctx) # reqs) s =
     (let (s1, ctx') = handle_request L conns ctx s; (s2, answers) = tc_serve L reqs s1 in (s2, ctx' # answers))"

definition answered_ids :: "(bytes \<Rightarrow> target_response result) \<Rightarrow> nat request_ctx \<Rightarrow> bytes list" where
  "answered_ids unmarshal ctx =
     (if Request_GetName (ctx_Request ctx) = Target \<and> GetStatusCode (ctx_Response ctx) = RPC_OK
      then case unmarshal (Response_Value (ctx_Response ctx)) of
             Inr r \<Rightarrow> [TargetResponse_TrackingId r] | Inl _ \<Rightarrow> []
      else [])"

text \<open>What one request does to the counter, and the id its answer may carry.\<close>

lemma handle_request_id:
  assumes "handle_request L conns ctx s = (s', ctx')" "Response_Value (ctx_Response ctx) = []"
    and "\<forall>r bs. tl_marshal_target L r = Inr bs \<longrightarrow> unmarshal bs = Inr r"
  shows "ts_cfg s' = ts_cfg s \<and>
    ((ts_counter s' = ts_counter s \<and> answered_ids unmarshal ctx' = []) \<or>
     (ts_counter s' = ts_counter s + 1 \<and>
      answered_ids unmarshal ctx' \<in> {[], [tracking_id (tcc_ServerID (ts_cfg s)) (ts_counter s + 1)]}))"
  using assms(1)
proof (cases rule: handle_request_cases)
  case (anonymous u)
  then show ?thesis by (simp add: answered_ids_def)
next
  case (target u)
  from target(3) show ?thesis
  proof (cases rule: handleTarget_cases)
    case (ok req)
    with assms(2,3) show ?thesis
      by (cases "tl_marshal_target L (target_reply (s\<lparr>ts_lastCaller := Some u\<rparr>) req)")
        (simp_all add: answered_ids_def nextTrackingID_tracking_id target_reply_def)
  next
    case (refused s1 code err)
    with only_refused_fields [OF refused(1)] show ?thesis by (simp add: answered_ids_def)
  qed
next
  case (report u)
  from report(3) show ?thesis
  proof (cases rule: handleReport_cases)
    case (ok req)
    with report(2) show ?thesis
      by (simp add: answered_ids_def offer_report_def Target_def Report_def)
  next
    case (refused s1 code err)
    with only_refused_fields [OF refused(1)] show ?thesis by (simp add: answered_ids_def)
  qed
next
  case (touch u)
  from touch(3) show ?thesis
    by (cases rule: handleTouch_cases) (use touch(2) in \<open>simp_all add: answered_ids_def Target_def Touch_def\<close>)
next
  case (other u err)
  then show ?thesis by (simp add: answered_ids_def)
qed

lemma tc_serve_ids:
  assumes "tc_serve L reqs s = (s', answers)"
    and "\<forall>req \<in> set reqs. Response_Value (ctx_Response (snd req)) = []"
    and "\<forall>r bs. tl_marshal_target L r = Inr bs \<longrightarrow> unmarshal bs = Inr r"
    and "unat (ts_counter s) + length reqs < 2 ^ 48"
  shows "\<exists>ns. concat (map (answered_ids unmarshal) answers) = map (tracking_id (tcc_ServerID (ts_cfg s))) ns \<and>
    distinct ns \<and> (\<forall>n \<in> set ns. unat (ts_counter s) < unat n \<and> unat n \<le> unat (ts_counter s) + length reqs)"
  using assms(1,2,4)
proof (induction reqs arbitrary: s answers)
  case Nil
  then show ?case by (intro exI [of _ "[]"]) simp
next
  case (Cons req reqs)
  obtain conns ctx where req: "req = (conns, ctx)" by fastforce
  obtain s1 ctx' where h: "handle_request L conns ctx s = (s1, ctx')" by fastforce
  from Cons.prems(1) obtain rest' where t: "tc_serve L reqs s1 = (s', rest')" and answers: "answers = ctx' # rest'"
    by (auto simp: req h split: prod.splits)
  have empty: "Response_Value (ctx_Response ctx) = []" using Cons.prems(2) req by simp
  note id = handle_request_id [OF h empty assms(3)]
  have suc: "unat (ts_counter s + 1) = Suc (unat (ts_counter s))"
    using Cons.prems(3) by (simp add: unat_word_ariths)
  let ?sid = "tcc_ServerID (ts_cfg s)"
  have "unat (ts_counter s1) \<le> Suc (unat (ts_counter s))" using id suc by auto
  then have "unat (ts_counter s1) + length reqs < 2 ^ 48" using Cons.prems(3) by simp
  with Cons.IH [OF t] Cons.prems(2) obtain ns where ns:
    "concat (map (answered_ids unmarshal) rest') = map (tracking_id (tcc_ServerID (ts_cfg s1))) ns"
    "distinct ns" "\<forall>n \<in> set ns. unat (ts_counter s1) < unat n \<and> unat n \<le> unat (ts_counter s1) + length reqs"
    by auto
  show ?case
  proof (cases "answered_ids unmarshal ctx' = []")
    case True
    with id ns suc show ?thesis by (intro exI [of _ ns]) (auto simp: answers)
  next
    case False
    with id have "answered_ids unmarshal ctx' = [tracking_id ?sid (ts_counter s + 1)]" "ts_counter s1 = ts_counter s + 1"
      by auto
    with id ns suc show ?thesis
      by (intro exI [of _ "(ts_counter s + 1) # ns"]) (auto simp: answers)
  qed
qed

section \<open>Properties\<close>

text \<open>
  C6. Nothing is answered OK without authority: a request answered with status OK came over a
  connection whose certificate named a partner, that partner is recorded as the last caller,
  and it was a Target whose every match rule names a client, a Report that names a payer itself
  and on every rule, or a Touch by a partner Touch is granted to.
\<close>

theorem ok_is_authorised:
  assumes "handle_request L conns ctx s = (s', ctx')" "GetStatusCode (ctx_Response ctx') = RPC_OK"
  shows "\<exists>c. conns (ctx_conn ctx) = Some c \<and> ac_authID c \<noteq> uuid_Nil \<and> LastCaller s' = ac_authID c \<and>
    ((Request_GetName (ctx_Request ctx) = Target \<and>
        (\<exists>req. tl_unmarshal_target L (Request_Value (ctx_Request ctx)) = Inr req \<and>
          (\<forall>p \<in> set (target_payers req). payer_named L p))) \<or>
     (Request_GetName (ctx_Request ctx) = Report \<and>
        (\<exists>req. tl_unmarshal_report L (Request_Value (ctx_Request ctx)) = Inr req \<and> report_billed L req)) \<or>
     (Request_GetName (ctx_Request ctx) = Touch \<and> ac_authID c \<in> set (tcc_TouchPartners (ts_cfg s))))"
proof -
  from assms(1) show ?thesis
  proof (cases rule: handle_request_cases)
    case (anonymous u)
    with assms(2) show ?thesis by simp
  next
    case (target u)
    from target(3) show ?thesis
    proof (cases rule: handleTarget_cases)
      case (ok req)
      then have "LastCaller s' = u" by (simp add: LastCaller_def nextTrackingID_def Let_def)
      with ok(1,2) target(2) GetUUID_conn [OF target(1)] show ?thesis by auto
    next
      case (refused s1 code err)
      with assms(2) show ?thesis by simp
    qed
  next
    case (report u)
    from report(3) show ?thesis
    proof (cases rule: handleReport_cases)
      case (ok req)
      then have "LastCaller s' = u" by (simp add: LastCaller_def offer_report_def)
      with ok(1,2) report(2) GetUUID_conn [OF report(1)] show ?thesis by auto
    next
      case (refused s1 code err)
      with assms(2) show ?thesis by simp
    qed
  next
    case (touch u)
    from touch(3) show ?thesis
    proof (cases rule: handleTouch_cases)
      case (ok req m)
      then have "LastCaller s' = u" by (simp add: LastCaller_def)
      with ok(1) touch(2) GetUUID_conn [OF touch(1)] show ?thesis by auto
    next
      case (refused code err)
      with assms(2) show ?thesis by simp
    qed
  next
    case (other u err)
    with assms(2) show ?thesis by simp
  qed
qed

text \<open>
  C24. The answer to a Target from a partner, on every branch. One that does not decode is
  INVALID_REQUEST with the decoder's error. If a match rule names no client it is UNAUTHORIZED with an
  error that names the first such rule, and the refusal is counted exactly when that payer is
  unset rather than unreadable. A server told to fail then answers with the status it is told and
  \<^verbatim>\<open>target failed\<close>. None of these uses up a tracking id. Otherwise one id is used up and the answer
  is OK with that fresh id, one OK per match rule and one pass per frequency rule, in bytes as
  protobuf encodes it, or TECH_ERROR with the encoder's error. No report is touched.
\<close>

theorem target_answered:
  assumes "GetUUID conns (ctx_conn ctx) = (u, True)" "Request_GetName (ctx_Request ctx) = Target"
    and "Response_Value (ctx_Response ctx) = []"
    and "handle_request L conns ctx s = (s', ctx')"
  shows "ts_reports s' = ts_reports s \<and> ts_lastCaller s' = Some u \<and>
    (case tl_unmarshal_target L (Request_Value (ctx_Request ctx)) of
       Inl err \<Rightarrow> ts_counter s' = ts_counter s \<and> ts_unauthorized s' = ts_unauthorized s \<and>
         response_obs (ctx_Response ctx') =
           (RPC_INVALID_REQUEST, tl_error_text L (Errorf ''cannot unmarshal target request: %w'' [AWrap err]))
     | Inr req \<Rightarrow>
         (if \<exists>p \<in> set (target_payers req). \<not> payer_named L p
          then ts_counter s' = ts_counter s \<and>
            (\<exists>i e. first_unnamed L (target_payers req) i \<and>
               response_obs (ctx_Response ctx') =
                 (RPC_UNAUTHORIZED, tl_error_text L (Errorf ''match rule %d: %w'' [AInt (int i), AWrap e])) \<and>
               ts_unauthorized s' = ts_unauthorized s +
                 (if unset_payer (tl_uuid_parse L) (target_payers req ! i) then 1 else 0))
          else ts_unauthorized s' = ts_unauthorized s \<and>
            (if tcc_TargetStatus (ts_cfg s) \<noteq> RPC_OK
             then ts_counter s' = ts_counter s \<and>
               response_obs (ctx_Response ctx') =
                 (tcc_TargetStatus (ts_cfg s), tl_error_text L (Errorf ''target failed'' []))
             else ts_counter s' = ts_counter s + 1 \<and>
               response_obs (ctx_Response ctx') =
                 (case tl_marshal_target L
                    \<lparr>TargetResponse_TrackingId = tracking_id (tcc_ServerID (ts_cfg s)) (ts_counter s + 1),
                     TargetResponse_StatusCode = RPC_OK,
                     TargetResponse_Frequency = replicate (length (TargetRequest_Frequency req)) Frequency_STATUS_PASSED,
                     TargetResponse_Match = replicate (length (TargetRequest_Match req)) Match_OK\<rparr> of
                    Inl err \<Rightarrow> (RPC_TECH_ERROR, tl_error_text L (Errorf ''cannot marshal response: %w'' [AWrap err]))
                  | Inr bs \<Rightarrow> (RPC_OK, bs)))))"
proof -
  let ?s = "s\<lparr>ts_lastCaller := Some u\<rparr>"
  have h: "handleTarget L ctx ?s = (s', ctx')"
    using assms(1,2,4) by (simp add: handle_request_def Let_def)
  show ?thesis
  proof (cases "tl_unmarshal_target L (Request_Value (ctx_Request ctx))")
    case (Inl err)
    with h assms(3) show ?thesis by (auto simp: handleTarget_def response_obs_def)
  next
    case req: (Inr req)
    show ?thesis
    proof (cases "\<forall>p \<in> set (target_payers req). payer_named L p")
      case True
      note c = check_rule_payers_ok [OF True, of "''match rule %d: %w''" 0 ?s]
      with True req h assms(3) show ?thesis
        by (auto simp: handleTarget_def target_payers_def getters response_obs_def nextTrackingID_tracking_id Let_def
            split: sum.split)
    next
      case False
      from check_rule_payers_fails [OF this, of "''match rule %d: %w''" 0 ?s] obtain i e where
        i: "first_unnamed L (target_payers req) i" and
        c: "check_rule_payers L ''match rule %d: %w'' 0 (target_payers req) ?s =
          (if unset_payer (tl_uuid_parse L) (target_payers req ! i)
           then ?s\<lparr>ts_unauthorized := ts_unauthorized ?s + 1\<rparr> else ?s,
           Some (Errorf ''match rule %d: %w'' [AInt (int i), AWrap e]))" by auto
      have "ts_counter s' = ts_counter s" "ts_reports s' = ts_reports s" "ts_lastCaller s' = Some u"
        "response_obs (ctx_Response ctx') =
          (RPC_UNAUTHORIZED, tl_error_text L (Errorf ''match rule %d: %w'' [AInt (int i), AWrap e]))"
        "ts_unauthorized s' = ts_unauthorized s +
          (if unset_payer (tl_uuid_parse L) (target_payers req ! i) then 1 else 0)"
        using h c req assms(3) by (auto simp: handleTarget_def target_payers_def getters response_obs_def)
      with False i req show ?thesis by auto
    qed
  qed
qed

text \<open>
  C29. A Report is taken exactly when it is billed: of a Report that decodes, from a partner, one
  that names a payer itself and on every rule is answered OK, without a body, and joins the end
  of the report channel if there is room; with a full channel it is answered OK as well but
  dropped, and the reports already held are untouched. Any other is UNAUTHORIZED and not held.
\<close>

theorem report_taken_iff_billed:
  assumes "GetUUID conns (ctx_conn ctx) = (u, True)" "Request_GetName (ctx_Request ctx) = Report"
    and "tl_unmarshal_report L (Request_Value (ctx_Request ctx)) = Inr req"
    and "handle_request L conns ctx s = (s', ctx')"
  shows "ts_counter s' = ts_counter s \<and>
    (if report_billed L req
     then response_obs (ctx_Response ctx') = (RPC_OK, Response_Value (ctx_Response ctx)) \<and>
       ts_unauthorized s' = ts_unauthorized s \<and>
       ts_reports s' = (if length (ts_reports s) < nat (tcc_ReportBuffer (ts_cfg s))
                        then ts_reports s @ [req] else ts_reports s)
     else GetStatusCode (ctx_Response ctx') = RPC_UNAUTHORIZED \<and> ts_reports s' = ts_reports s)"
proof -
  have h: "handleReport L ctx (s\<lparr>ts_lastCaller := Some u\<rparr>) = (s', ctx')"
    using assms(1,2,4) by (simp add: handle_request_def Let_def Target_def Report_def)
  show ?thesis
  proof (cases "report_billed L req")
    case True
    from handleReport_accepts [OF assms(3) True, of "s\<lparr>ts_lastCaller := Some u\<rparr>"] h True show ?thesis
      by (auto simp: response_obs_def offer_report_def)
  next
    case False
    from h show ?thesis
    proof (cases rule: handleReport_cases)
      case (ok r)
      with assms(3) False show ?thesis by simp
    next
      case (refused s1 code err)
      with only_refused_fields [OF refused(1)] assms(3) False show ?thesis by auto
    qed
  qed
qed

text \<open>
  C30. The server's state is sound at all times: however requests of any kind, from any connections,
  and receivers of the report channel interleave, the channel never holds more than the
  configured number of reports, every report in it names a payer itself and on every rule, the
  last caller is never the all-zero partner once there is one, and the configuration, completed
  at the start, never changes.
\<close>

theorem reachable_server:
  assumes "tc_reachable L cfg s"
  shows "length (ts_reports s) \<le> nat (tcc_ReportBuffer (ts_cfg s)) \<and> 0 < tcc_ReportBuffer (ts_cfg s) \<and>
    (\<forall>r \<in> set (ts_reports s). report_billed L r) \<and>
    (ts_lastCaller s = None \<or> LastCaller s \<noteq> uuid_Nil) \<and>
    ts_cfg s = tc_normalizeConfig cfg \<and> tc_normalizeConfig (ts_cfg s) = ts_cfg s \<and>
    tcc_ServerID (ts_cfg s) \<noteq> 0 \<and> tcc_TargetStatus (ts_cfg s) \<noteq> RPC_UNKNOWN"
proof -
  note inv = tc_reachable_inv [OF assms, unfolded tc_inv_def]
  have "tc_normalizeConfig (tc_normalizeConfig cfg) = tc_normalizeConfig cfg"
    "0 < tcc_ReportBuffer (tc_normalizeConfig cfg)" "tcc_ServerID (tc_normalizeConfig cfg) \<noteq> 0"
    "tcc_TargetStatus (tc_normalizeConfig cfg) \<noteq> RPC_UNKNOWN"
    by (simp_all add: tc_normalizeConfig_def default_if_def rpc_codes Let_def)
  with inv show ?thesis by (auto simp: LastCaller_def list_all_iff split: option.splits)
qed

text \<open>
  C23. Tracking ids are unique: as long as the counter stays below \<open>2 ^ 48\<close>, the ids a server hands
  out in any run of requests are pairwise different, 16 characters long, begin with the server's
  id in hexadecimal, and each is the text of a number above those handed out before.
\<close>

theorem tracking_ids_unique:
  assumes "tc_serve L reqs s = (s', answers)"
    and "\<forall>req \<in> set reqs. Response_Value (ctx_Response (snd req)) = []"
    and "\<forall>r bs. tl_marshal_target L r = Inr bs \<longrightarrow> unmarshal bs = Inr r"
    and "unat (ts_counter s) + length reqs < 2 ^ 48"
  shows "distinct (concat (map (answered_ids unmarshal) answers)) \<and>
    (\<forall>id \<in> set (concat (map (answered_ids unmarshal) answers)).
       length id = 16 \<and> take 4 id = bytes_of_string (hex_pad 4 (unat (tcc_ServerID (ts_cfg s)))) \<and>
       (\<exists>n. unat (ts_counter s) < n \<and> n \<le> unat (ts_counter s) + length reqs \<and>
          drop 4 id = bytes_of_string (hex_pad 12 n)))"
proof -
  let ?sid = "tcc_ServerID (ts_cfg s)"
  from tc_serve_ids [OF assms] obtain ns where
    ids: "concat (map (answered_ids unmarshal) answers) = map (tracking_id ?sid) ns" and d: "distinct ns" and
    b: "\<forall>n \<in> set ns. unat (ts_counter s) < unat n \<and> unat n \<le> unat (ts_counter s) + length reqs" by blast
  have "distinct (map (tracking_id ?sid) ns)"
    using d by (simp add: distinct_map inj_on_def tracking_id_inject)
  moreover have "drop 4 (tracking_id ?sid n) = bytes_of_string (hex_pad 12 (unat n))" for n
    by (simp add: tracking_id_def bytes_of_string_def length_hex_pad_4 drop_map)
  ultimately show ?thesis
    using b assms(4) tracking_id_shape by (fastforce simp: ids)
qed

section \<open>A concrete server\<close>

definition sample_rule :: "string \<Rightarrow> match_rule" where
  "sample_rule p = \<lparr>Match_TrafficType = 0, Match_SegmentIds = [], Match_Payer = p\<rparr>"

definition sample_served_target :: served_target where
  "sample_served_target = \<lparr>TargetRequest_Uids = [], TargetRequest_Frequency = [],
     TargetRequest_Match = [Some (sample_rule (sample_uuid_string 9))],
     TargetRequest_IndividualErrors = False, TargetRequest_Context = None, TargetRequest_Inventory = None\<rparr>"

definition sample_served_report :: served_report where
  "sample_served_report = \<lparr>ReportRequest_Payer = sample_uuid_string 9, ReportRequest_TrackingId = Some [1],
     ReportRequest_Event = 0, ReportRequest_Rules = []\<rparr>"

text \<open>A codec that keeps the tracking id and the length of the lists.\<close>

definition sample_tc_lib :: tc_lib where
  "sample_tc_lib = \<lparr>tl_uuid_parse = sample_uuid_parse, tl_uuid_string = sample_uuid_string,
     tl_error_text = (\<lambda>_. [69]), tl_grow = (\<lambda>_ _. 0),
     tl_unmarshal_target = (\<lambda>_. Inr sample_served_target), tl_unmarshal_report = (\<lambda>_. Inr sample_served_report),
     tl_unmarshal_touch = (\<lambda>_. Inl (Sentinel ''bad'')),
     tl_marshal_target = (\<lambda>r. if TargetResponse_StatusCode r = RPC_OK \<and> TargetResponse_Frequency r = [] \<and>
         TargetResponse_Match r = [Match_OK] then Inr (TargetResponse_TrackingId r) else Inl (Sentinel ''bad'')),
     tl_marshal_touch = (\<lambda>r. Inr (TouchResponse_UserId r))\<rparr>"

definition sample_unmarshal :: "bytes \<Rightarrow> target_response result" where
  "sample_unmarshal bs = Inr \<lparr>TargetResponse_TrackingId = bs, TargetResponse_StatusCode = RPC_OK,
     TargetResponse_Frequency = [], TargetResponse_Match = [Match_OK]\<rparr>"

definition sample_conns :: auth_store where
  "sample_conns = [0 \<mapsto> \<lparr>ac_requests = 0, ac_authID = 7\<rparr>]"

definition sample_ctx :: "RPCRegister \<Rightarrow> nat request_ctx" where
  "sample_ctx name = \<lparr>ctx_Request = Request_SetName name new_Request, ctx_Response = new_Response, ctx_conn = 0\<rparr>"

definition sample_tc_config :: tc_config where
  "sample_tc_config = \<lparr>tcc_ListenAddr = '''', tcc_ServerID = 0, tcc_TLSConfig = None, tcc_TouchPartners = [],
     tcc_TargetStatus = 0, tcc_ReportBuffer = 0, tcc_DropConnAfterRequest = False\<rparr>"

definition sample_server :: "unit tc_server" where
  "sample_server = NewServer sample_tc_config"

lemma sample_partner: "GetUUID sample_conns (ctx_conn (sample_ctx name)) = (7, True)"
  by (simp add: GetUUID_at sample_conns_def sample_ctx_def uuid_Nil_def)

lemma sample_ctx_fields [simp]:
  "Request_GetName (ctx_Request (sample_ctx name)) = name" "Response_Value (ctx_Response (sample_ctx name)) = []"
  by (simp_all add: sample_ctx_def request_ops response_ops slice_nil_def)

lemma sample_payer_named: "payer_named sample_tc_lib (sample_uuid_string 9)"
  by (auto simp: payer_named_def names_payer_def sample_tc_lib_def sample_uuid_simps uuid_Nil_def intro!: exI [of _ 9])

lemma sample_target_named: "\<forall>p \<in> set (target_payers sample_served_target). payer_named sample_tc_lib p"
  by (simp add: target_payers_def sample_served_target_def sample_rule_def getters sample_payer_named)

lemma sample_report_billed: "report_billed sample_tc_lib sample_served_report"
  by (simp add: report_billed_def sample_served_report_def sample_payer_named)

lemma sample_server_fields [simp]:
  "tcc_TargetStatus (ts_cfg sample_server) = RPC_OK" "tcc_ServerID (ts_cfg sample_server) = 1024"
  "ts_counter sample_server = 0" "ts_reports sample_server = []" "tcc_ReportBuffer (ts_cfg sample_server) = 8"
  by (simp_all add: sample_server_def NewServer_def sample_tc_config_def tc_normalizeConfig_def default_if_def
      rpc_codes Let_def)

lemma sample_decodes [simp]:
  "tl_unmarshal_target sample_tc_lib bs = Inr sample_served_target"
  "tl_unmarshal_report sample_tc_lib bs = Inr sample_served_report"
  by (simp_all add: sample_tc_lib_def)

lemma sample_codec: "\<forall>r bs. tl_marshal_target sample_tc_lib r = Inr bs \<longrightarrow> sample_unmarshal bs = Inr r"
  by (auto simp: sample_tc_lib_def sample_unmarshal_def)

theorem target_answered_witness:
  "response_obs (ctx_Response (snd (handle_request sample_tc_lib sample_conns (sample_ctx Target) sample_server))) =
     (RPC_OK, tracking_id 1024 1)"
proof -
  obtain s' ctx' where h: "handle_request sample_tc_lib sample_conns (sample_ctx Target) sample_server = (s', ctx')"
    by fastforce
  from target_answered [OF sample_partner _ _ h] sample_decodes(1) sample_target_named h show ?thesis
    by (simp add: sample_tc_lib_def sample_served_target_def)
qed

theorem report_taken_iff_billed_witness:
  "ts_reports (fst (handle_request sample_tc_lib sample_conns (sample_ctx Report) sample_server)) = [sample_served_report]"
proof -
  obtain s' ctx' where h: "handle_request sample_tc_lib sample_conns (sample_ctx Report) sample_server = (s', ctx')"
    by fastforce
  from report_taken_iff_billed [OF sample_partner _ sample_decodes(2) h] sample_report_billed h show ?thesis by simp
qed

lemma sample_target_run:
  "handle_request sample_tc_lib sample_conns (sample_ctx Target) sample_server =
     (fst (nextTrackingID (sample_server\<lparr>ts_lastCaller := Some 7\<rparr>)),
      writeProto sample_tc_lib RPC_OK (Inr (tracking_id 1024 1)) (sample_ctx Target))"
proof -
  have "handleTarget sample_tc_lib (sample_ctx Target) (sample_server\<lparr>ts_lastCaller := Some 7\<rparr>) =
     (fst (nextTrackingID (sample_server\<lparr>ts_lastCaller := Some 7\<rparr>)),
      writeProto sample_tc_lib RPC_OK (Inr (tracking_id 1024 1)) (sample_ctx Target))"
    using handleTarget_accepts [OF sample_decodes(1) sample_target_named,
        of "sample_server\<lparr>ts_lastCaller := Some 7\<rparr>" "sample_ctx Target"]
    by (simp add: target_reply_def nextTrackingID_tracking_id dropConn_def sample_server_def NewServer_def
        tc_normalizeConfig_def sample_tc_config_def default_if_def sample_tc_lib_def sample_served_target_def
        rpc_codes Let_def)
  then show ?thesis by (simp add: handle_request_def sample_partner)
qed

theorem ok_is_authorised_witness:
  "\<exists>c. sample_conns 0 = Some c \<and> ac_authID c \<noteq> uuid_Nil \<and>
     LastCaller (fst (handle_request sample_tc_lib sample_conns (sample_ctx Target) sample_server)) = ac_authID c"
  using ok_is_authorised [OF sample_target_run] by (auto simp: sample_target_run) (auto simp: sample_ctx_def)

theorem reachable_server_witness:
  "list_all (report_billed sample_tc_lib)
     (ts_reports (fst (handle_request sample_tc_lib sample_conns (sample_ctx Report) sample_server)))"
proof -
  have "tc_reachable sample_tc_lib sample_tc_config
      (fst (handle_request sample_tc_lib sample_conns (sample_ctx Report) sample_server))"
    unfolding sample_server_def
    by (rule tc_reachable.step [OF tc_reachable.start tc_step.handled [OF prod.collapse [symmetric]]])
  from reachable_server [OF this] show ?thesis by (simp add: list_all_iff)
qed

theorem tracking_ids_unique_witness:
  "distinct (concat (map (answered_ids sample_unmarshal) (snd (tc_serve sample_tc_lib
     [(sample_conns, sample_ctx Target), (sample_conns, sample_ctx Target)] sample_server))))"
  using tracking_ids_unique [of sample_tc_lib "[(sample_conns, sample_ctx Target), (sample_conns, sample_ctx Target)]"
      sample_server _ _ sample_unmarshal, OF prod.collapse [symmetric] _ sample_codec]
  by simp

end
