(* ===== verification/EndToEnd.thy ===== *)
theory EndToEnd
  imports TestCloud
begin

text \<open>
  Client and server together. What travels between them is the contract's frames: the client's
  \<open>WriteRequest\<close>, the server context's \<open>Ctx_ReadRequest\<close>, the handler, \<open>Ctx_WriteResponse\<close> and the
  client's \<open>ReadResponse\<close>, in the order fastrpc calls them for one request; compression and TLS
  are fastrpc's and carry the bytes unchanged. Over such a transport a call has the effect and
  the answer of the handler itself, and a Target of the client ends in the cloud's answer.
\<close>

section \<open>One exchange\<close>

definition wire :: bufw where
  "wire = \<lparr>bsize = 4096, bbuf = [], sunk = [], room = None, werr = None\<rparr>"

definition fresh_ctx :: "nat \<Rightarrow> nat request_ctx" where
  "fresh_ctx conn = Ctx_Init conn \<lparr>ctx_Request = new_Request, ctx_Response = new_Response, ctx_conn = conn\<rparr>"

definition server_turn :: "tc_lib \<Rightarrow> auth_store \<Rightarrow> nat \<Rightarrow> bytes \<Rightarrow> 'l tc_server \<Rightarrow> 'l tc_server \<times> bytes result" where
  "server_turn L conns conn input s =
     (case Ctx_ReadRequest (fresh_ctx conn) \<lparr>rest = input, rend = EOF\<rparr> of
        (_, ctx, Some err) \<Rightarrow> (s, Inl err)
      | (_, ctx, None) \<Rightarrow>
         (let (s', ctx') = handle_request L conns ctx s in
          case Ctx_WriteResponse ctx' wire of
            (w, _, Some err) \<Rightarrow> (s', Inl err)
          | (w, _, None) \<Rightarrow> (s', Inr (stream w))))"

definition exchange :: "tc_lib \<Rightarrow> auth_store \<Rightarrow> nat \<Rightarrow> request \<Rightarrow> response \<Rightarrow> 'l tc_server \<Rightarrow>
    'l tc_server \<times> response \<times> go_error option" where
  "exchange L conns conn req resp s =
     (case WriteRequest req wire of
        (w, _, Some err) \<Rightarrow> (s, resp, Some err)
      | (w, _, None) \<Rightarrow>
         (case server_turn L conns conn (stream w) s of
            (s', Inl err) \<Rightarrow> (s', resp, Some err)
          | (s', Inr output) \<Rightarrow>
             (case ReadResponse resp \<lparr>rest = output, rend = EOF\<rparr> of (_, resp', err) \<Rightarrow> (s', resp', err))))"

text \<open>The handler on a request as such, without buffers: the specification of an exchange.\<close>

definition arrived :: "nat \<Rightarrow> RPCRegister \<times> bytes \<Rightarrow> nat request_ctx" where
  "arrived conn m =
     \<lparr>ctx_Request = \<lparr>req_value = slice_of (snd m), req_code = fst m, req_sizeBuf = replicate 4 0\<rparr>,
      ctx_Response = Response_Reset new_Response, ctx_conn = conn\<rparr>"

section \<open>Lemmas\<close>

text \<open>The handlers look at a request's register and value only, and add to the answer.\<close>

definition same_ctx :: "nat request_ctx \<Rightarrow> nat request_ctx \<Rightarrow> bool" where
  "same_ctx c d \<longleftrightarrow> request_obs (ctx_Request c) = request_obs (ctx_Request d) \<and>
     response_obs (ctx_Response c) = response_obs (ctx_Response d) \<and>
     response_ok (ctx_Response c) = response_ok (ctx_Response d) \<and> ctx_conn c = ctx_conn d"

lemma response_ok_writers [simp]:
  "response_ok (ctx_Response (writeError L code err ctx)) = response_ok (ctx_Response ctx)"
  "response_ok (ctx_Response (writeProto L code m ctx)) = response_ok (ctx_Response ctx)"
  "response_ok (ctx_Response (ctx_status code ctx)) = response_ok (ctx_Response ctx)"
  by (simp_all add: writeProto_def writeError_def ctx_status_def Ctx_Write_def response_ok_def response_ops
      split: sum.split)

lemma same_ctx_writers:
  assumes "same_ctx c d"
  shows "same_ctx (writeError L code err c) (writeError L code err d)"
    and "same_ctx (writeProto L code m c) (writeProto L code m d)"
    and "same_ctx (ctx_status code c) (ctx_status code d)"
  using assms by (simp_all add: same_ctx_def response_obs_def)

definition same_run :: "'l tc_server \<times> nat request_ctx \<Rightarrow> 'l tc_server \<times> nat request_ctx \<Rightarrow> bool" where
  "same_run r q \<longleftrightarrow> fst r = fst q \<and> same_ctx (snd r) (snd q)"

lemma same_ctxD:
  assumes "same_ctx c d"
  shows "Request_GetName (ctx_Request c) = Request_GetName (ctx_Request d)"
    "Request_Value (ctx_Request c) = Request_Value (ctx_Request d)" "ctx_conn c = ctx_conn d"
  using assms by (simp_all add: same_ctx_def request_obs_def)

lemma handle_request_same:
  assumes "same_ctx c d"
  shows "same_run (handle_request L conns c s) (handle_request L conns d s)"
proof -
  note d = same_ctxD [OF assms] and w = same_ctx_writers [OF assms]
  have "same_run (handleTarget L c t) (handleTarget L d t)" for t
    by (auto simp: handleTarget_def d w same_run_def Let_def split: sum.splits prod.splits option.splits)
  moreover have "same_run (handleReport L c t) (handleReport L d t)" for t
    by (auto simp: handleReport_def d w same_run_def Let_def split: sum.splits prod.splits option.splits)
  moreover have "same_run (handleTouch L c u t) (handleTouch L d u t)" for u t
    by (auto simp: handleTouch_def d w same_run_def split: sum.splits)
  ultimately show ?thesis
    by (auto simp: handle_request_def d w same_run_def Let_def split: prod.splits bool.splits)
qed

lemma wire_ok: "bw_ok wire" "bw_unlimited wire" "stream wire = []"
  by (simp_all add: wire_def bw_ok_def bw_unlimited_def stream_def)

lemma request_crosses:
  assumes "request_sendable req"
  shows "\<exists>w req' ctx. WriteRequest req wire = (w, req', None) \<and>
    Ctx_ReadRequest (fresh_ctx conn) \<lparr>rest = stream w, rend = EOF\<rparr> = (\<lparr>rest = [], rend = EOF\<rparr>, ctx, None) \<and>
    same_ctx ctx (arrived conn (request_obs req))"
proof -
  obtain w req' where w: "WriteRequest req wire = (w, req', None)"
    using request_codec.put_total [OF assms wire_ok(1,2)] by blast
  with request_codec.put_enc [OF assms wire_ok(1)] have st: "stream w = frame (request_obs req)"
    by (simp add: wire_ok(3))
  have "request_ok (ctx_Request (fresh_ctx conn))"
    by (simp add: fresh_ctx_def Ctx_Init_def request_ok_def request_ops)
  from request_codec.get_enc [OF assms this, of "\<lparr>rest = stream w, rend = EOF\<rparr>" "[]"] st obtain r where
    "ReadRequest (ctx_Request (fresh_ctx conn)) \<lparr>rest = stream w, rend = EOF\<rparr> = (\<lparr>rest = [], rend = EOF\<rparr>, r, None)"
    "request_obs r = request_obs req" by auto
  then show ?thesis
    using w by (auto simp: Ctx_ReadRequest_def same_ctx_def arrived_def fresh_ctx_def Ctx_Init_def request_obs_def
        request_ops slice_of_def)
qed

lemma response_crosses:
  assumes "response_sendable (ctx_Response ctx)" "response_ok resp"
  shows "\<exists>w ctx' resp'. Ctx_WriteResponse ctx wire = (w, ctx', None) \<and>
    ReadResponse resp \<lparr>rest = stream w, rend = EOF\<rparr> = (\<lparr>rest = [], rend = EOF\<rparr>, resp', None) \<and>
    response_obs resp' = response_obs (ctx_Response ctx)"
proof -
  obtain w r where w: "WriteResponse (ctx_Response ctx) wire = (w, r, None)"
    using response_codec.put_total [OF assms(1) wire_ok(1,2)] by blast
  with response_codec.put_enc [OF assms(1) wire_ok(1)]
  have st: "stream w = response_frame (response_obs (ctx_Response ctx))" by (simp add: wire_ok(3))
  from response_codec.get_enc [OF assms, of "\<lparr>rest = stream w, rend = EOF\<rparr>" "[]"] st w show ?thesis
    by (auto simp: Ctx_WriteResponse_def)
qed

lemma handle_request_response_ok:
  assumes "handle_request L conns ctx s = (s', ctx')"
  shows "response_ok (ctx_Response ctx') = response_ok (ctx_Response ctx)"
  using assms
proof (cases rule: handle_request_cases)
  case (target u)
  from target(3) show ?thesis by (cases rule: handleTarget_cases) simp_all
next
  case (report u)
  from report(3) show ?thesis by (cases rule: handleReport_cases) simp_all
next
  case (touch u)
  from touch(3) show ?thesis by (cases rule: handleTouch_cases) simp_all
qed simp_all

lemma exchange_handles:
  assumes "request_sendable req" "response_ok resp"
    and "handle_request L conns (arrived conn (request_obs req)) s = (s', ctx')"
    and "length (Response_Value (ctx_Response ctx')) \<le> maxBytesSize" "unat (GetStatusCode (ctx_Response ctx')) < 256"
  shows "\<exists>resp'. exchange L conns conn req resp s = (s', resp', None) \<and>
    response_obs resp' = response_obs (ctx_Response ctx')"
proof -
  obtain w req' ctx where w: "WriteRequest req wire = (w, req', None)"
    "Ctx_ReadRequest (fresh_ctx conn) \<lparr>rest = stream w, rend = EOF\<rparr> = (\<lparr>rest = [], rend = EOF\<rparr>, ctx, None)"
    "same_ctx ctx (arrived conn (request_obs req))"
    using request_crosses [OF assms(1)] by blast
  obtain t c where h: "handle_request L conns ctx s = (t, c)" by fastforce
  from handle_request_same [OF w(3), of L conns s] h assms(3)
  have same: "t = s'" "same_ctx c ctx'" by (simp_all add: same_run_def)
  have "response_ok (ctx_Response ctx')"
    using handle_request_response_ok [OF assms(3)] by (simp add: arrived_def response_ok_def response_ops)
  with same(2) assms(4,5) have "response_sendable (ctx_Response c)"
    by (simp add: same_ctx_def response_sendable_def response_obs_def GetStatusCode_def)
  from response_crosses [OF this assms(2)] obtain w2 c2 resp' where
    "Ctx_WriteResponse c wire = (w2, c2, None)"
    "ReadResponse resp \<lparr>rest = stream w2, rend = EOF\<rparr> = (\<lparr>rest = [], rend = EOF\<rparr>, resp', None)"
    "response_obs resp' = response_obs (ctx_Response c)" by blast
  with w h same show ?thesis by (simp add: exchange_def server_turn_def same_ctx_def)
qed

text \<open>What the client has stamped, the server finds billed.\<close>

lemma stamped_match_named:
  assumes "uuid_lib parse show" "applyMatchRulePayers parse show rules d h = (h', None)" "r \<in> set rules"
  shows "\<exists>u. names_payer parse (Match_Rule_GetPayer (map_option h' r)) u"
proof -
  note ok = match_payer.stamp_ok [OF uuid_libD [OF assms(1)] assms(2) [unfolded applyMatchRulePayers_def]]
  from ok assms(3) obtain a where r: "r = Some a" by (cases r) auto
  with ok assms(3) obtain u where "resolveRulePayer parse (Match_Payer (h a)) d = Inr u"
    "h' a = match_set_payer (show u) (h a)" by blast
  with r resolveRulePayer_not_nil uuid_libD [OF assms(1)] show ?thesis
    by (auto simp: names_payer_def getters match_set_payer_def)
qed

lemma stamped_report_named:
  assumes "uuid_lib parse show" "applyReportRulePayers parse show rules d h = (h', None)" "r \<in> set rules"
  shows "\<exists>u. names_payer parse (ReportRequest_Rule_GetPayer (map_option h' r)) u"
proof -
  note ok = report_payer.stamp_ok [OF uuid_libD [OF assms(1)] assms(2) [unfolded applyReportRulePayers_def]]
  from ok assms(3) obtain a where r: "r = Some a" by (cases r) auto
  with ok assms(3) obtain u where "resolveRulePayer parse (ReportRule_Payer (h a)) d = Inr u"
    "h' a = report_set_payer (show u) (h a)" by blast
  with r resolveRulePayer_not_nil uuid_libD [OF assms(1)] show ?thesis
    by (auto simp: names_payer_def getters report_set_payer_def)
qed

text \<open>
  A client whose network is the server: each of its connections is one the server knows a partner
  on. A call with marshalled bytes then ends in what the handler answers to them.
\<close>

definition served_by :: "'l tc_server ext \<Rightarrow> tc_lib \<Rightarrow> auth_store \<Rightarrow> (slot \<Rightarrow> nat) \<Rightarrow> bool" where
  "served_by X L conns conn \<longleftrightarrow> uuid_lib (uuid_parse X) (uuid_string X) \<and> tl_uuid_parse L = uuid_parse X \<and>
     (\<forall>slot req resp dl s. do_deadline X slot req resp dl s = exchange L conns (conn slot) req resp s)"

definition world_ready :: "'n world \<Rightarrow> bool" where
  "world_ready w \<longleftrightarrow> pools_ok w \<and> list_all response_ok (w_responses w)"

lemma call_served:
  assumes "served_by X L conns conn" "client_ok sc" "world_ready w" "reqn \<in> {Target, Report, Touch}"
    and "raw \<noteq> []" "length raw \<le> maxBytesSize"
    and "\<forall>slot \<in> set (slots sc). \<exists>ctx'. handle_request L conns (arrived (conn slot) (reqn, raw)) (w_net w) = (s' slot, ctx') \<and>
       response_obs (ctx_Response ctx') = (RPC_OK, body)"
    and "length body \<le> maxBytesSize" "un body = Inr x"
  shows "\<exists>slot \<in> set (slots sc). \<exists>sc' w'. call_picked X k (Inr raw) un reqn sc w = Some (sc', w', Some x, RPC_OK, None) \<and>
    client_ok sc' \<and> w_net w' = s' slot \<and> w_match w' = w_match w \<and> w_report w' = w_report w"
proof -
  have pools: "pools_ok w" "list_all response_ok (w_responses w)" using assms(3) by (simp_all add: world_ready_def)
  have net: "do_deadline X slot req resp dl s = exchange L conns (conn slot) req resp s" for slot req resp dl s
    using assms(1) unfolding served_by_def by blast
  obtain sc' w' m st err where run: "call_picked X k (Inr raw) un reqn sc w = Some (sc', w', m, st, err)"
    and one: "one_exchange X k reqn raw un sc w (sc', w', m, st, err)" and ok: "client_ok sc'"
    using call_picked_sent [OF assms(2) pools(1) assms(4,5), of X k un] by fastforce
  from one [unfolded one_exchange_def prod.case] show ?thesis
  proof (elim exE conjE, goal_cases)
    case (1 slot c req resp net resp' derr)
    have x: "exchange L conns (conn slot) req resp (w_net w) = (net, resp', derr)"
      using 1 by (metis net)
    have "request_sendable req" "response_ok resp"
      using 1 pools(2) assms(6) by (auto simp: request_sendable_def request_obs_def)
    moreover obtain ctx' where h: "handle_request L conns (arrived (conn slot) (request_obs req)) (w_net w) = (s' slot, ctx')"
      and r: "response_obs (ctx_Response ctx') = (RPC_OK, body)"
      using assms(7) 1 by auto
    moreover have "length (Response_Value (ctx_Response ctx')) \<le> maxBytesSize"
      "unat (GetStatusCode (ctx_Response ctx')) < 256"
      using r assms(8) by (simp_all add: response_obs_def RPC_OK_def)
    ultimately obtain r' where "exchange L conns (conn slot) req resp (w_net w) = (s' slot, r', None)"
      "response_obs r' = (RPC_OK, body)" using exchange_handles by metis
    then have d: "net = s' slot" "derr = None" "resp' = r'" and obs: "GetStatusCode r' = RPC_OK" "Response_Value r' = body"
      using x by (simp_all add: response_obs_def)
    with 1 assms(9) have "m = Some x" "st = RPC_OK" "err = None" by auto
    with run ok 1 d show ?case by blast
  qed
qed

lemma arrived_fields [simp]:
  "Request_GetName (ctx_Request (arrived conn m)) = fst m" "Request_Value (ctx_Request (arrived conn m)) = snd m"
  "Response_Value (ctx_Response (arrived conn m)) = []" "ctx_conn (arrived conn m) = conn"
  by (simp_all add: arrived_def request_ops response_ops slice_of_def)

lemma target_served:
  assumes "snd (GetUUID conns conn)" "tcc_TargetStatus (ts_cfg s) = RPC_OK"
    and "tl_unmarshal_target L bs = Inr req" "\<forall>p \<in> set (target_payers req). payer_named L p"
    and "tl_marshal_target L (target_reply s req) = Inr rb"
  shows "\<exists>ctx'. handle_request L conns (arrived conn (Target, bs)) s =
      (dropConn conn (fst (nextTrackingID (s\<lparr>ts_lastCaller := Some (fst (GetUUID conns conn))\<rparr>))), ctx') \<and>
    response_obs (ctx_Response ctx') = (RPC_OK, rb)"
proof -
  let ?s = "s\<lparr>ts_lastCaller := Some (fst (GetUUID conns conn))\<rparr>"
  have g: "GetUUID conns conn = (fst (GetUUID conns conn), True)" using assms(1) by (simp add: prod_eq_iff)
  have "target_reply ?s req = target_reply s req" by (simp add: target_reply_def nextTrackingID_tracking_id)
  with handleTarget_accepts [of L "arrived conn (Target, bs)" req ?s] assms(2-5)
  have "handleTarget L (arrived conn (Target, bs)) ?s =
    (dropConn conn (fst (nextTrackingID ?s)), writeProto L RPC_OK (Inr rb) (arrived conn (Target, bs)))" by simp
  then show ?thesis
    by (subst handle_request_def, simp, subst g) (simp add: response_obs_def nextTrackingID_tracking_id Let_def)
qed

lemma report_served:
  assumes "snd (GetUUID conns conn)" "tl_unmarshal_report L bs = Inr req" "report_billed L req"
  shows "\<exists>ctx'. handle_request L conns (arrived conn (Report, bs)) s =
      (dropConn conn (offer_report req (s\<lparr>ts_lastCaller := Some (fst (GetUUID conns conn))\<rparr>)), ctx') \<and>
    response_obs (ctx_Response ctx') = (RPC_OK, [])"
proof -
  let ?s = "s\<lparr>ts_lastCaller := Some (fst (GetUUID conns conn))\<rparr>"
  have g: "GetUUID conns conn = (fst (GetUUID conns conn), True)" using assms(1) by (simp add: prod_eq_iff)
  from handleReport_accepts [of L "arrived conn (Report, bs)" req ?s] assms(2,3)
  have "handleReport L (arrived conn (Report, bs)) ?s =
    (dropConn conn (offer_report req ?s), ctx_status RPC_OK (arrived conn (Report, bs)))" by simp
  then show ?thesis
    by (subst handle_request_def, simp, subst g)
      (simp add: response_obs_def Target_def Report_def Let_def)
qed

definition touch_reply :: touch_response where
  "touch_reply = \<lparr>TouchResponse_UserId = bytes_of_string TouchUserID, TouchResponse_Accuracy = TouchResponse_Reliable,
     TouchResponse_Label = bytes_of_string ''test-telecom''\<rparr>"

lemma touch_served:
  assumes "GetUUID conns conn = (u, True)" "u \<in> set (tcc_TouchPartners (ts_cfg s))"
    and "tl_unmarshal_touch L bs = Inr req" "tl_marshal_touch L touch_reply = Inr rb"
  shows "\<exists>ctx'. handle_request L conns (arrived conn (Touch, bs)) s = (s\<lparr>ts_lastCaller := Some u\<rparr>, ctx') \<and>
    response_obs (ctx_Response ctx') = (RPC_OK, rb)"
  using assms by (simp add: handle_request_def handleTouch_def touch_reply_def [symmetric] response_obs_def registers Let_def)

section \<open>Properties\<close>

text \<open>
  C2. The wire refines the handler: for every request, buffers and reused responses included, one
  exchange over the frames changes the server exactly as the handler on the bare register and
  value does, and the client's response carries exactly the status and body of the handler's
  answer, as long as that fits a frame. A value above the limit never reaches the server: the
  client gets an error and neither the server nor the response changes.
\<close>

theorem exchange_refines_handler:
  assumes "request_ok req" "response_ok resp"
    and "handle_request L conns (arrived conn (request_obs req)) s = (s', ctx')"
    and "length (Response_Value (ctx_Response ctx')) \<le> maxBytesSize" "unat (GetStatusCode (ctx_Response ctx')) < 256"
  shows "if length (Request_Value req) \<le> maxBytesSize
    then \<exists>resp'. exchange L conns conn req resp s = (s', resp', None) \<and>
           response_obs resp' = response_obs (ctx_Response ctx')
    else \<exists>err. exchange L conns conn req resp s = (s, resp, Some err)"
proof (cases "length (Request_Value req) \<le> maxBytesSize")
  case True
  with assms(1) have "request_sendable req" by (simp add: request_sendable_def)
  from exchange_handles [OF this assms(2-5)] True show ?thesis by simp
next
  case False
  then have "maxBytesSize < length (vis (req_value req))" by (simp add: Request_Value_def)
  from writeBytes_too_big [OF this] obtain e where "\<And>w sb. \<exists>e. writeBytes w (vis (req_value req)) sb = (w, sb, Some e)"
    using writeBytes_too_big \<open>maxBytesSize < length (vis (req_value req))\<close> by blast
  then have "\<exists>w req' err. WriteRequest req wire = (w, req', Some err)"
    by (auto simp: WriteRequest_def split: prod.splits option.splits) (metis option.distinct(1) prod.inject)
  with False show ?thesis by (auto simp: exchange_def)
qed

text \<open>
  C1. A Target, end to end: a client whose connections reach the server as a partner's calls
  Target with match rules that all name a client, and gets the server's answer itself, with
  status OK and no error: a fresh tracking id, one OK per match rule and one pass per frequency
  rule. The server has used up exactly that id and still holds the reports it held, and the
  client is left able to call again.
\<close>

theorem target_end_to_end:
  assumes "served_by X L conns conn" "client_ok sc" "world_ready w"
    and "\<forall>slot \<in> set (slots sc). snd (GetUUID conns (conn slot))"
    and "tcc_TargetStatus (ts_cfg (w_net w)) = RPC_OK"
    and "applyMatchRulePayers (uuid_parse X) (uuid_string X) (TargetRequest_Match req) uuid_Nil (w_match w) = (h, None)"
    and "deref_target h (Some req) = Some m" "marshal_target X (Some m) = Inr bs" "bs \<noteq> []" "length bs \<le> maxBytesSize"
    and "tl_unmarshal_target L bs = Inr m"
    and "reply = \<lparr>TargetResponse_TrackingId = tracking_id (tcc_ServerID (ts_cfg (w_net w))) (ts_counter (w_net w) + 1),
       TargetResponse_StatusCode = RPC_OK,
       TargetResponse_Frequency = replicate (length (TargetRequest_Frequency req)) Frequency_STATUS_PASSED,
       TargetResponse_Match = replicate (length (TargetRequest_Match req)) Match_OK\<rparr>"
    and "tl_marshal_target L reply = Inr rb" "length rb \<le> maxBytesSize" "unmarshal_target X rb = Inr reply"
  shows "\<exists>sc' w'. Sharded_Target X k (Some req) sc w = Some (sc', w', Some reply, RPC_OK, None) \<and>
    client_ok sc' \<and> w_match w' = h \<and> ts_counter (w_net w') = ts_counter (w_net w) + 1 \<and>
    ts_reports (w_net w') = ts_reports (w_net w)"
proof -
  let ?s = "w_net w"
  have lib: "uuid_lib (uuid_parse X) (uuid_string X)" "tl_uuid_parse L = uuid_parse X"
    using assms(1) by (simp_all add: served_by_def)
  have m: "TargetRequest_Match m = map (map_option h) (TargetRequest_Match req)"
    "TargetRequest_Frequency m = TargetRequest_Frequency req"
    using assms(7) by (auto simp: deref_target_def)
  have named: "\<forall>p \<in> set (target_payers m). payer_named L p"
    using stamped_match_named [OF lib(1) assms(6)] by (simp add: target_payers_def m payer_named_def lib(2))
  have "target_reply ?s m = reply" using assms(12) m by (simp add: target_reply_def nextTrackingID_tracking_id)
  define after where "after = (\<lambda>slot. dropConn (conn slot)
    (fst (nextTrackingID (?s\<lparr>ts_lastCaller := Some (fst (GetUUID conns (conn slot)))\<rparr>))))"
  have served: "\<forall>slot \<in> set (slots sc). \<exists>ctx'.
      handle_request L conns (arrived (conn slot) (Target, bs)) (w_net (w\<lparr>w_match := h\<rparr>)) = (after slot, ctx') \<and>
      response_obs (ctx_Response ctx') = (RPC_OK, rb)"
    using target_served [OF _ assms(5,11) named] assms(4,13) \<open>target_reply ?s m = reply\<close> by (simp add: after_def)
  have ready: "world_ready (w\<lparr>w_match := h\<rparr>)" using assms(3) by (simp add: world_ready_def)
  have reg: "Target \<in> {Target, Report, Touch}" by simp
  obtain slot sc' w' where "call_picked X k (Inr bs) (unmarshal_target X) Target sc (w\<lparr>w_match := h\<rparr>) =
      Some (sc', w', Some reply, RPC_OK, None)" "client_ok sc'" "w_match w' = h" "w_net w' = after slot"
    using call_served [where un = "unmarshal_target X" and s' = after, OF assms(1,2) ready reg assms(9,10) served
        assms(14,15), of k] by auto
  then show ?thesis
    using assms(6-8) by (simp add: Sharded_Target_def getters nextTrackingID_tracking_id after_def)
qed

text \<open>
  C12. A Report, end to end: with a tracking id, a payer of its own, rules that can all be stamped
  and a size that fits a frame, it is answered OK, always. What the server offers its report channel
  is the caller's report with every payer settled: its own is the payer's canonical text, and
  every rule names its own client or the request's. That joins the end of the channel if there is
  room; with the channel full it is dropped, and the client is not told.
\<close>

theorem report_end_to_end:
  assumes "served_by X L conns conn" "client_ok sc" "world_ready w"
    and "\<forall>slot \<in> set (slots sc). snd (GetUUID conns (conn slot))"
    and "ReportRequest_TrackingId req \<noteq> None" "names_payer (uuid_parse X) (ReportRequest_Payer req) u"
    and "applyReportRulePayers (uuid_parse X) (uuid_string X) (ReportRequest_Rules req) u (w_report w) = (h, None)"
    and "sent = deref_report h (req\<lparr>ReportRequest_Payer := uuid_string X u\<rparr>)"
    and "marshal_report X sent = Inr bs" "bs \<noteq> []" "length bs \<le> maxBytesSize" "tl_unmarshal_report L bs = Inr sent"
  shows "\<exists>sc' w' req'. Sharded_Report X k (Some req) sc w = Some (sc', w', req', RPC_OK, None) \<and> client_ok sc' \<and>
    ts_reports (w_net w') = ts_reports (w_net w) @
      (if length (ts_reports (w_net w)) < nat (tcc_ReportBuffer (ts_cfg (w_net w))) then [sent] else []) \<and>
    names_payer (tl_uuid_parse L) (ReportRequest_Payer sent) u \<and>
    (\<forall>rule \<in> set (ReportRequest_Rules sent). \<exists>v. names_payer (tl_uuid_parse L) (ReportRequest_Rule_GetPayer rule) v)"
proof -
  let ?s = "w_net w" and ?req = "req\<lparr>ReportRequest_Payer := uuid_string X u\<rparr>"
  have lib: "uuid_lib (uuid_parse X) (uuid_string X)" "tl_uuid_parse L = uuid_parse X"
    using assms(1) by (simp_all add: served_by_def)
  have payer: "names_payer (tl_uuid_parse L) (ReportRequest_Payer sent) u"
    using assms(6,8) uuid_libD [OF lib(1)] by (simp add: lib(2) names_payer_def deref_report_def)
  have rules: "\<forall>rule \<in> set (ReportRequest_Rules sent). \<exists>v. names_payer (tl_uuid_parse L) (ReportRequest_Rule_GetPayer rule) v"
    using stamped_report_named [OF lib(1) assms(7)] by (simp add: assms(8) deref_report_def lib(2))
  have billed: "report_billed L sent"
    using payer rules by (auto simp: report_billed_def payer_named_def)
  define after where "after = (\<lambda>slot. dropConn (conn slot)
    (offer_report sent (?s\<lparr>ts_lastCaller := Some (fst (GetUUID conns (conn slot)))\<rparr>)))"
  have served: "\<forall>slot \<in> set (slots sc). \<exists>ctx'.
      handle_request L conns (arrived (conn slot) (Report, bs)) (w_net (w\<lparr>w_report := h\<rparr>)) = (after slot, ctx') \<and>
      response_obs (ctx_Response ctx') = (RPC_OK, [])"
  proof (rule ballI)
    fix slot assume "slot \<in> set (slots sc)"
    with assms(4) have "snd (GetUUID conns (conn slot))" by blast
    from report_served [OF this assms(12) billed, of ?s] show "\<exists>ctx'.
      handle_request L conns (arrived (conn slot) (Report, bs)) (w_net (w\<lparr>w_report := h\<rparr>)) = (after slot, ctx') \<and>
      response_obs (ctx_Response ctx') = (RPC_OK, [])" by (simp add: after_def)
  qed
  have ready: "world_ready (w\<lparr>w_report := h\<rparr>)" using assms(3) by (simp add: world_ready_def)
  have reg: "Report \<in> {Target, Report, Touch}" by simp
  obtain slot sc' w' where call: "call_picked X k (Inr bs) (\<lambda>_. Inr ()) Report sc (w\<lparr>w_report := h\<rparr>) =
      Some (sc', w', Some (), RPC_OK, None)" "client_ok sc'" "w_net w' = after slot"
    using call_served [where un = "\<lambda>_. Inr ()" and s' = after, OF assms(1,2) ready reg assms(10,11) served, of "()" k]
    by auto
  have "resolveRequestPayer (uuid_parse X) (ReportRequest_Payer req) = Inr u"
    using assms(6) by (simp add: resolveRequestPayer_Inr)
  then have "Sharded_Report X k (Some req) sc w = Some (sc', w', ?req, RPC_OK, None)"
    using assms(5,7-9) call(1) by (auto simp: Sharded_Report_def applyPayers_def getters Let_def)
  moreover have "ts_reports (w_net w') = ts_reports ?s @
      (if length (ts_reports ?s) < nat (tcc_ReportBuffer (ts_cfg ?s)) then [sent] else [])"
    by (simp add: call(3) after_def offer_report_def)
  ultimately show ?thesis using call(2) payer rules by blast
qed

text \<open>
  A Touch, granted to the partners its connections reach the server as, ends with status OK and no
  error in the user the server knows; it bills nobody, and the server has a new last caller.
\<close>

lemma touch_end_to_end:
  assumes "served_by X L conns conn" "client_ok sc" "world_ready w"
    and "\<forall>slot \<in> set (slots sc). GetUUID conns (conn slot) = (partner slot, True) \<and>
      partner slot \<in> set (tcc_TouchPartners (ts_cfg (w_net w)))"
    and "marshal_touch X req = Inr bs" "bs \<noteq> []" "length bs \<le> maxBytesSize" "tl_unmarshal_touch L bs = Inr m"
    and "tl_marshal_touch L touch_reply = Inr rb" "length rb \<le> maxBytesSize" "unmarshal_touch X rb = Inr touch_reply"
  shows "\<exists>slot \<in> set (slots sc). \<exists>sc' w'. Sharded_Touch X k req sc w = Some (sc', w', Some touch_reply, RPC_OK, None) \<and>
    client_ok sc' \<and> w_net w' = (w_net w)\<lparr>ts_lastCaller := Some (partner slot)\<rparr> \<and>
    w_match w' = w_match w \<and> w_report w' = w_report w"
proof -
  have reg: "Touch \<in> {Target, Report, Touch}" by simp
  have "\<forall>slot \<in> set (slots sc). \<exists>ctx'. handle_request L conns (arrived (conn slot) (Touch, bs)) (w_net w) =
      ((w_net w)\<lparr>ts_lastCaller := Some (partner slot)\<rparr>, ctx') \<and> response_obs (ctx_Response ctx') = (RPC_OK, rb)"
    using touch_served [OF _ _ assms(8,9)] assms(4) by blast
  from call_served [where un = "unmarshal_touch X" and k = k and s' = "\<lambda>slot. (w_net w)\<lparr>ts_lastCaller := Some (partner slot)\<rparr>",
      OF assms(1-3) reg assms(6,7) this assms(10,11)]
  show ?thesis by (simp add: Sharded_Touch_def assms(5))
qed

section \<open>A concrete client and server\<close>

definition cloud_ext :: "unit tc_server ext" where
  "cloud_ext = \<lparr>uuid_parse = sample_uuid_parse, uuid_string = sample_uuid_string, grow = (\<lambda>_ _. 0),
     do_deadline = (\<lambda>slot req resp dl s. exchange sample_tc_lib sample_conns 0 req resp s),
     marshal_target = (\<lambda>_. Inr [1]), marshal_report = (\<lambda>_. Inr [2]), marshal_touch = (\<lambda>_. Inr [3]),
     unmarshal_target = sample_unmarshal, unmarshal_touch = (\<lambda>_. Inl (Sentinel ''bad''))\<rparr>"

definition cloud_world :: "unit tc_server world" where
  "cloud_world = \<lparr>w_net = sample_server, w_metrics = (\<lambda>_. 0), w_requests = [], w_responses = [],
     w_match = (\<lambda>_. sample_rule (sample_uuid_string 9)), w_report = sample_rules\<rparr>"

lemma cloud_served: "served_by cloud_ext sample_tc_lib sample_conns (\<lambda>_. 0)"
  by (simp add: served_by_def cloud_ext_def sample_uuid_lib sample_tc_lib_def)

lemma cloud_ready: "world_ready cloud_world"
  by (simp add: world_ready_def pools_ok_def cloud_world_def)

lemma cloud_partner: "snd (GetUUID sample_conns 0)"
  by (simp add: GetUUID_at sample_conns_def uuid_Nil_def)

lemma cloud_fields [simp]:
  "uuid_parse cloud_ext = sample_uuid_parse" "uuid_string cloud_ext = sample_uuid_string"
  "marshal_target cloud_ext t = Inr [1]" "marshal_report cloud_ext r = Inr [2]"
  "unmarshal_target cloud_ext = sample_unmarshal"
  "w_net cloud_world = sample_server" "w_match cloud_world = (\<lambda>_. sample_rule (sample_uuid_string 9))"
  by (simp_all add: cloud_ext_def cloud_world_def)

lemma cloud_stamps:
  "applyMatchRulePayers sample_uuid_parse sample_uuid_string [Some 0] uuid_Nil
     (\<lambda>_. sample_rule (sample_uuid_string 9)) = (\<lambda>_. sample_rule (sample_uuid_string 9), None)"
  by (auto simp: applyMatchRulePayers_def resolveRulePayer_def sample_rule_def match_set_payer_def
      sample_uuid_simps uuid_Nil_def Let_def)

theorem exchange_refines_handler_witness:
  "\<exists>s' resp'. exchange sample_tc_lib sample_conns 0 (sample_request Report [2]) new_Response sample_server = (s', resp', None) \<and>
     GetStatusCode resp' = RPC_OK"
proof -
  have ok: "request_ok (sample_request Report [2])" "response_ok new_Response"
    "request_obs (sample_request Report [2]) = (Report, [2])"
    by (simp_all add: wire_samples request_ok_def request_obs_def request_ops response_ok_def response_ops slice_of_def)
  obtain s' ctx' where h: "handle_request sample_tc_lib sample_conns (arrived 0 (Report, [2])) sample_server = (s', ctx')"
    and r: "response_obs (ctx_Response ctx') = (RPC_OK, [])"
    using report_served [OF cloud_partner sample_decodes(2) sample_report_billed] by blast
  from exchange_refines_handler [OF ok(1,2) h [folded ok(3)]] r show ?thesis
    by (auto simp: response_obs_def RPC_OK_def wire_samples request_ops maxBytesSize_def slice_of_def)
qed

theorem target_end_to_end_witness:
  "\<exists>sc' w' reply. Sharded_Target cloud_ext sample_call (Some sample_target) sample_sharded cloud_world =
     Some (sc', w', Some reply, RPC_OK, None) \<and> TargetResponse_TrackingId reply = tracking_id 1024 1"
proof -
  have "length (tracking_id 1024 1) = 16" using tracking_id_shape [of 1 1024] by simp
  then show ?thesis
    using target_end_to_end [OF cloud_served sample_client_ok cloud_ready, of sample_target
        "\<lambda>_. sample_rule (sample_uuid_string 9)" sample_served_target "[1]" _ "tracking_id 1024 1" sample_call]
      cloud_partner cloud_stamps
    by (simp add: sample_target_def deref_target_def sample_served_target_def sample_tc_lib_def sample_unmarshal_def
        maxBytesSize_def) (elim exE conjE, intro exI conjI, assumption, simp)
qed

theorem report_end_to_end_witness:
  "\<exists>sc' w' req'. Sharded_Report cloud_ext sample_call
     (Some \<lparr>ReportRequest_Payer = sample_uuid_string 9, ReportRequest_TrackingId = Some [1], ReportRequest_Event = 0,
        ReportRequest_Rules = []\<rparr>) sample_sharded cloud_world = Some (sc', w', req', RPC_OK, None) \<and>
     ts_reports (w_net w') = [sample_served_report]"
proof -
  have payer: "names_payer sample_uuid_parse (sample_uuid_string 9) 9"
    by (simp add: names_payer_def sample_uuid_simps uuid_Nil_def)
  show ?thesis
    using report_end_to_end [OF cloud_served sample_client_ok cloud_ready, of
        "\<lparr>ReportRequest_Payer = sample_uuid_string 9, ReportRequest_TrackingId = Some [1], ReportRequest_Event = 0,
          ReportRequest_Rules = []\<rparr>" 9 sample_rules sample_served_report "[2]" sample_call] payer cloud_partner
    by (auto simp: applyReportRulePayers_def deref_report_def sample_served_report_def cloud_world_def maxBytesSize_def)
qed

text \<open>The same with messages of Touch that decode, and a server that grants it to the partner connected.\<close>

definition touch_lib :: tc_lib where
  "touch_lib = sample_tc_lib\<lparr>tl_unmarshal_touch := (\<lambda>_. Inr \<lparr>TouchRequest_Uids = [], TouchRequest_Context = None, TouchRequest_Inventory = None\<rparr>)\<rparr>"

definition touch_ext :: "unit tc_server ext" where
  "touch_ext = cloud_ext\<lparr>do_deadline := (\<lambda>slot req resp dl s. exchange touch_lib sample_conns 0 req resp s),
     unmarshal_touch := (\<lambda>bs. Inr (touch_reply\<lparr>TouchResponse_UserId := bs\<rparr>))\<rparr>"

definition touch_world :: "unit tc_server world" where
  "touch_world = cloud_world\<lparr>w_net := NewServer (sample_tc_config\<lparr>tcc_TouchPartners := [7]\<rparr>)\<rparr>"

end
