(* ===== verification/TestPKI.thy ===== *)
theory TestPKI
  imports EndToEnd
begin

text \<open>
  \<^verbatim>\<open>internal/testcloud/certs.go\<close>: the throwaway certificates the test cloud is run with. A client
  CA issues client certificates that carry a partner UUID, a server CA one certificate for
  127.0.0.1, and the server's TLS configuration accepts the clients of the client CA.

  Generating keys and certificates is the \<^verbatim>\<open>mtls\<close> library's and the standard library's part: the
  record \<open>gen_lib\<close>, whose functions draw on a state of random material. Certificate pools are
  filled once here and not changed again, so they are lists of certificates.
\<close>

section \<open>Libraries and data\<close>

record mtls_certificate =
  mc_Cert :: x509_cert
  mc_CertPEM :: bytes
  mc_KeyPEM :: bytes
  mc_Key :: nat

record generate_config =
  gg_CN :: string
  gg_UUID :: string
  gg_CA :: mtls_certificate

record x509_template =
  tm_SerialNumber :: nat
  tm_CommonName :: string
  tm_NotBefore :: int
  tm_NotAfter :: int
  tm_KeyUsage :: nat
  tm_ExtKeyUsage :: "nat list"
  tm_BasicConstraintsValid :: bool
  tm_IPAddresses :: "ip option list"

text \<open>\<^verbatim>\<open>uuid.New\<close> panics when there is no randomness: \<open>None\<close>.\<close>

record 'w gen_lib =
  gl_GenerateCA :: "string \<Rightarrow> 'w \<Rightarrow> 'w \<times> mtls_certificate result"
  gl_Generate :: "generate_config \<Rightarrow> 'w \<Rightarrow> 'w \<times> mtls_certificate result"
  gl_uuid_New :: "'w \<Rightarrow> ('w \<times> uuid) option"
  gl_uuid_String :: "uuid \<Rightarrow> string"
  gl_GenerateKey :: "'w \<Rightarrow> 'w \<times> nat result"
  gl_Int :: "nat \<Rightarrow> 'w \<Rightarrow> 'w \<times> nat result"
  gl_CreateCertificate :: "x509_template \<Rightarrow> x509_cert \<Rightarrow> nat \<Rightarrow> nat \<Rightarrow> 'w \<Rightarrow> 'w \<times> bytes result"

text \<open>
  \<open>tc_ServerCertificate\<close> is the certificate of the TLS configuration, which \<open>server_tls\<close> leaves out,
  with its private key.
\<close>

record test_certificates =
  tc_ClientID :: uuid
  tc_ClientCertPEM :: bytes
  tc_ClientKeyPEM :: bytes
  tc_ClientRoots :: "x509_cert list"
  tc_ServerRoots :: "x509_cert list"
  tc_ServerName :: string
  tc_ServerCertificate :: "tls_certificate \<times> nat"
  tc_ServerTLSConfig :: server_tls
  tc_clientCA :: mtls_certificate

section \<open>Operations\<close>

definition NewClientCertificate :: "'w gen_lib \<Rightarrow> test_certificates \<Rightarrow> uuid \<Rightarrow> 'w \<Rightarrow> 'w \<times> (bytes \<times> bytes) result" where
  "NewClientCertificate G c i w =
     (case gl_Generate G \<lparr>gg_CN = ''dcr-sdk-client'', gg_UUID = gl_uuid_String G i, gg_CA = tc_clientCA c\<rparr> w of
        (w1, Inl err) \<Rightarrow> (w1, Inl (Errorf ''generate client certificate: %w'' [AWrap err]))
      | (w1, Inr cert) \<Rightarrow> (w1, Inr (mc_CertPEM cert, mc_KeyPEM cert)))"

definition KeyUsageDigitalSignature :: nat where "KeyUsageDigitalSignature = 1"
definition ExtKeyUsageServerAuth :: nat where "ExtKeyUsageServerAuth = 1"

definition server_template :: "int \<Rightarrow> nat \<Rightarrow> x509_template" where
  "server_template made serial =
     \<lparr>tm_SerialNumber = serial, tm_CommonName = ''127.0.0.1'', tm_NotBefore = made - 60 * 10 ^ 9,
      tm_NotAfter = made + 3600 * 10 ^ 9, tm_KeyUsage = KeyUsageDigitalSignature,
      tm_ExtKeyUsage = [ExtKeyUsageServerAuth], tm_BasicConstraintsValid = True,
      tm_IPAddresses = [ParseIP ''127.0.0.1'']\<rparr>"

definition newServerCertificate :: "'w gen_lib \<Rightarrow> pki \<Rightarrow> int \<Rightarrow> mtls_certificate \<Rightarrow> 'w \<Rightarrow>
    'w \<times> (tls_certificate \<times> nat) result" where
  "newServerCertificate G K made ca w =
     (case gl_GenerateKey G w of
        (w1, Inl err) \<Rightarrow> (w1, Inl (Errorf ''generate server key: %w'' [AWrap err]))
      | (w1, Inr key) \<Rightarrow>
     (case gl_Int G (2 ^ 128) w1 of
        (w2, Inl err) \<Rightarrow> (w2, Inl (Errorf ''generate server serial: %w'' [AWrap err]))
      | (w2, Inr serial) \<Rightarrow>
     (case gl_CreateCertificate G (server_template made serial) (mc_Cert ca) key (mc_Key ca) w2 of
        (w3, Inl err) \<Rightarrow> (w3, Inl (Errorf ''create server certificate: %w'' [AWrap err]))
      | (w3, Inr der) \<Rightarrow>
     (case ParseCertificate K der of
        Inl err \<Rightarrow> (w3, Inl (Errorf ''parse server certificate: %w'' [AWrap err]))
      | Inr leaf \<Rightarrow> (w3, Inr (\<lparr>Certificate = [der], Leaf = leaf\<rparr>, key))))))"

text \<open>\<open>made\<close> is the time they are made at.\<close>

definition NewCertificates :: "'w gen_lib \<Rightarrow> auth_lib \<Rightarrow> int \<Rightarrow> 'w \<Rightarrow>
    ('w \<times> test_certificates result) option" where
  "NewCertificates G L made w =     (case gl_GenerateCA G ''dcr-sdk-test-client-ca'' w of
        (w1, Inl err) \<Rightarrow> Some (w1, Inl (Errorf ''generate client CA: %w'' [AWrap err]))
      | (w1, Inr clientCA) \<Rightarrow>
     (case gl_uuid_New G w1 of
        None \<Rightarrow> None
      | Some (w2, clientID) \<Rightarrow>
     (case gl_Generate G \<lparr>gg_CN = ''dcr-sdk-client'', gg_UUID = gl_uuid_String G clientID, gg_CA = clientCA\<rparr> w2 of
        (w3, Inl err) \<Rightarrow> Some (w3, Inl (Errorf ''generate client certificate: %w'' [AWrap err]))
      | (w3, Inr clientCert) \<Rightarrow>
     (case gl_GenerateCA G ''dcr-sdk-test-server-ca'' w3 of
        (w4, Inl err) \<Rightarrow> Some (w4, Inl (Errorf ''generate server CA: %w'' [AWrap err]))
      | (w4, Inr serverCA) \<Rightarrow>
     (case newServerCertificate G (al_pki L) made serverCA w4 of
        (w5, Inl err) \<Rightarrow> Some (w5, Inl err)
      | (w5, Inr serverCert) \<Rightarrow>
         (let clientRoots = [mc_Cert clientCA]; serverRoots = [mc_Cert serverCA] in
          Some (w5, Inr
            \<lparr>tc_ClientID = clientID, tc_ClientCertPEM = mc_CertPEM clientCert, tc_ClientKeyPEM = mc_KeyPEM clientCert,
             tc_ClientRoots = clientRoots, tc_ServerRoots = serverRoots, tc_ServerName = ''127.0.0.1'',
             tc_ServerCertificate = serverCert,
             tc_ServerTLSConfig = NewTLSConfig L (Some (ServerTLS NoClientCert VersionTLS12 None None))
               \<lparr>sm_Roots = clientRoots, sm_Intermediates = [], sm_CurrentTime = None, sm_Issuer = None,
                sm_StatusClient = None, sm_RequireOCSP = False\<rparr>,
             tc_clientCA = clientCA\<rparr>)))))))"

section \<open>Lemmas\<close>

text \<open>What the server's configuration checks clients against.\<close>

abbreviation test_auth :: "test_certificates \<Rightarrow> server_mtls" where
  "test_auth cs \<equiv> \<lparr>sm_Roots = [mc_Cert (tc_clientCA cs)], sm_Intermediates = [], sm_CurrentTime = None,
     sm_Issuer = None, sm_StatusClient = None, sm_RequireOCSP = False\<rparr>"

lemma NewClientCertificateI:
  "gl_Generate G \<lparr>gg_CN = ''dcr-sdk-client'', gg_UUID = gl_uuid_String G i, gg_CA = ca\<rparr> v = (v', Inr c) \<Longrightarrow>
     tc_clientCA cs = ca \<Longrightarrow> certPEM = mc_CertPEM c \<Longrightarrow> keyPEM = mc_KeyPEM c \<Longrightarrow>
     \<exists>v v'. NewClientCertificate G cs i v = (v', Inr (certPEM, keyPEM))"
  by (rule exI [of _ v], rule exI [of _ v']) (simp add: NewClientCertificate_def)

lemma NewCertificates_made:
  assumes "NewCertificates G L made w = Some (w', Inr cs)"
  shows "tc_ClientRoots cs = [mc_Cert (tc_clientCA cs)] \<and> tc_ServerName cs = ''127.0.0.1'' \<and>
    tc_ServerTLSConfig cs = NewTLSConfig L (Some (ServerTLS NoClientCert VersionTLS12 None None)) (test_auth cs) \<and>
    (\<exists>v v'. NewClientCertificate G cs (tc_ClientID cs) v = (v', Inr (tc_ClientCertPEM cs, tc_ClientKeyPEM cs))) \<and>
    (\<exists>serverCA v v'. tc_ServerRoots cs = [mc_Cert serverCA] \<and>
       newServerCertificate G (al_pki L) made serverCA v = (v', Inr (tc_ServerCertificate cs)))"
  using assms
  by (auto simp: NewCertificates_def Let_def split: prod.splits sum.splits option.splits)
    (rule NewClientCertificateI, assumption, simp_all, blast)

lemma newServerCertificate_made:
  assumes "newServerCertificate G K made ca w = (w', Inr sc)"
  shows "\<exists>serial der v v'. Certificate (fst sc) = [der] \<and> ParseCertificate K der = Inr (Leaf (fst sc)) \<and>
    gl_CreateCertificate G (server_template made serial) (mc_Cert ca) (snd sc) (mc_Key ca) v = (v', Inr der)"
  using assms by (auto simp: newServerCertificate_def split: prod.splits sum.splits) blast

lemma NewClientCertificate_made:
  "NewClientCertificate G cs i w = (w', Inr (certPEM, keyPEM)) \<longleftrightarrow>
     (\<exists>c. gl_Generate G \<lparr>gg_CN = ''dcr-sdk-client'', gg_UUID = gl_uuid_String G i, gg_CA = tc_clientCA cs\<rparr> w = (w', Inr c) \<and>
        certPEM = mc_CertPEM c \<and> keyPEM = mc_KeyPEM c)"
  by (auto simp: NewClientCertificate_def split: prod.splits sum.splits)

text \<open>
  The certificate the server shows is made for the name the client asks for: the host inferred
  from an address of the test cloud, and the certificate's one IP address.
\<close>

lemma server_name_matches:
  assumes "NewCertificates G L made w = Some (w', Inr cs)"
  shows "tm_IPAddresses (server_template made serial) = [ParseIP (tc_ServerName cs)] \<and>
    ParseIP (tc_ServerName cs) = Some (v4InV6 [127, 0, 0, 1])"
proof -
  have "ParseIP ''127.0.0.1'' = Some (v4InV6 [127, 0, 0, 1])" by code_simp
  with NewCertificates_made [OF assms] show ?thesis by (simp add: server_template_def)
qed

text \<open>A configuration that starts from a plain base admits whoever authenticates to it.\<close>

lemma authenticated_admitted:
  assumes "authenticateClientCertificate L clk certs auth = Inr u" "certs \<noteq> []" "s conn = Some c"
    and "\<And>cfg. lib_ok cfg certs"
  shows "handshake (NewTLSConfig L (Some (ServerTLS NoClientCert v None None)) auth) lib_ok False clk conn certs s =
    (s(conn \<mapsto> c\<lparr>ac_authID := u\<rparr>), True)"
  using assms by (simp add: NewTLSConfig_handshake base_tls_def child_run_def verify_identity_def SetUUID_def
      GetConn_def conn_SetUUID_def required_auth_asks Let_def)

lemma plain_handshake:
  assumes "s conn = Some c"
  shows "handshake (NewTLSConfig L (Some (ServerTLS NoClientCert v None None)) auth) (\<lambda>_ _. True) False clk conn certs s = (s', True) \<longleftrightarrow>
    (\<exists>uid. authenticateClientCertificate L clk certs auth = Inr uid \<and> s' = s(conn \<mapsto> c\<lparr>ac_authID := uid\<rparr>))"
  using assms by (cases certs) (auto simp: NewTLSConfig_handshake base_tls_def child_run_def verify_identity_def SetUUID_def
      GetConn_def conn_SetUUID_def required_auth_def NoClientCert_def RequireAnyClientCert_def
      authenticateClientCertificate_def [of _ _ "[]"] Let_def split: sum.splits)

text \<open>A pair that is one certificate, valid whatever the intermediates, loads and leaves the pools alone.\<close>

lemma single_pair_loads:
  assumes "X509KeyPair K certPEM keyPEM = Inr [der]" "ParseCertificate K der = Inr leaf" "ps ! roots check = rs"
    and "\<forall>inter. CheckTLS K leaf rs inter clk = None" "currentTime check = None"
  shows "load_pair K clk check certPEM keyPEM ps = (ps, Inr \<lparr>Certificate = [der], Leaf = leaf\<rparr>)"
  using assms by (simp add: load_pair_def)

section \<open>Properties\<close>

text \<open>
  C38. The test certificates fit together. The first client pair and every later one of
  \<open>NewClientCertificate\<close> are certificates the client CA generated for exactly the partner asked for,
  the first one for \<open>ClientID\<close>; the server's configuration lets into a full handshake exactly the
  clients whose certificate passes \<^verbatim>\<open>CheckTLS\<close> against that one client CA at the time of the
  handshake and carries a UUID that parses, which becomes the identity of the connection; and the
  server's own certificate was made for 127.0.0.1 and signed with the server CA whose certificate
  clients are given.
\<close>

theorem test_pki_fits_together:
  assumes "NewCertificates G L made w = Some (w', Inr cs)"
  shows "(\<exists>v v'. NewClientCertificate G cs (tc_ClientID cs) v = (v', Inr (tc_ClientCertPEM cs, tc_ClientKeyPEM cs))) \<and>
    (\<forall>i v v' certPEM keyPEM. NewClientCertificate G cs i v = (v', Inr (certPEM, keyPEM)) \<longrightarrow>
       (\<exists>c. gl_Generate G \<lparr>gg_CN = ''dcr-sdk-client'', gg_UUID = gl_uuid_String G i, gg_CA = tc_clientCA cs\<rparr> v = (v', Inr c) \<and>
          certPEM = mc_CertPEM c \<and> keyPEM = mc_KeyPEM c)) \<and>
    (\<forall>clk conn certs c s s'. s conn = Some c \<longrightarrow>
       (handshake (tc_ServerTLSConfig cs) (\<lambda>_ _. True) False clk conn certs s = (s', True) \<longleftrightarrow>
        (\<exists>der others leaf uid. certs = der # others \<and> ParseCertificate (al_pki L) der = Inr leaf \<and>
           CheckTLS (al_pki L) leaf [mc_Cert (tc_clientCA cs)] [] clk = None \<and>
           al_GetUUID L leaf \<noteq> '''' \<and> al_uuid_parse L (al_GetUUID L leaf) = Inr uid \<and>
           s' = s(conn \<mapsto> c\<lparr>ac_authID := uid\<rparr>)))) \<and>
    (\<exists>(serverCA :: mtls_certificate) serial der leaf key v v'. tc_ServerRoots cs = [mc_Cert serverCA] \<and>
       tc_ServerCertificate cs = (\<lparr>Certificate = [der], Leaf = leaf\<rparr>, key) \<and> ParseCertificate (al_pki L) der = Inr leaf \<and>
       gl_CreateCertificate G (server_template made serial) (mc_Cert serverCA) key (mc_Key serverCA) v = (v', Inr der) \<and>
       tm_IPAddresses (server_template made serial) = [ParseIP (tc_ServerName cs)])"
proof (intro conjI allI impI)
  note made = NewCertificates_made [OF assms]
  show "\<exists>v v'. NewClientCertificate G cs (tc_ClientID cs) v = (v', Inr (tc_ClientCertPEM cs, tc_ClientKeyPEM cs))"
    using made by blast
  show "\<exists>c. gl_Generate G \<lparr>gg_CN = ''dcr-sdk-client'', gg_UUID = gl_uuid_String G i, gg_CA = tc_clientCA cs\<rparr> v = (v', Inr c) \<and>
      certPEM = mc_CertPEM c \<and> keyPEM = mc_KeyPEM c"
    if "NewClientCertificate G cs i v = (v', Inr (certPEM, keyPEM))" for i v v' certPEM keyPEM
    using that by (simp add: NewClientCertificate_made)
  show "handshake (tc_ServerTLSConfig cs) (\<lambda>_ _. True) False clk conn certs s = (s', True) \<longleftrightarrow>
      (\<exists>der others leaf uid. certs = der # others \<and> ParseCertificate (al_pki L) der = Inr leaf \<and>
         CheckTLS (al_pki L) leaf [mc_Cert (tc_clientCA cs)] [] clk = None \<and>
         al_GetUUID L leaf \<noteq> '''' \<and> al_uuid_parse L (al_GetUUID L leaf) = Inr uid \<and>
         s' = s(conn \<mapsto> c\<lparr>ac_authID := uid\<rparr>))" if "s conn = Some c" for clk conn certs c s s'
  proof -
    have "handshake (tc_ServerTLSConfig cs) (\<lambda>_ _. True) False clk conn certs s = (s', True) \<longleftrightarrow>
      (\<exists>uid. authenticateClientCertificate L clk certs (test_auth cs) = Inr uid \<and> s' = s(conn \<mapsto> c\<lparr>ac_authID := uid\<rparr>))"
      using that made by (simp add: plain_handshake)
    then show ?thesis by (auto simp: authenticates_iff check_time_def)
  qed
  obtain serverCA v v' where s: "tc_ServerRoots cs = [mc_Cert serverCA]"
    "newServerCertificate G (al_pki L) made serverCA v = (v', Inr (tc_ServerCertificate cs))" using made by blast
  have ip: "tm_IPAddresses (server_template made serial) = [ParseIP (tc_ServerName cs)]" for serial
    using server_name_matches [OF assms] by blast
  from newServerCertificate_made [OF s(2)]
  show "\<exists>(serverCA :: mtls_certificate) serial der leaf key v v'. tc_ServerRoots cs = [mc_Cert serverCA] \<and>
       tc_ServerCertificate cs = (\<lparr>Certificate = [der], Leaf = leaf\<rparr>, key) \<and> ParseCertificate (al_pki L) der = Inr leaf \<and>
       gl_CreateCertificate G (server_template made serial) (mc_Cert serverCA) key (mc_Key serverCA) v = (v', Inr der) \<and>
       tm_IPAddresses (server_template made serial) = [ParseIP (tc_ServerName cs)]"
  proof (elim exE conjE, goal_cases)
    case (1 serial der v v')
    obtain chain leaf key where sc: "tc_ServerCertificate cs = (\<lparr>Certificate = chain, Leaf = leaf\<rparr>, key)"
      by (metis prod.collapse tls_certificate.cases)
    have "tc_ServerRoots cs = [mc_Cert serverCA] \<and> tc_ServerCertificate cs = (\<lparr>Certificate = [der], Leaf = leaf\<rparr>, key) \<and>
        ParseCertificate (al_pki L) der = Inr leaf \<and>
        gl_CreateCertificate G (server_template made serial) (mc_Cert serverCA) key (mc_Key serverCA) v = (v', Inr der) \<and>
        tm_IPAddresses (server_template made serial) = [ParseIP (tc_ServerName cs)]"
      using 1 s(1) ip [of serial] sc by simp
    then show ?case by blast  qed
qed

text \<open>A library whose certificates are named after the UUID they carry, signed by whatever CA is given.\<close>

definition pki_cert :: "bytes \<Rightarrow> x509_cert" where
  "pki_cert der = \<lparr>NotBefore = 0, NotAfter = 9, SerialNumber = int (unat (last (0 # der))), Raw = der\<rparr>"

definition pki_lib :: auth_lib where
  "pki_lib = \<lparr>al_pki = \<lparr>X509KeyPair = (\<lambda>c k. Inr [c]), ParseCertificate = (\<lambda>der. Inr (pki_cert der)),
       CheckTLS = (\<lambda>c rs is t. if rs = [] then Some (Sentinel ''no roots'') else None), self_signed = (\<lambda>c. False)\<rparr>,
     al_CheckStatus = (\<lambda>c i h. (None, 3)), al_CertStatusGood = 3,
     al_GetUUID = (\<lambda>c. string_of_bytes (Raw c)), al_uuid_parse = sample_uuid_parse\<rparr>"

definition pki_gen :: "nat gen_lib" where
  "pki_gen = \<lparr>gl_GenerateCA = (\<lambda>cn w. (w + 1, Inr \<lparr>mc_Cert = pki_cert [], mc_CertPEM = [], mc_KeyPEM = [], mc_Key = w\<rparr>)),
     gl_Generate = (\<lambda>cfg w. (w + 1, Inr \<lparr>mc_Cert = pki_cert (bytes_of_string (gg_UUID cfg)),
       mc_CertPEM = bytes_of_string (gg_UUID cfg), mc_KeyPEM = [], mc_Key = w\<rparr>)),
     gl_uuid_New = (\<lambda>w. Some (w + 1, 7)), gl_uuid_String = sample_uuid_string,
     gl_GenerateKey = (\<lambda>w. (w + 1, Inr w)), gl_Int = (\<lambda>m w. (w + 1, Inr (w mod m))),
     gl_CreateCertificate = (\<lambda>t ca pub key w. (w + 1, Inr [1]))\<rparr>"

theorem test_pki_fits_together_witness:
  "\<exists>w' cs w2 keyPEM s'. NewCertificates pki_gen pki_lib 100 0 = Some (w', Inr cs) \<and>
     NewClientCertificate pki_gen cs 11 w' = (w2, Inr (bytes_of_string (sample_uuid_string 11), keyPEM)) \<and>
     handshake (tc_ServerTLSConfig cs) (\<lambda>_ _. True) False 5 0 [bytes_of_string (sample_uuid_string 11)] sample_conns = (s', True) \<and>
     GetUUID s' 0 = (11, True)"
proof -
  obtain w' cs where made: "NewCertificates pki_gen pki_lib 100 0 = Some (w', Inr cs)"
    by (simp add: NewCertificates_def newServerCertificate_def pki_gen_def pki_lib_def Let_def)
  obtain w2 certPEM keyPEM where new: "NewClientCertificate pki_gen cs 11 w' = (w2, Inr (certPEM, keyPEM))"
    by (simp add: NewClientCertificate_def pki_gen_def)  obtain c where conn: "sample_conns 0 = Some c" by (simp add: sample_conns_def)
  note fits = test_pki_fits_together [OF made]
  from fits [THEN conjunct2, THEN conjunct1, rule_format, OF new] have pem: "certPEM = bytes_of_string (sample_uuid_string 11)"
    by (auto simp: pki_gen_def)
  let ?s = "sample_conns(0 \<mapsto> c\<lparr>ac_authID := 11\<rparr>)"
  have ca: "ParseCertificate (al_pki pki_lib) d = Inr (pki_cert d)" "CheckTLS (al_pki pki_lib) x [ca] [] t = None"
    "al_GetUUID pki_lib (pki_cert (bytes_of_string (sample_uuid_string 11))) = sample_uuid_string 11"
    "al_uuid_parse pki_lib = sample_uuid_parse" for d x ca t
    by (simp_all add: pki_lib_def pki_cert_def)
  have "handshake (tc_ServerTLSConfig cs) (\<lambda>_ _. True) False 5 0
      [bytes_of_string (sample_uuid_string 11)] sample_conns = (?s, True)"
    using fits [THEN conjunct2, THEN conjunct2, THEN conjunct1, rule_format, where s = sample_conns and conn = 0 and clk = 5
        and certs = "[bytes_of_string (sample_uuid_string 11)]" and s' = ?s, OF conn]
    by (simp add: ca sample_uuid_simps)  moreover have "GetUUID ?s 0 = (11, True)" by (simp add: uuid_Nil_def)
  ultimately show ?thesis using made new pem by blast
qed
end
