(* ===== verification/CertFetch.thy ===== *)
theory CertFetch
  imports Mtls
begin

text \<open>
  The renewal of a certificate at the CA: \<open>Fetch\<close>, \<open>askCA\<close> and \<open>parseCARenewResponse\<close> of
  \<^verbatim>\<open>pkg/client/certprovider.go\<close>. The CA and HTTP are an environment: what each request
  answers, and when the context ends. \<open>Fetch\<close> polls as long as the CA answers 202, so it is a
  partial function; that it returns when the context has a deadline is a theorem.
\<close>

definition DefaultCAURL :: string where "DefaultCAURL = ''https://ca.mygaru.com''"
definition caRenewPath :: string where "caRenewPath = ''/cert''"
definition defaultCAPollInterval :: int where "defaultCAPollInterval = 20 * 10 ^ 9"
definition caResponseLimit :: nat where "caResponseLimit = 2 ^ 20"

section \<open>The CA's answer\<close>

record ca_renew_response =
  Chain :: string
  Key :: string
  Status :: string
  Reason :: string

definition parseCARenewResponse :: "pki \<Rightarrow> (bytes \<Rightarrow> ca_renew_response result) \<Rightarrow> bytes \<Rightarrow> (bytes \<times> bytes) result" where
  "parseCARenewResponse K json_Unmarshal body =
     (case json_Unmarshal body of
        Inl err \<Rightarrow> Inl (Errorf ''decode CA response: %w'' [AWrap err])
      | Inr r \<Rightarrow>
         (if Chain r = '''' \<or> Key r = '''' \<or> Chain r = ''null'' \<or> Key r = ''null'' then
            Inl (Errorf ''CA issued no certificate (status=%q reason=%q)'' [AStr (Status r), AStr (Reason r)])
          else let certPEM = bytes_of_string (Chain r); keyPEM = bytes_of_string (Key r) in
            case X509KeyPair K certPEM keyPEM of
              Inl err \<Rightarrow> Inl (Errorf ''CA issued an unusable certificate: %w'' [AWrap err])
            | Inr _ \<Rightarrow> Inr (certPEM, keyPEM)))"

section \<open>askCA\<close>

text \<open>
  One request: it cannot be built, it fails, or it has a status and a body, which is a stream of
  bytes that may end in an error. At most \<open>caResponseLimit\<close> bytes of it are read, and an error
  beyond them is never seen.
\<close>

record http_env =
  new_request :: "string \<Rightarrow> go_error option"
  do_request :: "nat \<Rightarrow> (int \<times> bytes \<times> go_error option) result"
  ctx_err :: "nat \<Rightarrow> go_error option"
  ctx_done_first :: "nat \<Rightarrow> bool"

definition read_limited :: "nat \<Rightarrow> bytes \<Rightarrow> go_error option \<Rightarrow> bytes result" where
  "read_limited limit content end =
     (if limit \<le> length content then Inr (take limit content)
      else case end of None \<Rightarrow> Inr content | Some err \<Rightarrow> Inl err)"

definition askCA :: "http_env \<Rightarrow> string \<Rightarrow> nat \<Rightarrow> (int \<times> bytes) result" where
  "askCA E url n =
     (case new_request E url of
        Some err \<Rightarrow> Inl (Errorf ''renew certificate at %s: %w'' [AStr url, AWrap err])
      | None \<Rightarrow>
         (case do_request E n of
            Inl err \<Rightarrow> Inl (Errorf ''renew certificate at %s: %w'' [AStr url, AWrap err])
          | Inr (status, content, end) \<Rightarrow>
             (case read_limited caResponseLimit content end of
                Inl err \<Rightarrow> Inl (Errorf ''renew certificate at %s: read response: %w'' [AStr url, AWrap err])
              | Inr body \<Rightarrow> Inr (status, body))))"

section \<open>Fetch\<close>

text \<open>\<^verbatim>\<open>strings.TrimRight(caURL, "/")\<close>, and the address a renewal is asked at.\<close>

definition TrimRight :: "char \<Rightarrow> string \<Rightarrow> string" where
  "TrimRight c s = rev (dropWhile (\<lambda>x. x = c) (rev s))"

definition renew_url :: "string \<Rightarrow> string" where
  "renew_url caURL = TrimRight (CHR ''/'') (if caURL = '''' then DefaultCAURL else caURL) @ caRenewPath"

definition poll_interval :: "cert_provider \<Rightarrow> int" where
  "poll_interval p = (if cp_pollInterval p \<le> 0 then defaultCAPollInterval else cp_pollInterval p)"

definition not_issued :: "string \<Rightarrow> go_error \<Rightarrow> go_error" where
  "not_issued url err = Errorf ''renew certificate at %s: CA has not issued it yet: %w'' [AStr url, AWrap err]"

text \<open>
  The \<open>n\<close>th turn of the loop. After a 202 the loop waits for the poll interval or the context,
  whichever the \<^verbatim>\<open>select\<close> takes (\<open>ctx_done_first\<close>); \<^verbatim>\<open>ctx.Err()\<close> is then set.
\<close>

definition ctx_error :: "http_env \<Rightarrow> nat \<Rightarrow> go_error" where
  "ctx_error E n = (case ctx_err E n of Some err \<Rightarrow> err | None \<Rightarrow> Sentinel ''context deadline exceeded'')"

partial_function (option) fetch_loop ::
  "pki \<Rightarrow> (bytes \<Rightarrow> ca_renew_response result) \<Rightarrow> http_env \<Rightarrow> string \<Rightarrow> bool \<Rightarrow> nat \<Rightarrow> (bytes \<times> bytes) result option" where
  "fetch_loop K json E url accepted n =
     (case askCA E url n of
        Inl err \<Rightarrow>
          Some (if accepted \<and> ctx_err E n \<noteq> None then Inl (not_issued url (ctx_error E n)) else Inl err)
      | Inr (status, body) \<Rightarrow>
         (if status = 200 then Some (parseCARenewResponse K json body)
          else if status = 202 then
            (if ctx_done_first E n then Some (Inl (not_issued url (ctx_error E n)))
             else fetch_loop K json E url True (Suc n))
          else Some (Inl (Errorf ''renew certificate at %s: CA answered %d: %s''
                 [AStr url, AInt status, AStr (TrimSpace (string_of_bytes body))]))))"

definition Fetch :: "pki \<Rightarrow> (bytes \<Rightarrow> ca_renew_response result) \<Rightarrow> http_env \<Rightarrow> string \<Rightarrow>
    (bytes \<times> bytes) result option" where
  "Fetch K json E caURL = fetch_loop K json E (renew_url caURL) False 0"

section \<open>Lemmas\<close>

lemma parse_ok:
  "parseCARenewResponse K json body = Inr (c, k) \<Longrightarrow>
     (\<exists>ders. X509KeyPair K c k = Inr ders) \<and> c \<noteq> [] \<and> k \<noteq> []"
  by (auto simp: parseCARenewResponse_def bytes_of_string_def Let_def split: sum.splits if_splits)

text \<open>The loop goes on exactly as long as the CA answers 202 and the context lives.\<close>

definition polls_on :: "http_env \<Rightarrow> string \<Rightarrow> nat \<Rightarrow> bool" where
  "polls_on E url n \<longleftrightarrow> (\<exists>body. askCA E url n = Inr (202, body)) \<and> \<not> ctx_done_first E n"

lemma fetch_loop_polls:
  "(\<And>i. n \<le> i \<Longrightarrow> i < n + k \<Longrightarrow> polls_on E url i) \<Longrightarrow>
     fetch_loop K json E url acc n = fetch_loop K json E url (acc \<or> 0 < k) (n + k)"
proof (induction k arbitrary: n acc)
  case (Suc k)
  have "polls_on E url n" using Suc.prems by simp
  then have "fetch_loop K json E url acc n = fetch_loop K json E url True (Suc n)"
    by (subst fetch_loop.simps) (auto simp: polls_on_def)
  also have "\<dots> = fetch_loop K json E url True (Suc n + k)"
    using Suc.IH [of "Suc n" True] Suc.prems by simp
  finally show ?case by simp
qed simp

lemma fetch_loop_stops:
  "\<not> polls_on E url n \<Longrightarrow> \<exists>r. fetch_loop K json E url acc n = Some r \<and>
     (\<forall>c k. r = Inr (c, k) \<longrightarrow> (\<exists>body. askCA E url n = Inr (200, body) \<and> parseCARenewResponse K json body = Inr (c, k)))"
  by (subst fetch_loop.simps) (auto simp: polls_on_def split: sum.splits)

lemma fetch_stops_at:
  assumes "\<not> polls_on E url m" "\<And>i. i < m \<Longrightarrow> polls_on E url i"
  shows "\<exists>r. fetch_loop K json E url False 0 = Some r \<and>
    (\<forall>c k. r = Inr (c, k) \<longrightarrow> (\<exists>body. askCA E url m = Inr (200, body) \<and> parseCARenewResponse K json body = Inr (c, k)))"
  using fetch_loop_polls [of 0 m E url K json False] fetch_loop_stops [OF assms(1)] assms(2) by simp

lemma fetch_stop:
  assumes "ctx_done_first E n"
  obtains m where "\<not> polls_on E url m" "m \<le> n" "\<And>i. i < m \<Longrightarrow> polls_on E url i"
proof -
  have stop: "\<not> polls_on E url n" using assms by (simp add: polls_on_def)
  show ?thesis
    using that [of "LEAST m. \<not> polls_on E url m"] LeastI [of "\<lambda>m. \<not> polls_on E url m", OF stop]
      Least_le [of "\<lambda>m. \<not> polls_on E url m", OF stop] not_less_Least [of _ "\<lambda>m. \<not> polls_on E url m"] by blast
qed

lemma fetch_some: "ctx_done_first E n \<Longrightarrow> \<exists>r. Fetch K json E caURL = Some r"
proof -
  assume "ctx_done_first E n"
  from fetch_stop [OF this, of "renew_url caURL"] obtain m where
    "\<not> polls_on E (renew_url caURL) m" "\<And>i. i < m \<Longrightarrow> polls_on E (renew_url caURL) i" by blast
  from fetch_stops_at [OF this, of K json] show ?thesis by (auto simp: Fetch_def)
qed

lemma poll_interval_pos: "0 < poll_interval p"
  by (simp add: poll_interval_def defaultCAPollInterval_def)

section \<open>Properties\<close>

text \<open>
  C22. \<open>Fetch\<close> returns: as soon as the context ends during some wait, whatever the CA answers
  before (202 for ever included). What it returns without error is a chain and a key that form
  a usable pair, from a 200 answer, all earlier answers having been 202 with the context alive.
\<close>

theorem fetch_returns:
  assumes "ctx_done_first E n"
  shows "\<exists>r. Fetch K json E caURL = Some r \<and>
    (\<forall>certPEM keyPEM. r = Inr (certPEM, keyPEM) \<longrightarrow>
       (\<exists>ders. X509KeyPair K certPEM keyPEM = Inr ders) \<and> certPEM \<noteq> [] \<and> keyPEM \<noteq> [] \<and>
       (\<exists>m \<le> n. (\<exists>body. askCA E (renew_url caURL) m = Inr (200, body)) \<and>
          (\<forall>i < m. (\<exists>body. askCA E (renew_url caURL) i = Inr (202, body)) \<and> \<not> ctx_done_first E i)))"
proof -
  let ?url = "renew_url caURL"
  obtain m where m: "\<not> polls_on E ?url m" "m \<le> n" "\<And>i. i < m \<Longrightarrow> polls_on E ?url i"
    using fetch_stop [OF assms] by blast
  obtain r where r: "Fetch K json E caURL = Some r"
    "\<forall>c k. r = Inr (c, k) \<longrightarrow> (\<exists>body. askCA E ?url m = Inr (200, body) \<and> parseCARenewResponse K json body = Inr (c, k))"
    using fetch_stops_at [OF m(1,3), of K json] by (auto simp: Fetch_def)
  have "\<forall>i < m. (\<exists>body. askCA E ?url i = Inr (202, body)) \<and> \<not> ctx_done_first E i"
    using m(3) by (simp add: polls_on_def)
  with r m(2) parse_ok show ?thesis by (intro exI [of _ r]) blast
qed

text \<open>A CA that accepts twice and then issues a pair.\<close>

definition sample_ca :: http_env where
  "sample_ca = \<lparr>new_request = (\<lambda>_. None),
     do_request = (\<lambda>n. Inr (if n < 2 then 202 else 200, [], None)),
     ctx_err = (\<lambda>_. None), ctx_done_first = (\<lambda>n. 6 \<le> n)\<rparr>"

definition sample_json :: "bytes \<Rightarrow> ca_renew_response result" where
  "sample_json b = Inr \<lparr>Chain = ''ab'', Key = ''ab'', Status = ''V'', Reason = ''''\<rparr>"

theorem fetch_returns_witness:
  "\<exists>r. Fetch sample_pki sample_json sample_ca '''' = Some r"
  using fetch_returns [of sample_ca 7 sample_pki sample_json "''''"] by (auto simp: sample_ca_def)

text \<open>
  An answer that is not a certificate is an error: of a CA response, only one that decodes,
  whose chain and key are neither empty nor the text null, and form a pair, becomes a result,
  and the result is those two texts unchanged; a body longer than the limit is cut, never
  refused or read on.
\<close>

lemma ca_answer_accepted:
  "(parseCARenewResponse K json body = Inr (c, k) \<longleftrightarrow>
     (\<exists>r. json body = Inr r \<and> Chain r \<notin> {'''', ''null''} \<and> Key r \<notin> {'''', ''null''} \<and>
        c = bytes_of_string (Chain r) \<and> k = bytes_of_string (Key r) \<and>
        (\<exists>ders. X509KeyPair K c k = Inr ders))) \<and>
   (do_request E n = Inr (status, content, end) \<and> new_request E url = None \<and> caResponseLimit \<le> length content \<longrightarrow>
     askCA E url n = Inr (status, take caResponseLimit content))"
  by (auto simp: parseCARenewResponse_def Let_def askCA_def read_limited_def split: sum.splits)


end
