(* ===== verification/AutoRenew.thy ===== *)
theory AutoRenew
  imports CertFetch
begin

text \<open>
  \<^verbatim>\<open>pkg/client/autorenew.go\<close>: the check that renews a certificate close to its end, and
  the loop that runs it for the life of the process. The state is the provider with the pools,
  what the application has been given to save, the reconnects (each is one call of
  \<^verbatim>\<open>ShardedClient.Reconnect\<close>; theory System runs their goroutines), the three counters and the
  errors reported; one turn's environment is the clock, the CA and the application's answer.
\<close>

definition renewRetryInterval :: int where "renewRetryInterval = 3600 * 10 ^ 9"
definition renewFetchTimeout :: int where "renewFetchTimeout = 2 * 60 * 10 ^ 9"

record renew_state =
  rs_provider :: cert_provider
  rs_pools :: pools
  rs_saved :: "(bytes \<times> bytes) list"
  rs_reconnects :: nat
  rs_renewed :: nat
  rs_same :: nat
  rs_failed :: nat
  rs_errors :: "go_error list"

record turn =
  t_now :: int
  t_load_clock :: int
  t_update_clock :: int
  t_ca :: http_env
  t_json :: "bytes \<Rightarrow> ca_renew_response result"
  t_onRenewed :: "bytes \<Rightarrow> bytes \<Rightarrow> go_error option"

text \<open>\<^verbatim>\<open>Time.Sub\<close> saturates at the range of a duration.\<close>

definition time_sub :: "int \<Rightarrow> int \<Rightarrow> int" where
  "time_sub a b = max (- (2 ^ 63)) (min (2 ^ 63 - 1) (a - b))"

definition leafOf :: "pki \<Rightarrow> (bytes \<Rightarrow> bytes option) \<Rightarrow> bytes \<Rightarrow> x509_cert result" where
  "leafOf K pem_Decode certPEM =
     (case pem_Decode certPEM of
        None \<Rightarrow> Inl (Sentinel ''renewed certificate holds no PEM block'')
      | Some block \<Rightarrow> ParseCertificate K block)"

text \<open>
  The renewal proper, once the CA has answered with a pair, in two parts: up to what the application
  is given to save, which either ends the check or goes on with the new serial number, and the use of
  the new pair with the \<^verbatim>\<open>Reconnect\<close> that follows.
\<close>

definition renew_keep :: "pki \<Rightarrow> (bytes \<Rightarrow> bytes option) \<Rightarrow> turn \<Rightarrow> x509_cert \<Rightarrow> bytes \<Rightarrow> bytes \<Rightarrow> renew_state \<Rightarrow>
    (bool result + int) \<times> renew_state" where
  "renew_keep K pem t leaf certPEM keyPEM s =
     (case leafOf K pem certPEM of
        Inl err \<Rightarrow> (Inl (Inl err), s)
      | Inr renewed \<Rightarrow>
         (let serial = AInt (SerialNumber renewed) in
          if SerialNumber renewed = SerialNumber leaf then (Inl (Inr False), s\<lparr>rs_same := Suc (rs_same s)\<rparr>)
          else case load_pair K (t_load_clock t) (cp_check (rs_provider s)) certPEM keyPEM (rs_pools s) of
            (ps, Inl err) \<Rightarrow> (Inl (Inl (Errorf ''renewed certificate %s: %w'' [serial, AWrap err])), s\<lparr>rs_pools := ps\<rparr>)
          | (ps, Inr _) \<Rightarrow>
             (case t_onRenewed t certPEM keyPEM of
                Some err \<Rightarrow> (Inl (Inl (Errorf ''save renewed certificate %s: %w'' [serial, AWrap err])), s\<lparr>rs_pools := ps\<rparr>)
              | None \<Rightarrow> (Inr (SerialNumber renewed),
                         s\<lparr>rs_pools := ps, rs_saved := rs_saved s @ [(certPEM, keyPEM)]\<rparr>))))"

definition renew_use :: "pki \<Rightarrow> turn \<Rightarrow> int \<Rightarrow> bytes \<Rightarrow> bytes \<Rightarrow> renew_state \<Rightarrow> bool result \<times> renew_state" where
  "renew_use K t serial certPEM keyPEM s =
     (case Update K (t_update_clock t) certPEM keyPEM (rs_provider s, rs_pools s) of
        ((p, ps), Some err) \<Rightarrow>
          (Inl (Errorf ''use renewed certificate %s: %w'' [AInt serial, AWrap err]), s\<lparr>rs_provider := p, rs_pools := ps\<rparr>)
      | ((p, ps), None) \<Rightarrow>
          (Inr True, s\<lparr>rs_provider := p, rs_pools := ps,
             rs_reconnects := Suc (rs_reconnects s), rs_renewed := Suc (rs_renewed s)\<rparr>))"

definition renew_with :: "pki \<Rightarrow> (bytes \<Rightarrow> bytes option) \<Rightarrow> turn \<Rightarrow> x509_cert \<Rightarrow> bytes \<Rightarrow> bytes \<Rightarrow> renew_state \<Rightarrow>
    bool result \<times> renew_state" where
  "renew_with K pem t leaf certPEM keyPEM s =
     (case renew_keep K pem t leaf certPEM keyPEM s of
        (Inl res, s') \<Rightarrow> (res, s')
      | (Inr serial, s') \<Rightarrow> renew_use K t serial certPEM keyPEM s')"

text \<open>\<open>check\<close>; \<open>None\<close>: the provider holds no certificate (a nil dereference), or the CA polls for ever.\<close>

definition renew_check :: "pki \<Rightarrow> (bytes \<Rightarrow> bytes option) \<Rightarrow> auto_renewer \<Rightarrow> turn \<Rightarrow> renew_state \<Rightarrow>
    (bool result \<times> renew_state) option" where
  "renew_check K pem r t s =
     (case Provider_Leaf (rs_provider s) of
        None \<Rightarrow> None
      | Some leaf \<Rightarrow>
         (if ar_before r < time_sub (NotAfter leaf) (t_now t) then Some (Inr False, s)
          else case Fetch K (t_json t) (t_ca t) (ar_caURL r) of
            None \<Rightarrow> None
          | Some (Inl err) \<Rightarrow> Some (Inl err, s)
          | Some (Inr (certPEM, keyPEM)) \<Rightarrow> Some (renew_with K pem t leaf certPEM keyPEM s)))"

text \<open>One turn of \<open>run\<close>: the check, the report of its error, and how long to sleep.\<close>

definition renew_turn :: "pki \<Rightarrow> (bytes \<Rightarrow> bytes option) \<Rightarrow> auto_renewer \<Rightarrow> turn \<Rightarrow> renew_state \<Rightarrow>
    (int \<times> renew_state) option" where
  "renew_turn K pem r t s =
     (case renew_check K pem r t s of
        None \<Rightarrow> None
      | Some (Inr _, s') \<Rightarrow> Some (ar_every r, s')
      | Some (Inl err, s') \<Rightarrow>
          Some (min (ar_every r) renewRetryInterval,
                s'\<lparr>rs_failed := Suc (rs_failed s'), rs_errors := rs_errors s' @ [err]\<rparr>))"

fun renew_run :: "pki \<Rightarrow> (bytes \<Rightarrow> bytes option) \<Rightarrow> auto_renewer \<Rightarrow> turn list \<Rightarrow> renew_state \<Rightarrow>
    (int list \<times> renew_state) option" where
  "renew_run K pem r [] s = Some ([], s)"
| "renew_run K pem r (t # ts) s =
     (case renew_turn K pem r t s of
        None \<Rightarrow> None
      | Some (wait, s') \<Rightarrow> map_option (\<lambda>(ws, s''). (wait # ws, s'')) (renew_run K pem r ts s'))"

text \<open>
  The context of a check: its deadline is \<open>renewFetchTimeout\<close> away, and every wait but the last has
  lasted the poll interval, so a wait that begins past the deadline ends with the context.
\<close>

definition fetch_times_out :: "cert_provider \<Rightarrow> http_env \<Rightarrow> bool" where
  "fetch_times_out p E \<longleftrightarrow> (\<forall>n. renewFetchTimeout \<le> int n * poll_interval p \<longrightarrow> ctx_done_first E n)"

section \<open>Lemmas\<close>

lemma fetch_returns_in_time:
  assumes "fetch_times_out p E"
  shows "\<exists>r. Fetch K json E caURL = Some r"
proof -
  have "renewFetchTimeout * 1 \<le> renewFetchTimeout * poll_interval p"
    using poll_interval_pos [of p] by (intro mult_left_mono) (auto simp: renewFetchTimeout_def)
  then have "renewFetchTimeout \<le> int (nat renewFetchTimeout) * poll_interval p" by (simp add: renewFetchTimeout_def)
  with assms have "ctx_done_first E (nat renewFetchTimeout)" unfolding fetch_times_out_def by blast
  then show ?thesis by (rule fetch_some)
qed

lemma renew_check_returns:
  assumes "Provider_Leaf (rs_provider s) \<noteq> None" "fetch_times_out p (t_ca t)"
  shows "\<exists>res s'. renew_check K pem r t s = Some (res, s')"
proof -
  obtain f where "Fetch K (t_json t) (t_ca t) (ar_caURL r) = Some f" using fetch_returns_in_time [OF assms(2)] by blast
  moreover obtain leaf where "Provider_Leaf (rs_provider s) = Some leaf" using assms(1) by blast
  moreover obtain res s' where "renew_with K pem t leaf (fst (projr f)) (snd (projr f)) s = (res, s')" by fastforce
  ultimately show ?thesis by (cases f) (auto simp: renew_check_def split: prod.split)
qed

text \<open>
  What holds at all times: the provider serves a certificate loaded from the PEM it started
  with or from one the application has saved, and every reconnect belongs to a renewal.
\<close>

definition renew_inv :: "bytes \<Rightarrow> renew_state \<Rightarrow> bool" where
  "renew_inv first s \<longleftrightarrow>
     check_ok (cp_check (rs_provider s)) (rs_pools s) \<and>
     (\<exists>pem. Provider_CertPEM (rs_provider s) = Some pem \<and> pem \<in> insert first (fst ` set (rs_saved s))) \<and>
     rs_reconnects s = rs_renewed s \<and> rs_renewed s \<le> length (rs_saved s) \<and>
     rs_failed s = length (rs_errors s)"

text \<open>
  What the two parts do: the first leaves the provider as it is, and goes on only with a pair the
  application has just agreed to save; the second is an update, followed by one reconnect if it succeeds.
\<close>

lemma renew_keep_outcome:
  assumes "check_ok (cp_check (rs_provider s)) (rs_pools s)"
    and "renew_keep K pem t leaf certPEM keyPEM s = (res, s')"
  shows "rs_provider s' = rs_provider s \<and> take (length (rs_pools s)) (rs_pools s') = rs_pools s \<and>
    rs_reconnects s' = rs_reconnects s \<and> rs_renewed s' = rs_renewed s \<and>
    rs_failed s' = rs_failed s \<and> rs_errors s' = rs_errors s \<and>
    (case res of
       Inl r \<Rightarrow> rs_saved s' = rs_saved s \<and> r \<noteq> Inr True
     | Inr serial \<Rightarrow> rs_saved s' = rs_saved s @ [(certPEM, keyPEM)] \<and> t_onRenewed t certPEM keyPEM = None \<and>
         (\<exists>new. leafOf K pem certPEM = Inr new \<and> serial = SerialNumber new \<and> SerialNumber new \<noteq> SerialNumber leaf))"
proof -
  obtain ps l where load: "load_pair K (t_load_clock t) (cp_check (rs_provider s)) certPEM keyPEM (rs_pools s) = (ps, l)"
    by fastforce
  have "take (length (rs_pools s)) ps = rs_pools s" using load_pair_effect [OF load assms(1)] by blast
  with assms(2) load show ?thesis
    by (auto simp: renew_keep_def Let_def split: sum.splits if_splits option.splits)
qed

lemma renew_use_outcome:
  assumes "check_ok (cp_check (rs_provider s)) (rs_pools s)" "renew_use K t serial certPEM keyPEM s = (res, s')"
  shows "check_ok (cp_check (rs_provider s')) (rs_pools s') \<and> rs_failed s' = rs_failed s \<and> rs_errors s' = rs_errors s \<and>
    rs_saved s' = rs_saved s \<and>
    (if res = Inr True then
       Provider_CertPEM (rs_provider s') = Some certPEM \<and>
       (\<exists>ps cert. GetClientCertificate (rs_provider s') = Some cert \<and>
          accepts K (cp_check (rs_provider s)) (t_update_clock t) ps certPEM keyPEM cert) \<and>
       rs_reconnects s' = Suc (rs_reconnects s) \<and> rs_renewed s' = Suc (rs_renewed s)
     else isl res \<and> rs_provider s' = rs_provider s \<and> rs_reconnects s' = rs_reconnects s \<and> rs_renewed s' = rs_renewed s)"
proof -
  obtain p ps err where up: "Update K (t_update_clock t) certPEM keyPEM (rs_provider s, rs_pools s) = ((p, ps), err)"
    by (metis prod.collapse)
  note eff = Update_effect [OF assms(1) up]
  have "check_ok (cp_check (rs_provider s)) ps" using eff assms(1) check_ok_mono by blast
  with assms(2) up eff show ?thesis
    by (cases err) (auto simp: renew_use_def Provider_CertPEM_def GetClientCertificate_def)
qed

lemma renew_with_outcome:
  assumes "check_ok (cp_check (rs_provider s)) (rs_pools s)"
    and "renew_with K pem t leaf certPEM keyPEM s = (res, s')"
  shows "check_ok (cp_check (rs_provider s')) (rs_pools s') \<and> rs_failed s' = rs_failed s \<and> rs_errors s' = rs_errors s \<and>
    (case res of
       Inr True \<Rightarrow>
         rs_saved s' = rs_saved s @ [(certPEM, keyPEM)] \<and> t_onRenewed t certPEM keyPEM = None \<and>
         Provider_CertPEM (rs_provider s') = Some certPEM \<and>
         (\<exists>ps cert. GetClientCertificate (rs_provider s') = Some cert \<and>
            accepts K (cp_check (rs_provider s)) (t_update_clock t) ps certPEM keyPEM cert) \<and>
         (\<exists>new. leafOf K pem certPEM = Inr new \<and> SerialNumber new \<noteq> SerialNumber leaf) \<and>
         rs_reconnects s' = Suc (rs_reconnects s) \<and> rs_renewed s' = Suc (rs_renewed s)
     | _ \<Rightarrow> rs_provider s' = rs_provider s \<and> rs_reconnects s' = rs_reconnects s \<and> rs_renewed s' = rs_renewed s \<and>
         (rs_saved s' = rs_saved s \<or>
          res \<noteq> Inr False \<and> rs_saved s' = rs_saved s @ [(certPEM, keyPEM)] \<and> t_onRenewed t certPEM keyPEM = None))"
proof -
  obtain r s1 where k: "renew_keep K pem t leaf certPEM keyPEM s = (r, s1)" by fastforce
  note keep = renew_keep_outcome [OF assms(1) k]
  have ok: "check_ok (cp_check (rs_provider s1)) (rs_pools s1)" using keep check_ok_mono [OF assms(1)] by simp
  show ?thesis
  proof (cases r)
    case (Inl res')
    with assms(2) k keep ok show ?thesis by (auto simp: renew_with_def split: sum.splits bool.splits)
  next
    case (Inr serial)
    with assms(2) k have "renew_use K t serial certPEM keyPEM s1 = (res, s')" by (simp add: renew_with_def)
    from renew_use_outcome [OF ok this] keep Inr show ?thesis
      by (cases res) (auto split: bool.splits if_splits)
  qed
qed

lemma renew_turn_inv:
  assumes "renew_inv first s" "renew_turn K pem r t s = Some (wait, s')"
  shows "renew_inv first s' \<and> wait \<le> ar_every r \<and>
    (rs_failed s' \<noteq> rs_failed s \<longrightarrow> wait \<le> renewRetryInterval) \<and> (0 < ar_every r \<longrightarrow> 0 < wait)"
proof -
  obtain res s1 where c: "renew_check K pem r t s = Some (res, s1)"
    using assms(2) by (auto simp: renew_turn_def split: option.splits)
  have inv1: "renew_inv first s1 \<and> rs_failed s1 = rs_failed s"
  proof (cases "s1 = s")
    case True
    with assms(1) show ?thesis by simp
  next
    case False
    then obtain leaf certPEM keyPEM where w: "renew_with K pem t leaf certPEM keyPEM s = (res, s1)"
      using c by (auto simp: renew_check_def split: option.splits if_splits sum.splits)
    have chk: "check_ok (cp_check (rs_provider s)) (rs_pools s)" using assms(1) by (simp add: renew_inv_def)
    show ?thesis
      using renew_with_outcome [OF chk w] assms(1)
      by (auto simp: renew_inv_def split: sum.splits bool.splits)
  qed
  moreover from this have "renew_inv first (s1\<lparr>rs_failed := Suc (rs_failed s1), rs_errors := rs_errors s1 @ [err]\<rparr>)"
    for err by (simp add: renew_inv_def)
  ultimately show ?thesis
    using assms(2) c by (cases res) (auto simp: renew_turn_def renewRetryInterval_def)
qed

lemma renew_run_inv:
  "renew_inv first s \<Longrightarrow> renew_run K pem r ts s = Some (ws, s') \<Longrightarrow>
     renew_inv first s' \<and> (\<forall>w \<in> set ws. w \<le> ar_every r \<and> (0 < ar_every r \<longrightarrow> 0 < w))"
proof (induction ts arbitrary: s ws)
  case (Cons t ts)
  then obtain w s1 ws1 where "renew_turn K pem r t s = Some (w, s1)" "ws = w # ws1"
      "renew_run K pem r ts s1 = Some (ws1, s')"
    by (auto split: option.splits)
  with renew_turn_inv [OF Cons.prems(1), of K pem r t w s1] Cons.IH [of s1 ws1] show ?case by auto
qed simp

lemma renew_run_returns:
  "renew_inv first s \<Longrightarrow> \<forall>t \<in> set ts. fetch_times_out p (t_ca t) \<Longrightarrow>
     \<exists>ws s'. renew_run K pem r ts s = Some (ws, s') \<and> length ws = length ts"
proof (induction ts arbitrary: s)
  case (Cons t ts)
  have leaf: "Provider_Leaf (rs_provider s) \<noteq> None"
    using Cons.prems(1) by (auto simp: renew_inv_def Provider_CertPEM_def Provider_Leaf_def)
  have "fetch_times_out p (t_ca t)" using Cons.prems(2) by simp
  from renew_check_returns [OF leaf this] obtain res s0 where "renew_check K pem r t s = Some (res, s0)" by blast
  then obtain w s1 where t: "renew_turn K pem r t s = Some (w, s1)" by (cases res) (auto simp: renew_turn_def)
  from renew_turn_inv [OF Cons.prems(1) t] have "renew_inv first s1" by simp
  with Cons.IH [of s1] Cons.prems(2) t show ?case by auto
qed simp

section \<open>Properties\<close>


text \<open>
  C8. Over any run of checks, whatever the CA and the application answer, the loop goes on: every
  check returns, and the loop sleeps a positive time of at most the check interval before the
  next. The certificate served comes from the PEM the client started with or from one the
  application has agreed to save, so a restart never loads an older one than the client last
  used; open connections are moved once per renewal; and every failure is reported once.
\<close>

theorem renewal_run_saves_first:
  assumes "newAutoRenewer cfg = Some r"
    and "newCertProvider K myGaruCAs clk cfg ps = (ps0, Inr p)" "check_ok (newCertCheck myGaruCAs cfg) ps"
    and "\<forall>t \<in> set ts. fetch_times_out p (t_ca t)"
  shows "\<exists>ws s. renew_run K pem r ts \<lparr>rs_provider = p, rs_pools = ps0, rs_saved = [], rs_reconnects = 0,
      rs_renewed = 0, rs_same = 0, rs_failed = 0, rs_errors = []\<rparr> = Some (ws, s) \<and> length ws = length ts \<and>
    (\<exists>pem. Provider_CertPEM (rs_provider s) = Some pem \<and> pem \<in> insert (CertPEM cfg) (fst ` set (rs_saved s))) \<and>
    rs_reconnects s = rs_renewed s \<and> rs_renewed s \<le> length (rs_saved s) \<and>
    rs_failed s = length (rs_errors s) \<and>
    (\<forall>w \<in> set ws. 0 < w \<and> w \<le> ar_every r)"
proof -
  let ?check = "newCertCheck myGaruCAs cfg"
  have up: "Update K clk (CertPEM cfg) (KeyPEM cfg)
      (\<lparr>cp_check = ?check, cp_current = None, cp_pollInterval = 0\<rparr>, ps) = ((p, ps0), None)"
    using assms(2) by (auto simp: newCertProvider_def split: prod.splits option.splits)
  have "check_ok (cp_check \<lparr>cp_check = ?check, cp_current = None, cp_pollInterval = 0\<rparr>) ps" using assms(3) by simp
  note eff = Update_effect [OF this up]
  have "check_ok ?check ps0" using eff assms(3) check_ok_mono by blast
  then have inv: "renew_inv (CertPEM cfg) \<lparr>rs_provider = p, rs_pools = ps0, rs_saved = [], rs_reconnects = 0,
      rs_renewed = 0, rs_same = 0, rs_failed = 0, rs_errors = []\<rparr>"
    using eff by (auto simp: renew_inv_def Provider_CertPEM_def)
  from renew_run_returns [OF this assms(4)] obtain ws s where
    run: "renew_run K pem r ts \<lparr>rs_provider = p, rs_pools = ps0, rs_saved = [], rs_reconnects = 0,
      rs_renewed = 0, rs_same = 0, rs_failed = 0, rs_errors = []\<rparr> = Some (ws, s)" "length ws = length ts" by blast
  from renew_run_inv [OF inv run(1)] have "renew_inv (CertPEM cfg) s"
    "\<forall>w \<in> set ws. w \<le> ar_every r \<and> (0 < ar_every r \<longrightarrow> 0 < w)" by blast+
  moreover have "0 < ar_every r"
    using assms(1) by (auto simp: newAutoRenewer_def defaultRenewCheckInterval_def split: if_splits)
  ultimately show ?thesis using run by (simp add: renew_inv_def)
qed

text \<open>
  A failed check is retried within an hour, however long the configured interval is.
\<close>

lemma failed_renewal_retried:
  assumes "renew_check K pem r t s = Some (Inl err, s1)" "renew_turn K pem r t s = Some (wait, s')"
  shows "wait \<le> 3600 * 10 ^ 9 \<and> wait \<le> ar_every r \<and> rs_errors s' = rs_errors s1 @ [err]"
  using assms by (auto simp: renew_turn_def renewRetryInterval_def)

section \<open>Witnesses\<close>

definition sample_turn :: "int \<Rightarrow> turn" where
  "sample_turn n = \<lparr>t_now = n, t_load_clock = n, t_update_clock = n, t_ca = sample_ca, t_json = sample_json,
     t_onRenewed = (\<lambda>c k. None)\<rparr>"

definition sample_renewer :: auto_renewer where
  "sample_renewer = \<lparr>ar_before = defaultRenewBefore, ar_every = defaultRenewCheckInterval, ar_caURL = ''''\<rparr>"

lemma sample_newAutoRenewer: "newAutoRenewer sample_mtls = Some sample_renewer"
  by (simp add: newAutoRenewer_def sample_mtls_def sample_renewer_def)


definition sample_prov :: cert_provider where
  "sample_prov = \<lparr>cp_check = newCertCheck sample_cas sample_mtls,
     cp_current = Some \<lparr>pc_cert = \<lparr>Certificate = [[1], [9]],
         Leaf = \<lparr>NotBefore = 0, NotAfter = 100, SerialNumber = 1, Raw = [1]\<rparr>\<rparr>, pc_certPEM = [1]\<rparr>,
     cp_pollInterval = 0\<rparr>"

definition sample_pools :: pools where
  "sample_pools = [[], [], [\<lparr>NotBefore = 0, NotAfter = 100, SerialNumber = 1, Raw = [9]\<rparr>]]"

lemma sample_newCertProvider:
  "newCertProvider sample_pki sample_cas 5 sample_mtls [[], []] = (sample_pools, Inr sample_prov)"
  by (simp add: newCertProvider_def Update_def load_pair_def sample_pki_def newCertCheck_def sample_cas_def
      sample_mtls_def Clone_def AddCert_def sample_prov_def sample_pools_def)

definition sample_state :: renew_state where
  "sample_state = \<lparr>rs_provider = sample_prov, rs_pools = sample_pools, rs_saved = [], rs_reconnects = 0,
     rs_renewed = 0, rs_same = 0, rs_failed = 0, rs_errors = []\<rparr>"




lemma sample_times_out:
  "fetch_times_out (rs_provider sample_state) (t_ca (sample_turn n))" "fetch_times_out sample_prov (t_ca (sample_turn n))"
  by (auto simp: fetch_times_out_def renewFetchTimeout_def sample_state_def sample_prov_def poll_interval_def
      defaultCAPollInterval_def sample_turn_def sample_ca_def)


theorem renewal_run_saves_first_witness:
  "\<exists>ws s. renew_run sample_pki Some sample_renewer [sample_turn 5] sample_state = Some (ws, s) \<and>
     rs_reconnects s = rs_renewed s \<and> (\<forall>w \<in> set ws. 0 < w)"
  using renewal_run_saves_first [OF sample_newAutoRenewer sample_newCertProvider sample_check_ok,
      of "[sample_turn 5]" Some] sample_times_out
  by (auto simp: sample_state_def)


end
