(* ===== verification/SaveFiles.thy ===== *)
theory SaveFiles
  imports Prelude
begin

text \<open>
  \<^verbatim>\<open>pkg/client/savefiles.go\<close>: saving a renewed pair over two files. The file system is a
  map from paths to contents and permissions; every system call may fail as the environment
  says, the removal of the temporary file included. Each function returns the states it passes through, so that a crash of the process is
  any one of them (a write may be cut anywhere), the state it ends in and its error.
\<close>

type_synonym path = string
type_synonym fs = "path \<Rightarrow> (bytes \<times> nat) option"

text \<open>
  What the system answers to one save: the name \<^verbatim>\<open>CreateTemp\<close> picks and the outcome of each
  call; a failing write has taken some of the bytes.
\<close>

record save_env =
  se_tmp :: path
  se_create :: "go_error option"
  se_write :: "(nat \<times> go_error) option"
  se_sync :: "go_error option"
  se_close :: "go_error option"
  se_chmod :: "go_error option"
  se_rename :: "go_error option"
  se_read :: "go_error option"
  se_remove :: "go_error option"

text \<open>The permissions \<^verbatim>\<open>0o600\<close> and \<^verbatim>\<open>0o644\<close>.\<close>

definition mode_0600 :: nat where "mode_0600 = 384"
definition mode_0644 :: nat where "mode_0644 = 420"

type_synonym saved = "fs list \<times> fs \<times> go_error option"

text \<open>
  Leaving after the temporary file exists: the deferred \<^verbatim>\<open>os.Remove\<close>, whose error is ignored. Where
  it fails on a file that is there, the file stays; once renamed, there is none to remove.
\<close>

definition leave :: "save_env \<Rightarrow> fs list \<Rightarrow> fs \<Rightarrow> go_error option \<Rightarrow> saved" where
  "leave E trace g err =
     (let g' = (case se_remove E of None \<Rightarrow> g(se_tmp E := None) | Some _ \<Rightarrow> g) in (trace @ [g, g'], g', err))"

definition saveFileAtomic :: "save_env \<Rightarrow> path \<Rightarrow> bytes \<Rightarrow> nat \<Rightarrow> fs \<Rightarrow> saved" where
  "saveFileAtomic E path data perm f =
     (case se_create E of
        Some err \<Rightarrow> ([f], f, Some err)
      | None \<Rightarrow>
         (let tmp = se_tmp E;
              f1 = f(tmp \<mapsto> ([], mode_0600));
              n = (case se_write E of Some (n, _) \<Rightarrow> min n (length data) | None \<Rightarrow> length data);
              writing = map (\<lambda>k. f1(tmp \<mapsto> (take k data, mode_0600))) [0..<n];
              f2 = f1(tmp \<mapsto> (take n data, mode_0600));
              trace = [f, f1] @ writing
          in case (se_write E, se_sync E, se_close E, se_chmod E) of
               (Some (_, err), _) \<Rightarrow> leave E trace f2 (Some err)
             | (None, Some err, _) \<Rightarrow> leave E trace f2 (Some err)
             | (None, None, Some err, _) \<Rightarrow> leave E trace f2 (Some err)
             | (None, None, None, Some err) \<Rightarrow> leave E trace f2 (Some err)
             | (None, None, None, None) \<Rightarrow>
                (let f3 = f2(tmp \<mapsto> (data, perm)) in
                 case se_rename E of
                   Some err \<Rightarrow> leave E (trace @ [f2]) f3 (Some err)
                 | None \<Rightarrow>
                    (let f4 = (f3(tmp := None))(path \<mapsto> (data, perm)) in
                     case se_read E of
                       Some err \<Rightarrow> leave E (trace @ [f2, f3]) f4 (Some err)
                     | None \<Rightarrow>
                        leave E (trace @ [f2, f3]) f4
                          (if map_option fst (f4 path) = Some data then None
                           else Some (Errorf ''%s does not hold what was written'' [AStr path]))))))"

text \<open>\<open>SaveToFiles\<close>: the key first, then the certificate.\<close>

definition SaveToFiles :: "path \<Rightarrow> path \<Rightarrow> save_env \<Rightarrow> save_env \<Rightarrow> bytes \<Rightarrow> bytes \<Rightarrow> fs \<Rightarrow> saved" where
  "SaveToFiles certPath keyPath E1 E2 certPEM keyPEM f =
     (case saveFileAtomic E1 keyPath keyPEM mode_0600 f of
        (trace, g, Some err) \<Rightarrow> (trace, g, Some (Errorf ''save key %s: %w'' [AStr keyPath, AWrap err]))
      | (trace, g, None) \<Rightarrow>
         (case saveFileAtomic E2 certPath certPEM mode_0644 g of
            (trace2, h, Some err) \<Rightarrow>
              (trace @ trace2, h, Some (Errorf ''save certificate %s: %w'' [AStr certPath, AWrap err]))
          | (trace2, h, None) \<Rightarrow> (trace @ trace2, h, None)))"

section \<open>Lemmas\<close>

text \<open>A state a save may be interrupted in: the target is as before or as wanted, nothing else changed.\<close>

definition save_point :: "save_env \<Rightarrow> path \<Rightarrow> bytes \<Rightarrow> nat \<Rightarrow> fs \<Rightarrow> fs \<Rightarrow> bool" where
  "save_point E path data perm f g \<longleftrightarrow>
     (g path = f path \<or> g path = Some (data, perm)) \<and> (\<forall>p. p \<noteq> path \<and> p \<noteq> se_tmp E \<longrightarrow> g p = f p)"

lemma saveFileAtomic_points:
  assumes "saveFileAtomic E path data perm f = (trace, g, err)" "se_tmp E \<noteq> path"
  shows "(\<forall>h \<in> set trace. save_point E path data perm f h) \<and> save_point E path data perm f g \<and> g \<in> set trace"
  using assms
  by (auto simp: saveFileAtomic_def leave_def save_point_def Let_def split: option.splits)

text \<open>What a save leaves behind when the temporary file cannot be removed.\<close>

definition left_over :: "path \<Rightarrow> bytes \<Rightarrow> nat \<Rightarrow> fs \<Rightarrow> fs \<Rightarrow> bool" where
  "left_over tmp data perm f g \<longleftrightarrow> (\<exists>k mode. g = f(tmp \<mapsto> (take k data, mode)) \<and> mode \<in> {mode_0600, perm})"

lemma left_overI:
  "left_over tmp data perm f (f(tmp \<mapsto> (take k data, mode_0600)))"
  "left_over tmp data perm f (f(tmp \<mapsto> (data, mode_0600)))"
  "left_over tmp data perm f (f(tmp \<mapsto> (data, perm)))"
  unfolding left_over_def by (blast, (metis insertCI order_refl take_all)+)

lemma saveFileAtomic_end:
  assumes "saveFileAtomic E path data perm f = (trace, g, err)" "se_tmp E \<noteq> path" "f (se_tmp E) = None"
  shows "(err = None \<longrightarrow> g = f(path \<mapsto> (data, perm))) \<and>
    (g = f \<or> g = f(path \<mapsto> (data, perm)) \<or> se_remove E \<noteq> None \<and> left_over (se_tmp E) data perm f g)"
proof -
  have restored: "f(se_tmp E := None) = f" using assms(3) by (intro fun_upd_idem)
  have replaced: "(f(path \<mapsto> x))(se_tmp E := None) = f(path \<mapsto> x)" for x
    using assms(2,3) by (intro fun_upd_idem) simp
  show ?thesis
    using assms(1,2)
    by (auto simp: saveFileAtomic_def leave_def Let_def restored replaced left_overI split: option.splits if_splits)
qed

lemma saveFileAtomic_succeeds:
  assumes "se_create E = None" "se_write E = None" "se_sync E = None" "se_close E = None"
    and "se_chmod E = None" "se_rename E = None" "se_read E = None" "se_tmp E \<noteq> path"
  shows "snd (snd (saveFileAtomic E path data perm f)) = None"
  using assms by (simp add: saveFileAtomic_def leave_def Let_def)

section \<open>Properties\<close>

text \<open>
  C19. A file is replaced atomically: whichever call fails and wherever the process dies, a write
  cut in the middle included, the file holds either what it held or the new content with the
  new permissions, never a part, and no other file but the temporary one is touched. Without
  error the new content is in place and nothing else has changed. With an error all is as before
  or the new content is in place, and only if removing the temporary file fails as well does that
  stay, holding a part of the new content.
\<close>

theorem save_file_atomic:
  assumes "saveFileAtomic E path data perm f = (trace, g, err)"
    and "se_tmp E \<noteq> path" "f (se_tmp E) = None"
  shows "(\<forall>h \<in> set trace. (h path = f path \<or> h path = Some (data, perm)) \<and>
      (\<forall>p. p \<noteq> path \<and> p \<noteq> se_tmp E \<longrightarrow> h p = f p)) \<and>
    (err = None \<longrightarrow> g = f(path \<mapsto> (data, perm))) \<and>
    (g = f \<or> g = f(path \<mapsto> (data, perm)) \<or>
     se_remove E \<noteq> None \<and> (\<exists>k mode. g = f(se_tmp E \<mapsto> (take k data, mode)) \<and> mode \<in> {mode_0600, perm}))"
  using saveFileAtomic_points [OF assms(1,2)] saveFileAtomic_end [OF assms] unfolding save_point_def left_over_def
  by blast

text \<open>
  C37. A pair is never torn the wrong way round: whenever the process dies while a renewed pair is
  saved, the files hold the old pair, the new key with the old certificate, or the new pair;
  never the new certificate with the old key. Success means the new pair is in place.
\<close>

theorem save_pair_key_first:
  assumes "SaveToFiles certPath keyPath E1 E2 certPEM keyPEM f = (trace, g, err)"
    and "certPath \<noteq> keyPath" "{se_tmp E1, se_tmp E2} \<inter> {certPath, keyPath} = {}"
    and "f (se_tmp E1) = None" "f (se_tmp E2) = None"
  shows "(\<forall>h \<in> set trace.
      (h keyPath, h certPath) \<in> {(f keyPath, f certPath), (Some (keyPEM, mode_0600), f certPath),
        (Some (keyPEM, mode_0600), Some (certPEM, mode_0644))}) \<and>
    (err = None \<longrightarrow> g = f(keyPath \<mapsto> (keyPEM, mode_0600), certPath \<mapsto> (certPEM, mode_0644)))"
proof -
  obtain t1 g1 e1 where s1: "saveFileAtomic E1 keyPath keyPEM mode_0600 f = (t1, g1, e1)" using prod_cases3 by blast
  obtain t2 g2 e2 where s2: "saveFileAtomic E2 certPath certPEM mode_0644 g1 = (t2, g2, e2)" using prod_cases3 by blast
  have tmp: "se_tmp E1 \<noteq> keyPath" "se_tmp E1 \<noteq> certPath" "se_tmp E2 \<noteq> certPath" "se_tmp E2 \<noteq> keyPath"
    using assms(3) by auto
  note p1 = saveFileAtomic_points [OF s1 tmp(1)] and n1 = saveFileAtomic_end [OF s1 tmp(1) assms(4)]
  have first: "(h keyPath, h certPath) \<in> {(f keyPath, f certPath), (Some (keyPEM, mode_0600), f certPath)}"
    if "h \<in> set t1" for h
  proof -
    have "save_point E1 keyPath keyPEM mode_0600 f h" using p1 that by blast
    with tmp(2) assms(2) show ?thesis by (auto simp: save_point_def)
  qed
  show ?thesis
  proof (cases e1)
    case (Some e)
    with assms(1) s1 have "trace = t1" "err \<noteq> None" by (auto simp: SaveToFiles_def)
    with first show ?thesis by blast
  next
    case None
    with n1 have g1: "g1 = f(keyPath \<mapsto> (keyPEM, mode_0600))" by simp
    then have g1_tmp: "g1 (se_tmp E2) = None" using assms(5) tmp(4) by simp
    have tr: "trace = t1 @ t2" "g = g2" "err = None \<longleftrightarrow> e2 = None"
      using assms(1) s1 s2 None by (auto simp: SaveToFiles_def split: option.splits)
    have second: "(h keyPath, h certPath) \<in> {(Some (keyPEM, mode_0600), f certPath),
        (Some (keyPEM, mode_0600), Some (certPEM, mode_0644))}" if "h \<in> set t2" for h
    proof -
      have "save_point E2 certPath certPEM mode_0644 g1 h"
        using saveFileAtomic_points [OF s2 tmp(3)] that by blast
      with tmp(4) assms(2) g1 show ?thesis by (auto simp: save_point_def)
    qed
    have "err = None \<longrightarrow> g = f(keyPath \<mapsto> (keyPEM, mode_0600), certPath \<mapsto> (certPEM, mode_0644))"
      using saveFileAtomic_end [OF s2 tmp(3) g1_tmp] tr unfolding g1 by blast
    with first second tr(1) show ?thesis by auto
  qed
qed

section \<open>Witnesses\<close>

definition sample_env :: "path \<Rightarrow> save_env" where
  "sample_env tmp = \<lparr>se_tmp = tmp, se_create = None, se_write = None, se_sync = None, se_close = None,
     se_chmod = None, se_rename = None, se_read = None, se_remove = None\<rparr>"

theorem save_file_atomic_witness:
  "fst (snd (saveFileAtomic (sample_env ''.k'') ''k'' [1, 2] mode_0600 Map.empty)) = [''k'' \<mapsto> ([1, 2], mode_0600)]"
proof -
  obtain t g e where s: "saveFileAtomic (sample_env ''.k'') ''k'' [1, 2] mode_0600 Map.empty = (t, g, e)"
    using prod_cases3 by blast
  have "e = None" using saveFileAtomic_succeeds [of "sample_env ''.k''" "''k''" "[1, 2]" "mode_0600" Map.empty] s
    by (simp add: sample_env_def)
  with save_file_atomic [OF s] s show ?thesis by (simp add: sample_env_def)
qed

theorem save_pair_key_first_witness:
  "fst (snd (SaveToFiles ''c'' ''k'' (sample_env ''.k'') (sample_env ''.c'') [1] [2] Map.empty)) =
     [''k'' \<mapsto> ([2], mode_0600), ''c'' \<mapsto> ([1], mode_0644)]"
proof -
  obtain t g e where s: "SaveToFiles ''c'' ''k'' (sample_env ''.k'') (sample_env ''.c'') [1] [2] Map.empty = (t, g, e)"
    using prod_cases3 by blast
  obtain t1 g1 where s1: "saveFileAtomic (sample_env ''.k'') ''k'' [2] mode_0600 Map.empty = (t1, g1, None)"
    using saveFileAtomic_succeeds [of "sample_env ''.k''" "''k''" "[2]" "mode_0600" Map.empty]
    by (cases "saveFileAtomic (sample_env ''.k'') ''k'' [2] mode_0600 Map.empty") (auto simp: sample_env_def)
  obtain t2 g2 where s2: "saveFileAtomic (sample_env ''.c'') ''c'' [1] mode_0644 g1 = (t2, g2, None)"
    using saveFileAtomic_succeeds [of "sample_env ''.c''" "''c''" "[1]" "mode_0644" g1]
    by (cases "saveFileAtomic (sample_env ''.c'') ''c'' [1] mode_0644 g1") (auto simp: sample_env_def)
  have "e = None" using s s1 s2 by (simp add: SaveToFiles_def)
  with save_pair_key_first [OF s] s show ?thesis by (simp add: sample_env_def)
qed

end
