(* ===== verification/Tools.thy ===== *)
theory Tools
  imports TestPKI AutoRenew SaveFiles
begin

text \<open>
  The command line tools under \<^verbatim>\<open>cmd\<close>: \<^verbatim>\<open>touch-check\<close> (one Touch over mTLS), \<^verbatim>\<open>test-cloud\<close> (the
  test cloud as a process), \<^verbatim>\<open>client-example\<close> and \<^verbatim>\<open>proto-verify\<close>, and the package's entry points \<^verbatim>\<open>sdk.go\<close>. Flags are records; files, PEM and the clock are
  an environment; what is printed is a list of lines, a format with its arguments.
\<close>

type_synonym line = "string \<times> go_arg list"

record tool_env =
  te_ReadFile :: "path \<Rightarrow> bytes result"
  te_Decode :: "bytes \<Rightarrow> (string \<times> bytes) option"
  te_certs :: "bytes \<Rightarrow> x509_cert list"
  te_LoadX509KeyPair :: "path \<Rightarrow> path \<Rightarrow> go_error option"
  te_CommonName :: "x509_cert \<Rightarrow> string"
  te_Issuer :: "x509_cert \<Rightarrow> string"
  te_GetUUID :: "x509_cert \<Rightarrow> string"
  te_RFC3339 :: "int \<Rightarrow> string"

section \<open>touch-check\<close>

record touch_flags =
  tf_addr :: string
  tf_cert :: path
  tf_key :: path
  tf_serverName :: string
  tf_serverCA :: path
  tf_clientCA :: path
  tf_deviceID :: string
  tf_externalUID :: string
  tf_externalUIDSource :: string
  tf_otp :: string
  tf_partnerUID :: string
  tf_timeout :: int

definition uid_unless_empty :: "string \<Rightarrow> int32 \<Rightarrow> string \<Rightarrow> uid option list" where
  "uid_unless_empty ident ty source =
     (if ident \<noteq> '''' then [Some \<lparr>UID_Id = bytes_of_string ident, UID_Type = ty, UID_Source = source\<rparr>] else [])"

definition requestUIDs :: "touch_flags \<Rightarrow> uid option list" where
  "requestUIDs F =
     uid_unless_empty (tf_deviceID F) UID_DEVICE_ID '''' @
     uid_unless_empty (tf_externalUID F) UID_EXTERNAL_UID (tf_externalUIDSource F) @
     uid_unless_empty (tf_otp F) UID_OTP '''' @
     uid_unless_empty (tf_partnerUID F) UID_PARTNER_UID ''''"

definition orDash :: "bytes \<Rightarrow> go_arg" where
  "orDash b = (if b = [] then AStr ''-'' else ABytes b)"

definition describeCertificate :: "tool_env \<Rightarrow> pki \<Rightarrow> bytes \<Rightarrow> line list" where
  "describeCertificate E K certPEM =
     (case te_Decode E certPEM of
        None \<Rightarrow> []
      | Some (_, der) \<Rightarrow>
         (case ParseCertificate K der of
            Inl _ \<Rightarrow> []
          | Inr cert \<Rightarrow>
             (let partner = (if te_GetUUID E cert = '''' then te_CommonName E cert @ '' (from the CN)'' else te_GetUUID E cert)
              in [(''certificate: CN=%s'', [AStr (te_CommonName E cert)]),
                  (''  partner:   %s'', [AStr partner]),
                  (''  issuer:    %s'', [AStr (te_Issuer E cert)]),
                  (''  serial:    %s'', [AInt (SerialNumber cert)]),
                  (''  valid:     %s .. %s'', [AStr (te_RFC3339 E (NotBefore cert)), AStr (te_RFC3339 E (NotAfter cert))])])))"

text \<open>\<^verbatim>\<open>AppendCertsFromPEM\<close> adds the certificates it can read, and reports whether there was one.\<close>

definition loadPool :: "tool_env \<Rightarrow> path \<Rightarrow> pools \<Rightarrow> pools \<times> pool option result" where
  "loadPool E path ps =
     (if path = '''' then (ps, Inr None)
      else case te_ReadFile E path of
        Inl err \<Rightarrow> (ps, Inl err)
      | Inr pemBytes \<Rightarrow>
         (let p = length ps; ps' = foldl (\<lambda>qs c. AddCert p c qs) (ps @ [[]]) (te_certs E pemBytes)
          in if te_certs E pemBytes = [] then (ps', Inl (Errorf ''%s holds no PEM certificate'' [AStr path]))
             else (ps', Inr (Some p))))"

text \<open>An enum printed with \<^verbatim>\<open>%s\<close>.\<close>

definition enum_arg :: "(int \<times> string) list \<Rightarrow> int32 \<Rightarrow> go_arg" where
  "enum_arg names n = AStr (enum_String names n)"

text \<open>The client certificate, the name to verify and the pools, before a client is built.\<close>

definition touch_mtls :: "touch_flags \<Rightarrow> tool_env \<Rightarrow> bytes \<Rightarrow> bytes \<Rightarrow> pools \<Rightarrow> pools \<times> mtls_config result" where
  "touch_mtls F E certPEM keyPEM ps =
     (case (if tf_serverName F \<noteq> '''' then Inr (tf_serverName F)
            else case SplitHostPort (tf_addr F) of
              Inl err \<Rightarrow> Inl (Errorf ''-addr %q: %w'' [AStr (tf_addr F), AWrap err])
            | Inr (host, _) \<Rightarrow> Inr host) of
        Inl err \<Rightarrow> (ps, Inl err)
      | Inr name \<Rightarrow>
         (case loadPool E (tf_serverCA F) ps of
            (ps1, Inl err) \<Rightarrow> (ps1, Inl (Errorf ''-serverCA: %w'' [AWrap err]))
          | (ps1, Inr serverRoots) \<Rightarrow>
             (case loadPool E (tf_clientCA F) ps1 of
                (ps2, Inl err) \<Rightarrow> (ps2, Inl (Errorf ''-clientCA: %w'' [AWrap err]))
              | (ps2, Inr clientRoots) \<Rightarrow>
                  (ps2, Inr \<lparr>CertPEM = certPEM, KeyPEM = keyPEM, ServerRootCAs = serverRoots, ServerName = name,
                     MinVersion = 0, ClientCertRoots = clientRoots, ClientCertIntermediates = None,
                     CurrentTime = None, has_OnRenewed = False, RenewBefore = 0, RenewCheckInterval = 0,
                     CAURL = ''''\<rparr>))))"

text \<open>
  \<open>run\<close>: what is printed, the network afterwards and the error; a panic is \<open>None\<close>. \<open>took\<close> is the
  duration the clock measures.
\<close>

definition touch_run :: "touch_flags \<Rightarrow> tool_env \<Rightarrow> pki \<Rightarrow> cas \<Rightarrow> (string \<Rightarrow> ip list result) \<Rightarrow> int \<Rightarrow> int \<Rightarrow>
    'n ext \<Rightarrow> call \<Rightarrow> 'n world \<Rightarrow> pools \<Rightarrow> (line list \<times> 'n world \<times> go_error option) option" where
  "touch_run F E K myGaruCAs lookup clk took X k w ps =
     (if tf_cert F = '''' \<or> tf_key F = '''' then Some ([], w, Some (Sentinel ''-cert and -key are required''))
      else let uids = requestUIDs F in
      if uids = [] then Some ([], w, Some (Sentinel
        ''name at least one identifier: -deviceID, -externalUID, -otp or -partnerUID''))
      else case te_ReadFile E (tf_cert F) of
        Inl err \<Rightarrow> Some ([], w, Some err)
      | Inr certPEM \<Rightarrow>
      (case te_ReadFile E (tf_key F) of
        Inl err \<Rightarrow> Some ([], w, Some err)
      | Inr keyPEM \<Rightarrow>
      (let out = describeCertificate E K certPEM in
       case touch_mtls F E certPEM keyPEM ps of
         (_, Inl err) \<Rightarrow> Some (out, w, Some err)
       | (ps1, Inr cfg) \<Rightarrow>
       (case NewWithMTLS K myGaruCAs lookup clk
               (Some (zero_configuration\<lparr>Addrs := tf_addr F, MaximumSimultaneousConnections := 1,
                  MaxRequestDuration := tf_timeout F, MaxDialDuration := tf_timeout F\<rparr>)) cfg ps1 of
          None \<Rightarrow> None
        | Some (_, Inl err) \<Rightarrow> Some (out, w, Some (Errorf ''client certificate refused before dialing (pass the issuing CA in -clientCA if it is not the myGaru CA): %w'' [AWrap err]))
        | Some (_, Inr (cli, _, _)) \<Rightarrow>
           (let out = out @ [(''Touch -> %s (server name %s)'', [AStr (tf_addr F), AStr (ServerName cfg)])] in
            case Sharded_Touch X k (Some \<lparr>TouchRequest_Uids = uids, TouchRequest_Context = None,
                     TouchRequest_Inventory = None\<rparr>) cli w of
              None \<Rightarrow> None
            | Some (_, w', _, status, Some err) \<Rightarrow>
                Some (out, w', Some (Errorf ''status=%s after %s: %w''
                  [enum_arg RPCServerResponseCode_name status, AInt took, AWrap err]))
            | Some (_, w', resp, status, None) \<Rightarrow>
                (let r = (case resp of Some r \<Rightarrow> r | None \<Rightarrow>
                            \<lparr>TouchResponse_UserId = [], TouchResponse_Accuracy = 0, TouchResponse_Label = []\<rparr>)
                 in Some (out @ [(''status:   %s (%s)'', [enum_arg RPCServerResponseCode_name status, AInt took]),
                        (''user_id:  %s'', [orDash (TouchResponse_UserId r)]),
                        (''accuracy: %s'', [enum_arg TouchResponse_Accuracy_name (TouchResponse_Accuracy r)]),
                        (''label:    %s'', [orDash (TouchResponse_Label r)])], w', None)))))))"

text \<open>\<open>main\<close>: an error of \<open>run\<close> goes to standard error and ends the process with 1.\<close>

definition touch_main :: "go_error option \<Rightarrow> line list \<times> nat" where
  "touch_main err =
     (case err of
        None \<Rightarrow> ([], 0)
      | Some e \<Rightarrow> ([(''touch-check: %v'', [AText e])], 1))"

section \<open>test-cloud\<close>

record tc_flags =
  cf_listenAddr :: string
  cf_serverID :: uint64
  cf_tlsCert :: path
  cf_tlsKey :: path
  cf_clientCA :: path
  cf_clientIssuer :: path
  cf_requireOCSP :: bool

definition readCertificate :: "tool_env \<Rightarrow> pki \<Rightarrow> path \<Rightarrow> x509_cert result" where
  "readCertificate E K path =
     (case te_ReadFile E path of
        Inl err \<Rightarrow> Inl err
      | Inr certPEM \<Rightarrow>
         (case te_Decode E certPEM of
            Some (ty, der) \<Rightarrow> if ty = ''CERTIFICATE'' then ParseCertificate K der else Inl (Errorf ''decode certificate'' [])
          | None \<Rightarrow> Inl (Errorf ''decode certificate'' [])))"

definition loadTLSConfig :: "tc_flags \<Rightarrow> tool_env \<Rightarrow> auth_lib \<Rightarrow> server_tls result" where
  "loadTLSConfig F E L =     (if cf_tlsCert F = '''' \<or> cf_tlsKey F = '''' \<or> cf_clientCA F = '''' then
        Inl (Errorf ''tlsCert, tlsKey, and clientCA are required'' [])
      else case te_LoadX509KeyPair E (cf_tlsCert F) (cf_tlsKey F) of
        Some err \<Rightarrow> Inl (Errorf ''load server key pair: %w'' [AWrap err])
      | None \<Rightarrow>
      (case te_ReadFile E (cf_clientCA F) of
        Inl err \<Rightarrow> Inl (Errorf ''read client CA: %w'' [AWrap err])
      | Inr clientCAPEM \<Rightarrow>
      (if te_certs E clientCAPEM = [] then Inl (Errorf ''parse client CA'' [])
       else case (if cf_clientIssuer F \<noteq> '''' then map_sum id Some (readCertificate E (al_pki L) (cf_clientIssuer F)) else Inr None) of
         Inl err \<Rightarrow> Inl (Errorf ''read client issuer: %w'' [AWrap err])
       | Inr issuer \<Rightarrow>
           Inr (NewTLSConfig L (Some (ServerTLS NoClientCert 0 None None))
             \<lparr>sm_Roots = te_certs E clientCAPEM, sm_Intermediates = [], sm_CurrentTime = None,
              sm_Issuer = issuer, sm_StatusClient = None, sm_RequireOCSP = cf_requireOCSP F\<rparr>))))"

text \<open>\<open>main\<close>: the message it dies with, if it does. The server id flag is cut to 16 bits.\<close>

definition test_cloud_main :: "tc_flags \<Rightarrow> tool_env \<Rightarrow> auth_lib \<Rightarrow> (string \<Rightarrow> 'l result) \<Rightarrow>
    ('l tc_server \<Rightarrow> 'l \<Rightarrow> go_error option) \<Rightarrow> go_error option" where
  "test_cloud_main F E L listen serve =
     (case loadTLSConfig F E L of
        Inl err \<Rightarrow> Some (Errorf ''test-cloud: load TLS config: %v'' [AText err])
      | Inr tlsConfig \<Rightarrow>
         (case tc_ListenAndServe listen serve
                 \<lparr>tcc_ListenAddr = cf_listenAddr F, tcc_ServerID = ucast (cf_serverID F),
                  tcc_TLSConfig = Some tlsConfig, tcc_TouchPartners = [], tcc_TargetStatus = RPC_UNKNOWN,
                  tcc_ReportBuffer = 0, tcc_DropConnAfterRequest = False\<rparr> of
            Some err \<Rightarrow> Some (Errorf ''test-cloud: serve failed on %q: %v'' [AStr (cf_listenAddr F), AText err])
          | None \<Rightarrow> None))"

section \<open>client-example\<close>

record example_flags =
  ef_cert :: path
  ef_key :: path
  ef_addr :: string
  ef_caURL :: string
  ef_renewBefore :: int

text \<open>\<open>main\<close> up to the client that is ready, or the message it dies with.\<close>

definition example_main :: "example_flags \<Rightarrow> tool_env \<Rightarrow> pki \<Rightarrow> cas \<Rightarrow> (string \<Rightarrow> ip list result) \<Rightarrow> int \<Rightarrow> pools \<Rightarrow>
    (tls_config sharded_client \<times> cert_provider \<times> auto_renewer option) result option" where
  "example_main F E K myGaruCAs lookup clk ps =
     (if ef_cert F = '''' \<or> ef_key F = '''' then Some (Inl (Errorf ''-cert and -key are required'' []))
      else case te_ReadFile E (ef_cert F) of
        Inl err \<Rightarrow> Some (Inl (Errorf ''read certificate: %v'' [AText err]))
      | Inr certPEM \<Rightarrow>
      (case te_ReadFile E (ef_key F) of
        Inl err \<Rightarrow> Some (Inl (Errorf ''read key: %v'' [AText err]))
      | Inr keyPEM \<Rightarrow>
      (case SplitHostPort (ef_addr F) of
         Inl err \<Rightarrow> Some (Inl (Errorf ''-addr %q: %v'' [AStr (ef_addr F), AText err]))
       | Inr (serverName, _) \<Rightarrow>
          map_option (\<lambda>(_, r). case r of Inl err \<Rightarrow> Inl (Errorf ''create client: %v'' [AText err]) | Inr c \<Rightarrow> Inr c)
            (NewWithMTLS K myGaruCAs lookup clk
               (Some (zero_configuration\<lparr>Addrs := ef_addr F, MaxRequestDuration := 10 ^ 9\<rparr>))
               \<lparr>CertPEM = certPEM, KeyPEM = keyPEM, ServerRootCAs = None, ServerName = serverName, MinVersion = 0,
                ClientCertRoots = None, ClientCertIntermediates = None, CurrentTime = None, has_OnRenewed = True,
                RenewBefore = ef_renewBefore F, RenewCheckInterval = 0, CAURL = ef_caURL F\<rparr> ps))))"

text \<open>The line the example then prints, and waits for a signal.\<close>

definition example_ready :: "example_flags \<Rightarrow> tool_env \<Rightarrow> cert_provider \<Rightarrow> line option" where
  "example_ready F E provider =
     map_option (\<lambda>leaf. (''client ready: %s, certificate %s valid until %s, renewed from %s'',
         [AStr (ef_addr F), AInt (SerialNumber leaf), AStr (te_RFC3339 E (NotAfter leaf)),
          AStr (te_RFC3339 E (NotAfter leaf - ef_renewBefore F))])) (Provider_Leaf provider)"

section \<open>proto-verify\<close>

text \<open>
  The descriptors by the names of their Go variables, nil where one is missing; \<open>findByPath\<close> is the global
  registry. What is printed, and the line on standard error the tool exits with, if it does.
\<close>

record file_desc =
  fd_Path :: string
  fd_Package :: string
  fd_GoPackage :: string

fun proto_verify_files :: "(string \<Rightarrow> go_error option) \<Rightarrow> file_desc option list \<Rightarrow> line list \<times> line option" where
  "proto_verify_files findByPath [] = ([], None)"
| "proto_verify_files findByPath (None # fds) = ([], Some (''proto-verify: nil file descriptor'', []))"
| "proto_verify_files findByPath (Some fd # fds) =
     (case findByPath (fd_Path fd) of
        Some err \<Rightarrow> ([], Some (''proto-verify: %s is not registered: %v'', [AStr (fd_Path fd), AText err]))
      | None \<Rightarrow>
         (case proto_verify_files findByPath fds of
            (out, exit) \<Rightarrow>
              ((''  %-28s package=%-10s go_package=%s'',
                [AStr (fd_Path fd), AStr (fd_Package fd), AStr (fd_GoPackage fd)]) # out, exit)))"

definition proto_verify_names :: "string list" where
  "proto_verify_names =
     [''File_base_v1_common_proto'', ''File_base_v1_frequency_proto'', ''File_base_v1_match_proto'',
      ''File_base_v1_rpc_report_proto'', ''File_base_v1_rpc_target_proto'', ''File_base_v1_user_proto'']"

definition proto_verify_main :: "(string \<Rightarrow> go_error option) \<Rightarrow> (string \<Rightarrow> file_desc option) \<Rightarrow> line list \<times> line option" where
  "proto_verify_main findByPath base = proto_verify_files findByPath (map base proto_verify_names)"

section \<open>The package's own entry points\<close>

text \<open>\<^verbatim>\<open>sdk.go\<close> passes its arguments on to the client package.\<close>

definition SDK_DefaultCAURL :: string where "SDK_DefaultCAURL = DefaultCAURL"

definition SDK_SaveToFiles :: "path \<Rightarrow> path \<Rightarrow> save_env \<Rightarrow> save_env \<Rightarrow> bytes \<Rightarrow> bytes \<Rightarrow> fs \<Rightarrow> saved" where
  "SDK_SaveToFiles certPath keyPath = SaveToFiles certPath keyPath"

definition SDK_NewWithMTLS :: "pki \<Rightarrow> cas \<Rightarrow> (string \<Rightarrow> ip list result) \<Rightarrow> int \<Rightarrow> configuration option \<Rightarrow> mtls_config \<Rightarrow>
    pools \<Rightarrow> (pools \<times> (tls_config sharded_client \<times> cert_provider \<times> auto_renewer option) result) option" where
  "SDK_NewWithMTLS K myGaruCAs lookup clk cfg mtlsCfg = NewWithMTLS K myGaruCAs lookup clk cfg mtlsCfg"

section \<open>Lemmas\<close>

text \<open>
  proto-verify passes exactly when every listed descriptor is there and registered, and then it has
  printed one line for each. The Touch messages' file is not listed, so whether it is there decides nothing.
\<close>

lemma proto_verify_files_passes:
  "snd (proto_verify_files findByPath fds) = None \<longleftrightarrow> (\<forall>d \<in> set fds. \<exists>fd. d = Some fd \<and> findByPath (fd_Path fd) = None)"
  by (induction findByPath fds rule: proto_verify_files.induct) (auto split: option.splits prod.splits)

lemma proto_verify_prints:
  "snd (proto_verify_files findByPath fds) = None \<Longrightarrow> length (fst (proto_verify_files findByPath fds)) = length fds"
  by (induction findByPath fds rule: proto_verify_files.induct) (auto split: option.splits prod.splits)

lemma proto_verify_misses_touch:
  "proto_verify_main findByPath (base(''File_base_v1_rpc_touch_proto'' := d)) = proto_verify_main findByPath base"
  by (simp add: proto_verify_main_def proto_verify_names_def)

text \<open>No identifier, no request: the four flags are sent in a fixed order, those that are set.\<close>

lemma requestUIDs_empty:
  "requestUIDs F = [] \<longleftrightarrow> tf_deviceID F = '''' \<and> tf_externalUID F = '''' \<and> tf_otp F = '''' \<and> tf_partnerUID F = ''''"
  by (simp add: requestUIDs_def uid_unless_empty_def)

lemma requestUIDs_types:
  "sorted_wrt (\<noteq>) (map (\<lambda>u. UID_Type (the u)) (requestUIDs F)) \<and>
   (\<forall>u \<in> set (requestUIDs F). u \<noteq> None \<and> UID_Id (the u) \<noteq> [])"
  by (auto simp: requestUIDs_def uid_unless_empty_def bytes_of_string_def
      UID_DEVICE_ID_def UID_EXTERNAL_UID_def UID_OTP_def UID_PARTNER_UID_def)

text \<open>A run that lacks a flag, a file or a client touches no network.\<close>

lemma touch_run_silent:
  assumes "touch_run F E K cs lookup clk took X k w ps = Some (out, w', err)"
    and "tf_cert F = '''' \<or> tf_key F = '''' \<or> requestUIDs F = [] \<or> isl (te_ReadFile E (tf_cert F)) \<or>
      isl (te_ReadFile E (tf_key F))"
  shows "w' = w \<and> out = [] \<and> err \<noteq> None"
  using assms by (auto simp: touch_run_def Let_def split: if_splits sum.splits)

text \<open>
  When the example's client renews: never for a negative flag, and the default window before the
  end for 0, where the line the example prints names the end itself.
\<close>

lemma NewWithMTLS_renewer:
  "NewWithMTLS K cs lookup clk cfg m ps = Some (ps', Inr (sc, provider, renewer)) \<Longrightarrow> renewer = newAutoRenewer m"
  by (auto simp: NewWithMTLS_def Let_def split: prod.splits sum.splits)

lemma example_renewer:
  assumes "example_main F E K cs lookup clk ps = Some (Inr (sc, provider, renewer))"
  shows "map_option ar_before renewer =
    (if ef_renewBefore F < 0 then None else if ef_renewBefore F = 0 then Some defaultRenewBefore else Some (ef_renewBefore F))"
proof -
  have "\<exists>cfg m ps'. NewWithMTLS K cs lookup clk cfg m ps = Some (ps', Inr (sc, provider, renewer)) \<and>
      has_OnRenewed m \<and> RenewBefore m = ef_renewBefore F"
    using assms by (auto simp: example_main_def split: if_splits sum.splits) force+
  then obtain cfg m ps' where n: "NewWithMTLS K cs lookup clk cfg m ps = Some (ps', Inr (sc, provider, renewer))"
    and m: "has_OnRenewed m" "RenewBefore m = ef_renewBefore F" by blast
  show ?thesis using NewWithMTLS_renewer [OF n] m by (simp add: newAutoRenewer_def)
qed

text \<open>
  The example's address flag is described as a comma-separated list, but its server name is taken
  with \<open>SplitHostPort\<close>: with two addresses the example never builds a client.
\<close>

lemma example_refuses_two_addresses:
  assumes "ef_addr F = ''a:1,b:2''"
  shows "\<exists>err. example_main F E K cs lookup clk ps = Some (Inl err)"
proof -
  have "isl (SplitHostPort ''a:1,b:2'')" by code_simp
  with assms show ?thesis
    by (auto simp: example_main_def isl_def split: sum.split)
qed

text \<open>The issuer of the OCSP answers: none, or the certificate in the file named.\<close>

definition issuer_loaded :: "tc_flags \<Rightarrow> tool_env \<Rightarrow> auth_lib \<Rightarrow> x509_cert option \<Rightarrow> bool" where
  "issuer_loaded F E L issuer \<longleftrightarrow>
     (if cf_clientIssuer F = '''' then issuer = None
      else \<exists>cert. readCertificate E (al_pki L) (cf_clientIssuer F) = Inr cert \<and> issuer = Some cert)"

lemma loadTLSConfig_loaded:
  assumes "loadTLSConfig F E L = Inr cfg"
  shows "\<exists>ca issuer. te_ReadFile E (cf_clientCA F) = Inr ca \<and> te_certs E ca \<noteq> [] \<and> issuer_loaded F E L issuer \<and>
    cfg = NewTLSConfig L (Some (ServerTLS NoClientCert 0 None None))
      \<lparr>sm_Roots = te_certs E ca, sm_Intermediates = [], sm_CurrentTime = None, sm_Issuer = issuer,
       sm_StatusClient = None, sm_RequireOCSP = cf_requireOCSP F\<rparr>"
  using assms
  by (cases "readCertificate E (al_pki L) (cf_clientIssuer F)")
    (auto simp: loadTLSConfig_def issuer_loaded_def split: if_splits option.splits sum.splits)

section \<open>Properties\<close>

text \<open>
  C35. The test cloud process names partners only by their certificates: with the configuration its
  flags load, any full handshake that succeeds has authenticated the client's certificate against the
  certificates of the client CA file, at the time of the handshake, with a good OCSP status where
  that is asked for, checked with the issuer of the issuer flag if one is named and with none
  otherwise; and the connection then has exactly the identity that certificate names. A resumed
  handshake succeeds without being authenticated again, and names nobody: its connection stays as
  anonymous as it was accepted.
\<close>

theorem test_cloud_serves_partners_only:
  assumes "loadTLSConfig F E L = Inr cfg" "handshake cfg lib_ok resumed clk conn certs s = (s', True)"
  shows "\<exists>ca issuer. te_ReadFile E (cf_clientCA F) = Inr ca \<and> te_certs E ca \<noteq> [] \<and>
    (if cf_clientIssuer F = '''' then issuer = None
     else \<exists>cert. readCertificate E (al_pki L) (cf_clientIssuer F) = Inr cert \<and> issuer = Some cert) \<and>
    (if resumed then s' = s
     else \<exists>uid. authenticateClientCertificate L clk certs
         \<lparr>sm_Roots = te_certs E ca, sm_Intermediates = [], sm_CurrentTime = None, sm_Issuer = issuer,
          sm_StatusClient = None, sm_RequireOCSP = cf_requireOCSP F\<rparr> = Inr uid \<and>
       GetUUID s' conn = (uid, uid \<noteq> uuid_Nil))"
proof -
  obtain ca issuer where ca: "te_ReadFile E (cf_clientCA F) = Inr ca" "te_certs E ca \<noteq> []" "issuer_loaded F E L issuer"
    and cfg: "cfg = NewTLSConfig L (Some (ServerTLS NoClientCert 0 None None))
      \<lparr>sm_Roots = te_certs E ca, sm_Intermediates = [], sm_CurrentTime = None, sm_Issuer = issuer,
       sm_StatusClient = None, sm_RequireOCSP = cf_requireOCSP F\<rparr>"
    using loadTLSConfig_loaded [OF assms(1)] by blast
  let ?b = "ServerTLS NoClientCert 0 None None"
  have run: "child_run L \<lparr>sm_Roots = te_certs E ca, sm_Intermediates = [], sm_CurrentTime = None, sm_Issuer = issuer,
       sm_StatusClient = None, sm_RequireOCSP = cf_requireOCSP F\<rparr> lib_ok resumed clk conn certs s
      (required_auth ?b) (required_version ?b) None = (s', True)"
    using assms(2) by (simp add: cfg NewTLSConfig_handshake base_tls_def Let_def)
  have "if resumed then s' = s else \<exists>uid. authenticateClientCertificate L clk certs
         \<lparr>sm_Roots = te_certs E ca, sm_Intermediates = [], sm_CurrentTime = None, sm_Issuer = issuer,
          sm_StatusClient = None, sm_RequireOCSP = cf_requireOCSP F\<rparr> = Inr uid \<and>
       GetUUID s' conn = (uid, uid \<noteq> uuid_Nil)"
    using run child_run_ok [OF run required_auth_asks] by (cases resumed) (auto dest: child_run_resumed)
  with ca show ?thesis unfolding issuer_loaded_def by blast
qed

definition sample_tool_env :: tool_env where
  "sample_tool_env = \<lparr>te_ReadFile = (\<lambda>_. Inr [1]), te_Decode = (\<lambda>b. Some (''CERTIFICATE'', b)),
     te_certs = (\<lambda>_. [\<lparr>NotBefore = 0, NotAfter = 9, SerialNumber = 1, Raw = [1]\<rparr>]),
     te_LoadX509KeyPair = (\<lambda>_ _. None), te_CommonName = (\<lambda>_. ''cn''), te_Issuer = (\<lambda>_. ''ca''),
     te_GetUUID = (\<lambda>_. ''''), te_RFC3339 = (\<lambda>_. ''now'')\<rparr>"

definition sample_flags :: tc_flags where
  "sample_flags = \<lparr>cf_listenAddr = '''', cf_serverID = 1024, cf_tlsCert = ''c'', cf_tlsKey = ''k'', cf_clientCA = ''ca'',
     cf_clientIssuer = '''', cf_requireOCSP = True\<rparr>"

lemma sample_authenticates:
  "authenticateClientCertificate sample_lib 5 [[1], [9]]
     \<lparr>sm_Roots = r, sm_Intermediates = [], sm_CurrentTime = None, sm_Issuer = None, sm_StatusClient = None,
      sm_RequireOCSP = True\<rparr> = Inr 7"
  by (simp add: authenticateClientCertificate_def check_time_def sample_lib_def sample_pki_def sample_uuid_simps Let_def)

theorem test_cloud_serves_partners_only_witness:
  "\<exists>cfg s' uid. loadTLSConfig sample_flags sample_tool_env sample_lib = Inr cfg \<and>
     handshake cfg (\<lambda>_ _. True) False 5 0 [[1], [9]] sample_conns = (s', True) \<and> GetUUID s' 0 = (uid, uid \<noteq> uuid_Nil) \<and>
     authenticateClientCertificate sample_lib 5 [[1], [9]]
       \<lparr>sm_Roots = te_certs sample_tool_env [1], sm_Intermediates = [], sm_CurrentTime = None, sm_Issuer = None,
        sm_StatusClient = None, sm_RequireOCSP = True\<rparr> = Inr uid"
proof -
  obtain cfg where cfg: "loadTLSConfig sample_flags sample_tool_env sample_lib = Inr cfg"
    by (simp add: loadTLSConfig_def sample_flags_def sample_tool_env_def)  obtain s' ok where h: "handshake cfg (\<lambda>_ _. True) False 5 0 [[1], [9]] sample_conns = (s', ok)" by fastforce
  have ok
    using cfg h sample_authenticates
    by (auto simp: loadTLSConfig_def sample_flags_def sample_tool_env_def NewTLSConfig_handshake base_tls_def child_run_def
        verify_identity_def SetUUID_def GetConn_def sample_conns_def required_auth_def NoClientCert_def
        RequireAnyClientCert_def Let_def split: prod.splits)
  with h have h': "handshake cfg (\<lambda>_ _. True) False 5 0 [[1], [9]] sample_conns = (s', True)" by simp
  from test_cloud_serves_partners_only [OF cfg h'] cfg h' show ?thesis
    by (auto simp: sample_flags_def sample_tool_env_def)
qed

end
