(* ===== verification/System.thy ===== *)
theory System
  imports TestPKI AutoRenew
begin

text \<open>
  A client, its certificate and the cloud, as one system. The client dials the connections of its
  slots (the Dial hook of \<^verbatim>\<open>newClient\<close>), each with a handshake in which it shows the certificate its
  provider serves at that moment and the server stores the identity that names; requests are
  handled on open connections; connections are lost; the certificate is replaced, by the
  application (\<^verbatim>\<open>CertProvider.Update\<close>) or by the automatic renewal, whose check asks the CA,
  some time later has the application save what it answered, and some time after that uses it; and
  \<^verbatim>\<open>Reconnect\<close>, called by the application or by a renewal that has succeeded, starts a goroutine
  per slot, each of which runs the two atomic sections of \<^verbatim>\<open>client.reconnect\<close>: the connection is
  loaded, and some time later it is closed.

  A run is a list of these events in any order. What is shown: nobody is ever taken for someone a
  certificate in use did not name, a completed reconnect after an update is enough for a
  slot's requests to come as the partner of the new certificate, and a renewal brings one about by itself.
\<close>

section \<open>State\<close>

text \<open>
  The certificate every connection showed and the time of its handshake are kept in \<open>sy_opened\<close> and
  \<open>sy_times\<close>, by the connection's number: they are what the events did, not something the code
  stores. \<open>sy_started\<close> holds the slots whose reconnect has been started and has not loaded its
  connection yet, \<open>sy_reconnecting\<close> those that have. \<open>sy_asked\<close> is the one renewal under way: its
  turn, the certificate it saw in use and the pair the CA answered with; once the application has
  saved the pair it is in \<open>sy_kept\<close>, with the new serial number, and \<open>sy_saved\<close> is all the application was given to keep.
\<close>

record 'l system =
  sy_client :: "tls_config sharded_client"
  sy_provider :: cert_provider
  sy_pools :: pools
  sy_server :: "'l tc_server"
  sy_conns :: auth_store
  sy_live :: "nat list"
  sy_opened :: "tls_certificate list"
  sy_times :: "int list"
  sy_started :: "slot list"
  sy_reconnecting :: "(slot \<times> nat) list"
  sy_asked :: "(turn \<times> x509_cert \<times> bytes \<times> bytes) option"
  sy_kept :: "(turn \<times> int \<times> bytes \<times> bytes) option"
  sy_saved :: "(bytes \<times> bytes) list"

record sys_env =
  se_auth :: auth_lib
  se_tc :: tc_lib
  se_lib_ok :: "server_tls \<Rightarrow> bytes list \<Rightarrow> bool"
  se_pem :: "bytes \<Rightarrow> bytes option"

definition sys_start :: "tls_config sharded_client \<Rightarrow> cert_provider \<Rightarrow> pools \<Rightarrow> 'l tc_server \<Rightarrow> 'l system" where
  "sys_start sc provider ps srv =
     \<lparr>sy_client = sc, sy_provider = provider, sy_pools = ps, sy_server = srv, sy_conns = (\<lambda>_. None),
      sy_live = [], sy_opened = [], sy_times = [], sy_started = [], sy_reconnecting = [], sy_asked = None,
      sy_kept = None, sy_saved = []\<rparr>"

definition at_slot :: "slot \<Rightarrow> (rpc_client \<Rightarrow> rpc_client) \<Rightarrow> 'tls sharded_client \<Rightarrow> 'tls sharded_client" where
  "at_slot s f sc =
     (let g = sh_clients sc ! fst s in
      sc\<lparr>sh_clients := (sh_clients sc)[fst s := g\<lparr>cg_clients := (cg_clients g)[snd s := f (cg_clients g ! snd s)]\<rparr>]\<rparr>)"

section \<open>Events\<close>

datatype sys_event =
    Dial slot int
  | Serve nat "RPCRegister \<times> bytes"
  | Lost nat
  | Renew int bytes bytes
  | Ask auto_renewer turn
  | Keep
  | Use
  | Reconnect
  | Load slot
  | Close slot nat

text \<open>
  A dial that reaches the server: the listener accepts, the hook records the connection, and the
  handshake decides whether it is of use. The client's TLS configuration has no session cache, so
  its handshakes are full ones. fastrpc dials when the slot has no connection it can use.
\<close>

definition sys_dial :: "sys_env \<Rightarrow> slot \<Rightarrow> int \<Rightarrow> 'l system \<Rightarrow> 'l system option" where
  "sys_dial E s clk y =
     (let conn = length (sy_opened y) in
      case (rpc_TLSConfig (ts_rpc (sy_server y)), GetClientCertificate (sy_provider y), Accept (Some conn) None (sy_conns y)) of
        (Some tls, Some cert, Some (conns, Inr _)) \<Rightarrow>
          (let (conns', ok) = handshake tls (se_lib_ok E) False clk conn (Certificate cert) conns in
           Some (y\<lparr>sy_client := at_slot s (onConnDialed conn) (sy_client y), sy_conns := conns',
                   sy_live := (if ok then conn # sy_live y else sy_live y), sy_opened := sy_opened y @ [cert],
                   sy_times := sy_times y @ [clk]\<rparr>))
      | _ \<Rightarrow> None)"

text \<open>
  The automatic renewal, in three events, with anything in between: \<open>Ask\<close> is \<^verbatim>\<open>check\<close> up to the answer of
  the CA, \<open>Keep\<close> goes on to what the application saves, and \<open>Use\<close> is the rest of it. What the last two
  work on is the state of \<open>renew_keep\<close> and \<open>renew_use\<close>, whose counters the code only reports, but for
  the reconnects: each starts a goroutine for every slot, the \<open>Load\<close> and \<open>Close\<close> events that follow.
\<close>

definition renewal_state :: "'l system \<Rightarrow> renew_state" where
  "renewal_state y = \<lparr>rs_provider = sy_provider y, rs_pools = sy_pools y, rs_saved = sy_saved y,
     rs_reconnects = 0, rs_renewed = 0, rs_same = 0, rs_failed = 0, rs_errors = []\<rparr>"

definition renewal_stored :: "renew_state \<Rightarrow> 'l system \<Rightarrow> 'l system" where
  "renewal_stored s y = y\<lparr>sy_provider := rs_provider s, sy_pools := rs_pools s, sy_saved := rs_saved s,
     sy_started := sy_started y @ concat (replicate (rs_reconnects s) (slots (sy_client y)))\<rparr>"

definition sys_ask :: "sys_env \<Rightarrow> auto_renewer \<Rightarrow> turn \<Rightarrow> 'l system \<Rightarrow> 'l system option" where
  "sys_ask E r t y =
     (case Provider_Leaf (sy_provider y) of
        None \<Rightarrow> None
      | Some leaf \<Rightarrow>
         (if ar_before r < time_sub (NotAfter leaf) (t_now t) then Some y
          else case Fetch (al_pki (se_auth E)) (t_json t) (t_ca t) (ar_caURL r) of
            None \<Rightarrow> None
          | Some (Inl _) \<Rightarrow> Some y
          | Some (Inr (certPEM, keyPEM)) \<Rightarrow> Some (y\<lparr>sy_asked := Some (t, leaf, certPEM, keyPEM)\<rparr>)))"

definition sys_keep :: "sys_env \<Rightarrow> turn \<Rightarrow> x509_cert \<Rightarrow> bytes \<Rightarrow> bytes \<Rightarrow> 'l system \<Rightarrow> 'l system" where
  "sys_keep E t leaf certPEM keyPEM y =
     (case renew_keep (al_pki (se_auth E)) (se_pem E) t leaf certPEM keyPEM (renewal_state y) of
        (Inl _, s) \<Rightarrow> renewal_stored s (y\<lparr>sy_asked := None\<rparr>)
      | (Inr serial, s) \<Rightarrow> renewal_stored s (y\<lparr>sy_asked := None, sy_kept := Some (t, serial, certPEM, keyPEM)\<rparr>))"

definition sys_use :: "sys_env \<Rightarrow> turn \<Rightarrow> int \<Rightarrow> bytes \<Rightarrow> bytes \<Rightarrow> 'l system \<Rightarrow> bool result \<times> 'l system" where
  "sys_use E t serial certPEM keyPEM y =
     (case renew_use (al_pki (se_auth E)) t serial certPEM keyPEM (renewal_state y) of
        (res, s) \<Rightarrow> (res, renewal_stored s (y\<lparr>sy_kept := None\<rparr>)))"

definition unserve :: "nat \<Rightarrow> rpc_client \<Rightarrow> rpc_client" where
  "unserve conn c = (if cl_conn c = Some conn then c\<lparr>cl_conn := None\<rparr> else c)"

fun sys_step :: "sys_env \<Rightarrow> sys_event \<Rightarrow> 'l system \<Rightarrow> 'l system option" where
  "sys_step E (Dial s clk) y =
     (if s \<in> set (slots (sy_client y)) \<and>
         (case cl_conn (client_at (sy_client y) s) of None \<Rightarrow> True | Some n \<Rightarrow> n \<notin> set (sy_live y))
      then sys_dial E s clk y else None)"
| "sys_step E (Serve n m) y =
     (if n \<in> set (sy_live y)
      then Some (y\<lparr>sy_server := fst (handle_request (se_tc E) (sy_conns y) (arrived n m) (sy_server y))\<rparr>)
      else None)"
| "sys_step E (Lost n) y = Some (y\<lparr>sy_live := removeAll n (sy_live y)\<rparr>)"
| "sys_step E (Renew clk certPEM keyPEM) y =
     (case Update (al_pki (se_auth E)) clk certPEM keyPEM (sy_provider y, sy_pools y) of
        ((p, ps), _) \<Rightarrow> Some (y\<lparr>sy_provider := p, sy_pools := ps\<rparr>))"
| "sys_step E (Ask r t) y = (if sy_asked y = None \<and> sy_kept y = None then sys_ask E r t y else None)"
| "sys_step E Keep y =
     (case sy_asked y of
        None \<Rightarrow> None
      | Some (t, leaf, certPEM, keyPEM) \<Rightarrow> Some (sys_keep E t leaf certPEM keyPEM y))"
| "sys_step E Use y =
     (case sy_kept y of
        None \<Rightarrow> None
      | Some (t, serial, certPEM, keyPEM) \<Rightarrow> Some (snd (sys_use E t serial certPEM keyPEM y)))"
| "sys_step E Reconnect y = Some (y\<lparr>sy_started := sy_started y @ slots (sy_client y)\<rparr>)"
| "sys_step E (Load s) y =
     (if s \<in> set (sy_started y)
      then (let y1 = y\<lparr>sy_started := remove1 s (sy_started y)\<rparr> in
            case cl_conn (client_at (sy_client y) s) of
              None \<Rightarrow> Some y1
            | Some n \<Rightarrow> Some (y1\<lparr>sy_reconnecting := (s, n) # sy_reconnecting y\<rparr>))
      else None)"
| "sys_step E (Close s n) y =
     (if (s, n) \<in> set (sy_reconnecting y)
      then Some (y\<lparr>sy_live := removeAll n (sy_live y), sy_client := at_slot s (unserve n) (sy_client y),
                   sy_reconnecting := remove1 (s, n) (sy_reconnecting y)\<rparr>)
      else None)"

fun sys_run :: "sys_env \<Rightarrow> sys_event list \<Rightarrow> 'l system \<Rightarrow> 'l system option" where
  "sys_run E [] y = Some y"
| "sys_run E (e # es) y = (case sys_step E e y of None \<Rightarrow> None | Some y' \<Rightarrow> sys_run E es y')"

fun renews :: "sys_event \<Rightarrow> bool" where
  "renews (Renew clk certPEM keyPEM) = True"
| "renews Use = True"
| "renews _ = False"

text \<open>The two sections are \<^verbatim>\<open>client.reconnect\<close>: whatever happens in between is its interim.\<close>

lemma reconnect_load_close:
  assumes "cl_conn c = Some n" "reconnect force wait pending clock interim c = Some (closed, c')"
  shows "closed = Some n \<and> c' = unserve n (interim c)"
  using assms by (auto simp: reconnect_def unserve_def Let_def split: option.splits if_splits)

text \<open>
  The three events of a renewal, one right after the other, are \<^verbatim>\<open>check\<close>; it ends after the first when there is
  nothing to adopt, and after the second when there is nothing to use.
\<close>

lemma renewal_state_stored:
  "rs_reconnects s = 0 \<Longrightarrow> rs_renewed s = 0 \<Longrightarrow> rs_same s = 0 \<Longrightarrow> rs_failed s = 0 \<Longrightarrow> rs_errors s = [] \<Longrightarrow>
     renewal_state (renewal_stored s y) = s"
  by (simp add: renewal_state_def renewal_stored_def)

lemma renew_keep_counts:
  "renew_keep K pem t leaf certPEM keyPEM (renewal_state y) = (Inr serial, s) \<Longrightarrow>
     rs_reconnects s = 0 \<and> rs_renewed s = 0 \<and> rs_same s = 0 \<and> rs_failed s = 0 \<and> rs_errors s = []"
  by (auto simp: renew_keep_def renewal_state_def Let_def split: sum.splits option.splits if_splits prod.splits)

lemma renew_check_ask_keep_use:
  assumes "sy_asked y = None" "sy_kept y = None"
    and "renew_check (al_pki (se_auth E)) (se_pem E) r t (renewal_state y) = Some (res, s')"
  shows "sys_run E [Ask r t] y = Some y \<and> s' = renewal_state y \<or>
    sys_run E [Ask r t, Keep] y = Some (renewal_stored s' y) \<or>
    sys_run E [Ask r t, Keep, Use] y = Some (renewal_stored s' y)"
proof -
  have p: "rs_provider (renewal_state y) = sy_provider y" by (simp add: renewal_state_def)
  obtain leaf where leaf: "Provider_Leaf (sy_provider y) = Some leaf"
    using assms(3) by (auto simp: renew_check_def p split: option.splits)
  show ?thesis
  proof (cases "\<exists>certPEM keyPEM. \<not> ar_before r < time_sub (NotAfter leaf) (t_now t) \<and>
      Fetch (al_pki (se_auth E)) (t_json t) (t_ca t) (ar_caURL r) = Some (Inr (certPEM, keyPEM))")
    case False
    with assms leaf show ?thesis
      by (auto simp: renew_check_def p sys_ask_def split: option.splits sum.splits if_splits prod.splits)
  next
    case True
    then obtain certPEM keyPEM where f: "\<not> ar_before r < time_sub (NotAfter leaf) (t_now t)"
      "Fetch (al_pki (se_auth E)) (t_json t) (t_ca t) (ar_caURL r) = Some (Inr (certPEM, keyPEM))" by blast
    obtain k s where k: "renew_keep (al_pki (se_auth E)) (se_pem E) t leaf certPEM keyPEM (renewal_state y) = (k, s)" by fastforce
    let ?y1 = "y\<lparr>sy_asked := Some (t, leaf, certPEM, keyPEM)\<rparr>"
    have st: "renewal_state ?y1 = renewal_state y" by (simp add: renewal_state_def)
    have ask: "sys_step E (Ask r t) y = Some ?y1" using assms(1,2) leaf f by (simp add: sys_ask_def)
    show ?thesis
    proof (cases k)
      case (Inl res')
      with assms k f leaf have "s' = s" by (auto simp: renew_check_def p renew_with_def)
      moreover have "sys_step E Keep ?y1 = Some (renewal_stored s y)"
        using Inl k st assms(1) by (simp add: sys_keep_def renewal_stored_def)
      ultimately show ?thesis using ask by simp
    next
      case (Inr serial)
      let ?y2 = "renewal_stored s (y\<lparr>sy_kept := Some (t, serial, certPEM, keyPEM)\<rparr>)"
      have keep: "sys_step E Keep ?y1 = Some ?y2" using Inr k st assms(1) by (simp add: sys_keep_def renewal_stored_def)
      have s0: "rs_reconnects s = 0" "renewal_state ?y2 = s"
        using renew_keep_counts [of _ _ t leaf certPEM keyPEM y serial s] k Inr renewal_state_stored [of s] by blast+
      obtain res' s2 where u: "renew_use (al_pki (se_auth E)) t serial certPEM keyPEM s = (res', s2)" by fastforce
      with assms k f leaf Inr have "s' = s2" by (auto simp: renew_check_def p renew_with_def)
      moreover have "snd (sys_use E t serial certPEM keyPEM ?y2) = renewal_stored s2 y"
        by (simp only: sys_use_def s0(2) u prod.case snd_conv) (simp add: renewal_stored_def s0(1) assms(2))
      moreover have "sys_step E Use ?y2 = Some (snd (sys_use E t serial certPEM keyPEM ?y2))" by (simp add: renewal_stored_def)
      ultimately show ?thesis using ask keep by simp
    qed
  qed
qed

section \<open>Lemmas: the client's slots\<close>

lemma slots_at_slot [simp]: "slots (at_slot s f sc) = slots sc"
proof -
  have "length (sh_clients (at_slot s f sc)) = length (sh_clients sc)" by (simp add: at_slot_def Let_def)
  moreover have "length (cg_clients (sh_clients (at_slot s f sc) ! g)) = length (cg_clients (sh_clients sc ! g))"
    if "g < length (sh_clients sc)" for g
    using that by (cases "g = fst s") (simp_all add: at_slot_def Let_def)
  ultimately show ?thesis by (auto simp: slots_def intro!: arg_cong [of _ _ concat])
qed

lemma client_at_slot:
  "s' \<in> set (slots sc) \<Longrightarrow> client_at (at_slot s f sc) s' = (if s' = s then f (client_at sc s) else client_at sc s')"
  by (cases s; cases s'; cases "fst s = fst s'") (auto simp: at_slot_def client_at_def slots_iff Let_def nth_list_update)

lemma client_ok_at_slot:
  assumes "client_ok sc" "\<And>c. metricGroups (f c) = metricGroups c"
  shows "client_ok (at_slot s f sc)"
proof -
  let ?g = "sh_clients sc ! fst s"
  have g: "group_ok (?g\<lparr>cg_clients := (cg_clients ?g)[snd s := f (cg_clients ?g ! snd s)]\<rparr>)" if "fst s < length (sh_clients sc)"
  proof -
    have ok: "group_ok ?g" using that assms(1) by (auto simp: client_ok_def)
    show ?thesis
    proof (cases "snd s < length (cg_clients ?g)")
      case True
      then have "cg_clients ?g ! snd s \<in> set (cg_clients ?g)" by simp
      with ok obtain ad where "buildShardMetrics ad = Some (metricGroups (cg_clients ?g ! snd s))"
        by (auto simp: group_ok_def)
      with ok assms(2) show ?thesis by (auto simp: group_ok_def dest!: set_update_subset_insert [THEN subsetD])
    qed (use ok in \<open>simp add: group_ok_def list_update_beyond not_less\<close>)
  qed
  show ?thesis
  proof (cases "fst s < length (sh_clients sc)")
    case True
    with g assms(1) show ?thesis
      by (auto simp: at_slot_def client_ok_def Let_def dest!: set_update_subset_insert [THEN subsetD])
  qed (use assms(1) in \<open>simp add: at_slot_def list_update_beyond not_less client_ok_def Let_def\<close>)
qed

section \<open>Lemmas: the server\<close>

lemma handle_request_keeps:
  assumes "handle_request L conns ctx s = (s', ctx')"
  shows "ts_rpc s' = ts_rpc s \<and>
    ts_lastCaller s' = (case GetUUID conns (ctx_conn ctx) of (u, b) \<Rightarrow> if b then Some u else ts_lastCaller s)"
  using assms
proof (cases rule: handle_request_cases)
  case (target u)
  from target(3) show ?thesis
    by (cases rule: handleTarget_cases)
      (auto simp: target(1) nextTrackingID_def dropConn_def only_refused_def Let_def)
next
  case (report u)
  from report(3) show ?thesis
    by (cases rule: handleReport_cases)
      (auto simp: report(1) offer_report_def dropConn_def only_refused_def)
next
  case (touch u)
  from touch(3) show ?thesis by (cases rule: handleTouch_cases) (auto simp: touch(1))
qed simp_all

section \<open>Lemmas: one event\<close>

text \<open>A server whose base configuration leaves the choice of client configurations to \<open>NewTLSConfig\<close>.\<close>

definition plain_base :: "server_tls option \<Rightarrow> bool" where
  "plain_base base \<longleftrightarrow> GetConfigForClient (base_tls base) = None \<and> pure_verify (VerifyPeerCertificate (base_tls base))"

definition serves_with :: "sys_env \<Rightarrow> server_tls option \<Rightarrow> server_mtls \<Rightarrow> 'l system \<Rightarrow> bool" where
  "serves_with E base auth y \<longleftrightarrow>
     rpc_TLSConfig (ts_rpc (sy_server y)) = Some (NewTLSConfig (se_auth E) base auth)"

lemma dial_effect:
  assumes "plain_base base" "serves_with E base auth y" "sys_dial E s clk y = Some y'" "n = length (sy_opened y)"
  shows "\<exists>cert. GetClientCertificate (sy_provider y) = Some cert \<and> sy_opened y' = sy_opened y @ [cert] \<and>
    sy_times y' = sy_times y @ [clk] \<and>
    sy_client y' = at_slot s (onConnDialed n) (sy_client y) \<and> sy_provider y' = sy_provider y \<and>
    sy_pools y' = sy_pools y \<and> sy_server y' = sy_server y \<and> (\<forall>m. m \<noteq> n \<longrightarrow> sy_conns y' m = sy_conns y m) \<and>
    (sy_live y' = sy_live y \<or> sy_live y' = n # sy_live y \<and>
       (\<exists>uid. authenticateClientCertificate (se_auth E) clk (Certificate cert) auth = Inr uid \<and>
         GetUUID (sy_conns y') n = (uid, uid \<noteq> uuid_Nil)))"
proof -
  obtain cert where cert: "GetClientCertificate (sy_provider y) = Some cert"
    using assms(2,3) by (auto simp: sys_dial_def serves_with_def Let_def split: option.splits)
  let ?conns = "(sy_conns y)(n \<mapsto> \<lparr>ac_requests = 0, ac_authID = uuid_Nil\<rparr>)"
  obtain conns' ok where h: "handshake (NewTLSConfig (se_auth E) base auth) (se_lib_ok E) False clk n (Certificate cert) ?conns =
    (conns', ok)" by fastforce
  have y': "y' = y\<lparr>sy_client := at_slot s (onConnDialed n) (sy_client y), sy_conns := conns',
      sy_live := (if ok then n # sy_live y else sy_live y), sy_opened := sy_opened y @ [cert], sy_times := sy_times y @ [clk]\<rparr>"
    using assms(2,3) cert h by (simp add: sys_dial_def serves_with_def Accept_def assms(4) [symmetric] Let_def)
  let ?b = "base_tls base"
  have "child_run (se_auth E) auth (se_lib_ok E) False clk n (Certificate cert) ?conns (required_auth ?b) (required_version ?b)
      (VerifyPeerCertificate ?b) = (conns', ok)"
    using h assms(1) by (simp add: NewTLSConfig_handshake plain_base_def Let_def)
  from child_run_effect [OF _ this] assms(1) required_auth_asks [of ?b]
  have "conns' = ?conns \<and> \<not> ok \<or> ok \<and> (\<exists>c uid. ?conns n = Some c \<and>
      authenticateClientCertificate (se_auth E) clk (Certificate cert) auth = Inr uid \<and>
      conns' = ?conns(n \<mapsto> c\<lparr>ac_authID := uid\<rparr>))"
    by (auto simp: plain_base_def)
  then show ?thesis using cert by (auto simp: y')
qed

lemma renew_keep_provider:
  "renew_keep K pem t leaf certPEM keyPEM (renewal_state y) = (res, s) \<Longrightarrow> rs_provider s = sy_provider y \<and> rs_reconnects s = 0"
  by (auto simp: renew_keep_def renewal_state_def Let_def split: sum.splits option.splits if_splits prod.splits)

text \<open>
  What any event leaves: the slots, the client's shape, the provider unless it is an update; and a
  slot's connection only ever gives way to none, or to the one just opened.
\<close>

lemma step_frame:
  assumes "sys_step E e y = Some y'"
  shows "slots (sy_client y') = slots (sy_client y) \<and> (client_ok (sy_client y) \<longrightarrow> client_ok (sy_client y')) \<and>
    (\<not> renews e \<longrightarrow> sy_provider y' = sy_provider y) \<and>
    (sy_opened y' = sy_opened y \<and>
       (\<forall>s \<in> set (slots (sy_client y)). cl_conn (client_at (sy_client y') s) \<in> {cl_conn (client_at (sy_client y) s), None}) \<or>
     (\<exists>cert. GetClientCertificate (sy_provider y) = Some cert \<and> sy_opened y' = sy_opened y @ [cert] \<and>
       (\<forall>s \<in> set (slots (sy_client y)). cl_conn (client_at (sy_client y') s) \<in>
          {cl_conn (client_at (sy_client y) s), Some (length (sy_opened y))})))"
proof (cases e)
  case (Dial d clk)
  with assms show ?thesis
    by (auto simp: sys_dial_def client_at_slot onConnDialed_def Let_def intro!: client_ok_at_slot
        split: if_splits option.splits sum.splits prod.splits)
next
  case (Ask r t)
  with assms show ?thesis by (auto simp: sys_ask_def split: if_splits option.splits sum.splits prod.splits)
next
  case Keep
  with assms show ?thesis
    by (auto simp: sys_keep_def renewal_stored_def split: option.splits prod.splits sum.splits dest: renew_keep_provider)
next
  case Use
  with assms show ?thesis by (auto simp: sys_use_def renewal_stored_def split: option.splits prod.splits)
next
  case (Close d n)
  with assms show ?thesis by (auto simp: client_at_slot unserve_def intro!: client_ok_at_slot split: if_splits)
qed (use assms in \<open>auto simp: Let_def split: if_splits option.splits prod.splits\<close>)

lemma run_frame:
  "sys_run E es y = Some y' \<Longrightarrow>
     slots (sy_client y') = slots (sy_client y) \<and> (client_ok (sy_client y) \<longrightarrow> client_ok (sy_client y'))"
proof (induction es arbitrary: y)
  case (Cons e es)
  then obtain y1 where y1: "sys_step E e y = Some y1" "sys_run E es y1 = Some y'" by (auto split: option.splits)
  from Cons.IH [OF y1(2)] step_frame [OF y1(1)] show ?case by simp
qed simp

section \<open>The invariant\<close>

text \<open>Whom a certificate names at the server at some time, and that the provider once accepted it.\<close>

abbreviation identity :: "sys_env \<Rightarrow> server_mtls \<Rightarrow> int \<Rightarrow> tls_certificate \<Rightarrow> uuid result" where
  "identity E auth clk cert \<equiv> authenticateClientCertificate (se_auth E) clk (Certificate cert) auth"

definition vetted :: "pki \<Rightarrow> cert_check \<Rightarrow> pools \<Rightarrow> tls_certificate \<Rightarrow> bool" where
  "vetted K check ps cert \<longleftrightarrow>
     (\<exists>clk certPEM keyPEM pools. take (length ps) pools = ps \<and> accepts K check clk pools certPEM keyPEM cert)"

lemma serves_vetted:
  "serves K check ps U p \<Longrightarrow> GetClientCertificate p = Some cert \<Longrightarrow> vetted K check ps cert"
  unfolding serves_def vetted_def GetClientCertificate_def by auto blast

definition provider_inv :: "sys_env \<Rightarrow> cert_check \<Rightarrow> pools \<Rightarrow> 'l system \<Rightarrow> bool" where
  "provider_inv E check ps y \<longleftrightarrow> cp_check (sy_provider y) = check \<and> check_ok check (sy_pools y) \<and>
     take (length ps) (sy_pools y) = ps \<and> serves (al_pki (se_auth E)) check ps UNIV (sy_provider y)"

text \<open>
  Every open connection was admitted: the certificate it showed names, at the time it was shown,
  exactly the identity the server has for it. And nobody else has called.
\<close>

definition admitted :: "sys_env \<Rightarrow> server_mtls \<Rightarrow> 'l system \<Rightarrow> nat \<Rightarrow> uuid \<Rightarrow> bool" where
  "admitted E auth y n uid \<longleftrightarrow> n < length (sy_opened y) \<and> identity E auth (sy_times y ! n) (sy_opened y ! n) = Inr uid"

definition sys_inv :: "sys_env \<Rightarrow> server_tls option \<Rightarrow> server_mtls \<Rightarrow> cert_check \<Rightarrow> pools \<Rightarrow> 'l system \<Rightarrow> bool" where
  "sys_inv E base auth check ps y \<longleftrightarrow> serves_with E base auth y \<and> provider_inv E check ps y \<and>
     length (sy_times y) = length (sy_opened y) \<and>
     (\<forall>n \<in> set (sy_live y). \<exists>uid. admitted E auth y n uid \<and> GetUUID (sy_conns y) n = (uid, uid \<noteq> uuid_Nil)) \<and>
     (\<forall>u. ts_lastCaller (sy_server y) = Some u \<longrightarrow> (\<exists>n. admitted E auth y n u)) \<and>
     (\<forall>cert \<in> set (sy_opened y). vetted (al_pki (se_auth E)) check ps cert)"





lemma GetUUID_cong: "s i = t i \<Longrightarrow> GetUUID s i = GetUUID t i"
  by (simp add: GetUUID_def GetConn_def)

text \<open>Loading a certificate only adds pools.\<close>

lemma provider_inv_pools:
  assumes "provider_inv E check ps y" "take (length (sy_pools y)) q = sy_pools y"
  shows "provider_inv E check ps (y\<lparr>sy_pools := q\<rparr>)"
proof -
  have le: "length ps \<le> length (sy_pools y)"
    using assms(1) by (metis provider_inv_def length_take min.cobounded1 min.commute)
  have "take (length ps) q = take (length ps) (take (length (sy_pools y)) q)" using le by (simp add: min_def)
  then show ?thesis using assms check_ok_mono [of check "sy_pools y" q] by (simp add: provider_inv_def)
qed

lemma provider_inv_update:
  assumes "provider_inv E check ps y"
    and "Update (al_pki (se_auth E)) clk certPEM keyPEM (sy_provider y, sy_pools y) = ((p, q), err)"
  shows "provider_inv E check ps (y\<lparr>sy_provider := p, sy_pools := q\<rparr>)"
  using Update_serves [OF _ _ _ assms(2), of check ps UNIV] assms(1) by (simp add: provider_inv_def)

lemma sys_inv_provider:
  assumes "sys_inv E base auth check ps y" "provider_inv E check ps (y\<lparr>sy_provider := p, sy_pools := q\<rparr>)"
    and "y' = y\<lparr>sy_provider := p, sy_pools := q, sy_asked := a, sy_kept := k, sy_saved := sv, sy_started := st\<rparr>"
  shows "sys_inv E base auth check ps y'"
  using assms by (simp add: sys_inv_def provider_inv_def serves_with_def admitted_def)

lemma sys_inv_dial:
  assumes "plain_base base" "sys_inv E base auth check ps y" "sys_dial E s clk y = Some y'"
  shows "sys_inv E base auth check ps y'"
proof -
  have w: "serves_with E base auth y" and len: "length (sy_times y) = length (sy_opened y)"
    using assms(2) by (simp_all add: sys_inv_def)
  from dial_effect [OF assms(1) w assms(3) refl] obtain cert where
    d: "GetClientCertificate (sy_provider y) = Some cert" "sy_opened y' = sy_opened y @ [cert]"
    "sy_times y' = sy_times y @ [clk]"
    "sy_provider y' = sy_provider y" "sy_pools y' = sy_pools y" "sy_server y' = sy_server y"
    "\<forall>m. m \<noteq> length (sy_opened y) \<longrightarrow> sy_conns y' m = sy_conns y m"
    and l: "sy_live y' = sy_live y \<or> sy_live y' = length (sy_opened y) # sy_live y \<and>
       (\<exists>uid. identity E auth clk cert = Inr uid \<and> GetUUID (sy_conns y') (length (sy_opened y)) = (uid, uid \<noteq> uuid_Nil))"
    by blast
  have keeps: "admitted E auth y n u \<Longrightarrow> admitted E auth y' n u" for n u
    using len by (auto simp: admitted_def d(2,3) nth_append)
  have new: "identity E auth clk cert = Inr u \<Longrightarrow> admitted E auth y' (length (sy_opened y)) u" for u
    using len by (auto simp: admitted_def d(2,3) nth_append)
  have old: "\<exists>uid. admitted E auth y' n uid \<and> GetUUID (sy_conns y') n = (uid, uid \<noteq> uuid_Nil)" if n: "n \<in> set (sy_live y)" for n
  proof -
    from n assms(2) obtain uid where "admitted E auth y n uid" "GetUUID (sy_conns y) n = (uid, uid \<noteq> uuid_Nil)"
      by (auto simp: sys_inv_def)
    with keeps d(7) GetUUID_cong [of "sy_conns y'" n "sy_conns y"] show ?thesis by (fastforce simp: admitted_def)
  qed
  have "\<forall>n \<in> set (sy_live y'). \<exists>uid. admitted E auth y' n uid \<and> GetUUID (sy_conns y') n = (uid, uid \<noteq> uuid_Nil)"
    using l old new by auto
  moreover have "vetted (al_pki (se_auth E)) check ps cert"
    using assms(2) d(1) by (auto simp: sys_inv_def provider_inv_def intro: serves_vetted)
  moreover have "\<forall>u. ts_lastCaller (sy_server y) = Some u \<longrightarrow> (\<exists>n. admitted E auth y' n u)"
    using assms(2) keeps unfolding sys_inv_def by blast
  ultimately show ?thesis using assms(2) d len by (auto simp: sys_inv_def serves_with_def provider_inv_def)
qed

lemma sys_inv_step:
  assumes "plain_base base" "sys_inv E base auth check ps y" "sys_step E e y = Some y'"
  shows "sys_inv E base auth check ps y'"
proof -
  have inv: "provider_inv E check ps y" using assms(2) by (simp add: sys_inv_def)
  then have chk: "check_ok (cp_check (rs_provider (renewal_state y))) (rs_pools (renewal_state y))"
    by (simp add: provider_inv_def renewal_state_def)
  show ?thesis
  proof (cases e)
    case (Dial s clk)
    with assms(3) have "sys_dial E s clk y = Some y'" by (auto split: if_splits)
    with assms(1,2) show ?thesis by (rule sys_inv_dial)
  next
    case (Serve n m)
    obtain srv ctx where h: "handle_request (se_tc E) (sy_conns y) (arrived n m) (sy_server y) = (srv, ctx)" by fastforce
    with Serve assms(3) have y': "n \<in> set (sy_live y)" "y' = y\<lparr>sy_server := srv\<rparr>" by (auto split: if_splits)
    then obtain uid where "admitted E auth y n uid" "GetUUID (sy_conns y) n = (uid, uid \<noteq> uuid_Nil)"
      using assms(2) by (auto simp: sys_inv_def)
    with assms(2) y'(2) handle_request_keeps [OF h] show ?thesis
      by (auto simp: sys_inv_def serves_with_def provider_inv_def admitted_def split: if_splits)
  next
    case (Renew clk certPEM keyPEM)
    obtain p q err where u: "Update (al_pki (se_auth E)) clk certPEM keyPEM (sy_provider y, sy_pools y) = ((p, q), err)"
      by (metis prod.collapse)
    have y': "y' = y\<lparr>sy_provider := p, sy_pools := q\<rparr>" using Renew assms(3) u by simp
    show ?thesis
      by (rule sys_inv_provider [OF assms(2) provider_inv_update [OF inv u], where a = "sy_asked y" and k = "sy_kept y" and
            sv = "sy_saved y" and st = "sy_started y"]) (simp add: y')
  next
    case Keep
    then obtain t leaf certPEM keyPEM where y': "y' = sys_keep E t leaf certPEM keyPEM y"
      using assms(3) by (auto split: option.splits)
    obtain res s where k: "renew_keep (al_pki (se_auth E)) (se_pem E) t leaf certPEM keyPEM (renewal_state y) = (res, s)"
      by fastforce
    from renew_keep_outcome [OF chk k] have "rs_provider s = sy_provider y" "take (length (sy_pools y)) (rs_pools s) = sy_pools y"
      by (simp_all add: renewal_state_def)
    with provider_inv_pools [OF inv] have "provider_inv E check ps (y\<lparr>sy_provider := rs_provider s, sy_pools := rs_pools s\<rparr>)"
      by (simp add: provider_inv_def)
    from sys_inv_provider [OF assms(2) this refl] show ?thesis
      using k by (cases res) (simp_all add: y' sys_keep_def renewal_stored_def sys_inv_def serves_with_def provider_inv_def admitted_def)
  next
    case Use
    then obtain t serial certPEM keyPEM where y': "y' = snd (sys_use E t serial certPEM keyPEM y)"
      using assms(3) by (auto split: option.splits)
    obtain res s where u: "renew_use (al_pki (se_auth E)) t serial certPEM keyPEM (renewal_state y) = (res, s)" by fastforce
    obtain p q err where up: "Update (al_pki (se_auth E)) (t_update_clock t) certPEM keyPEM (sy_provider y, sy_pools y) = ((p, q), err)"
      by (metis prod.collapse)
    have s: "rs_provider s = p" "rs_pools s = q"
      using u up by (auto simp: renew_use_def renewal_state_def split: option.splits)
    from sys_inv_provider [OF assms(2) provider_inv_update [OF inv up] refl] show ?thesis
      using u s by (simp add: y' sys_use_def renewal_stored_def sys_inv_def serves_with_def provider_inv_def admitted_def)
  next
    case (Ask r t)
    with assms(2,3) show ?thesis
      by (auto simp: sys_ask_def sys_inv_def serves_with_def provider_inv_def admitted_def
          split: if_splits option.splits sum.splits prod.splits)
  qed (use assms(2,3) in \<open>auto simp: sys_inv_def serves_with_def provider_inv_def admitted_def Let_def split: if_splits option.splits\<close>)
qed

lemma sys_inv_run:
  assumes "plain_base base"
  shows "sys_inv E base auth check ps y \<Longrightarrow> sys_run E es y = Some y' \<Longrightarrow> sys_inv E base auth check ps y'"
proof (induction es arbitrary: y)
  case (Cons e es)
  then obtain y1 where "sys_step E e y = Some y1" "sys_run E es y1 = Some y'" by (auto split: option.splits)
  with Cons.IH sys_inv_step [OF assms Cons.prems(1)] show ?case by blast
qed simp

text \<open>A client that shows a certificate the server accepts gets its connection.\<close>

lemma dial_admits:
  assumes "serves_with E (Some (ServerTLS NoClientCert v None None)) auth y" "GetClientCertificate (sy_provider y) = Some cert"
    and "identity E auth clk cert = Inr u" "Certificate cert \<noteq> []" "se_lib_ok E = (\<lambda>_ _. True)"
  shows "\<exists>conns. sys_dial E s clk y =
    Some (y\<lparr>sy_client := at_slot s (onConnDialed (length (sy_opened y))) (sy_client y), sy_conns := conns,
      sy_live := length (sy_opened y) # sy_live y, sy_opened := sy_opened y @ [cert], sy_times := sy_times y @ [clk]\<rparr>)"
  using authenticated_admitted [OF assms(3,4), where s = "(sy_conns y)(length (sy_opened y) \<mapsto> \<lparr>ac_requests = 0, ac_authID = uuid_Nil\<rparr>)"
      and conn = "length (sy_opened y)" and lib_ok = "se_lib_ok E" and v = v] assms
  by (simp add: sys_dial_def serves_with_def Accept_def Let_def) (rule exI, rule refl)

section \<open>Moving to a new certificate\<close>

text \<open>From a state on: every connection opened shows \<open>cert\<close>, which is the one still served.\<close>

definition since :: "nat \<Rightarrow> tls_certificate \<Rightarrow> 'l system \<Rightarrow> bool" where
  "since k cert y \<longleftrightarrow> GetClientCertificate (sy_provider y) = Some cert \<and> k \<le> length (sy_opened y) \<and>
     (\<forall>n. k \<le> n \<and> n < length (sy_opened y) \<longrightarrow> sy_opened y ! n = cert)"

text \<open>A slot that serves on no connection older than that, one tolerated.\<close>

definition moved :: "nat \<Rightarrow> nat option \<Rightarrow> slot \<Rightarrow> 'l system \<Rightarrow> bool" where
  "moved k old s y \<longleftrightarrow> s \<in> set (slots (sy_client y)) \<and>
     (\<forall>n. cl_conn (client_at (sy_client y) s) = Some n \<longrightarrow> (k \<le> n \<and> n < length (sy_opened y)) \<or> old = Some n)"

lemma since_step:
  assumes "since k cert y" "sys_step E e y = Some y'" "\<not> renews e"
  shows "since k cert y'"
  using assms(1,3) step_frame [OF assms(2)] by (auto simp: since_def nth_append less_Suc_eq)

lemma moved_step:
  assumes "moved k old s y" "sys_step E e y = Some y'" "k \<le> length (sy_opened y)"
  shows "moved k old s y'"
proof -
  have s: "s \<in> set (slots (sy_client y))" using assms(1) by (simp add: moved_def)
  from step_frame [OF assms(2)] bspec [OF _ s] assms(1,3) show ?thesis by (fastforce simp: moved_def)
qed

lemma since_run:
  "since k cert y \<Longrightarrow> sys_run E es y = Some y' \<Longrightarrow> \<forall>e \<in> set es. \<not> renews e \<Longrightarrow> since k cert y'"
proof (induction es arbitrary: y)
  case (Cons e es)
  from Cons.prems(2) obtain y1 where y1: "sys_step E e y = Some y1" "sys_run E es y1 = Some y'"
    by (auto split: option.splits)
  with since_step [OF Cons.prems(1)] Cons.prems(3) have "since k cert y1" by simp
  from Cons.IH [OF this y1(2)] Cons.prems(3) show ?case by simp
qed simp

lemma moved_run:
  "since k cert y \<Longrightarrow> moved k old s y \<Longrightarrow> sys_run E es y = Some y' \<Longrightarrow> \<forall>e \<in> set es. \<not> renews e \<Longrightarrow>
     since k cert y' \<and> moved k old s y'"
proof (induction es arbitrary: y)
  case (Cons e es)
  from Cons.prems(3) obtain y1 where "sys_step E e y = Some y1" "sys_run E es y1 = Some y'"
    by (auto split: option.splits)
  with Cons.IH [of y1] since_step [OF Cons.prems(1)] moved_step [OF Cons.prems(2)] Cons.prems(1,4)
  show ?case by (auto simp: since_def)
qed simp

lemma sys_run_append:
  "sys_run E (as @ bs) y = (case sys_run E as y of None \<Rightarrow> None | Some y' \<Rightarrow> sys_run E bs y')"
  by (induction as arbitrary: y) (auto split: option.splits)

text \<open>
  A run in which a \<open>Reconnect\<close> ran over the slot: it loaded the slot's connection and, if there was
  one, closed it later.
\<close>

definition reconnected :: "sys_env \<Rightarrow> slot \<Rightarrow> sys_event list \<Rightarrow> 'l system \<Rightarrow> bool" where
  "reconnected E s es y \<longleftrightarrow>
     (\<exists>as bs cs z. es = as @ Load s # bs @ cs \<and> sys_run E as y = Some z \<and>
        (case cl_conn (client_at (sy_client z) s) of
           None \<Rightarrow> bs = []
         | Some n \<Rightarrow> (\<exists>bs'. bs = bs' @ [Close s n])))"

lemma close_moves:
  assumes "moved k (Some n) s y" "sys_step E (Close s n) y = Some y'"
  shows "moved k None s y'"
  using assms by (auto simp: moved_def client_at_slot unserve_def split: if_splits)

lemma reconnected_moves:
  assumes "since k cert y" "s \<in> set (slots (sy_client y))" "sys_run E es y = Some y'"
    and "\<forall>e \<in> set es. \<not> renews e" "reconnected E s es y"
  shows "since k cert y' \<and> moved k None s y'"
proof -
  obtain as bs cs z where d: "es = as @ Load s # bs @ cs" "sys_run E as y = Some z"
    and b: "case cl_conn (client_at (sy_client z) s) of None \<Rightarrow> bs = [] | Some n \<Rightarrow> (\<exists>bs'. bs = bs' @ [Close s n])"
    using assms(5) unfolding reconnected_def by blast
  obtain z1 where z1: "sys_step E (Load s) z = Some z1" "sy_client z1 = sy_client z" and rest: "sys_run E (bs @ cs) z1 = Some y'"
    using assms(3) d by (auto simp: sys_run_append Let_def split: option.splits if_splits)
  have quiet: "\<forall>e \<in> set as. \<not> renews e" "\<forall>e \<in> set bs. \<not> renews e" "\<forall>e \<in> set cs. \<not> renews e"
    using assms(4) d(1) by auto
  let ?old = "cl_conn (client_at (sy_client z) s)"
  have "since k cert z" using since_run [OF assms(1) d(2) quiet(1)] .
  then have sz: "since k cert z1" using z1(1) since_step by fastforce
  have mz: "moved k ?old s z1"
    using z1(2) run_frame [OF d(2)] assms(2) by (auto simp: moved_def)
  have "since k cert y' \<and> moved k None s y'"
  proof (cases ?old)
    case None
    with b rest moved_run [OF sz mz _ quiet(3)] show ?thesis by simp
  next
    case (Some n)
    with b obtain bs' where bs: "bs = bs' @ [Close s n]" by auto
    then obtain z2 z3 where z: "sys_run E bs' z1 = Some z2" "sys_step E (Close s n) z2 = Some z3" "sys_run E cs z3 = Some y'"
      using rest by (auto simp: sys_run_append split: option.splits)
    from moved_run [OF sz mz z(1)] quiet(2) bs Some have "since k cert z2" "moved k (Some n) s z2" by auto
    then have "since k cert z3" "moved k None s z3" using since_step [OF _ z(2)] close_moves [OF _ z(2)] by auto
    from moved_run [OF this z(3) quiet(3)] show ?thesis .
  qed
  then show ?thesis .
qed

text \<open>What the server makes of a request on a connection that showed \<open>cert\<close>.\<close>

lemma current_serves:
  assumes "sys_inv E base auth check ps y" "since k cert y" "moved k None s y"
    and "cl_conn (client_at (sy_client y) s) = Some n" "sys_step E (Serve n msg) y = Some y'"
  shows "\<exists>uid. identity E auth (sy_times y ! n) cert = Inr uid \<and> GetUUID (sy_conns y) n = (uid, uid \<noteq> uuid_Nil) \<and>
    (uid \<noteq> uuid_Nil \<longrightarrow> LastCaller (sy_server y') = uid)"
proof -
  have live: "n \<in> set (sy_live y)" using assms(5) by (auto split: if_splits)
  have "sy_opened y ! n = cert" using assms(2-4) by (auto simp: since_def moved_def)
  with assms(1) live obtain uid where
    uid: "identity E auth (sy_times y ! n) cert = Inr uid" "GetUUID (sy_conns y) n = (uid, uid \<noteq> uuid_Nil)"
    by (auto simp: sys_inv_def admitted_def)
  obtain srv ctx where h: "handle_request (se_tc E) (sy_conns y) (arrived n msg) (sy_server y) = (srv, ctx)" by fastforce
  then have "sy_server y' = srv" using assms(5) by (auto split: if_splits)
  with handle_request_keeps [OF h] uid show ?thesis by (auto simp: LastCaller_def)
qed

lemma since_now: "GetClientCertificate (sy_provider y) = Some cert \<Longrightarrow> since (length (sy_opened y)) cert y"
  by (auto simp: since_def)





section \<open>The system as it starts\<close>

text \<open>The client \<open>NewWithMTLS\<close> builds and the server \<open>Start\<close> starts, put together.\<close>

definition starts :: "sys_env \<Rightarrow> server_tls option \<Rightarrow> server_mtls \<Rightarrow> cas \<Rightarrow> mtls_config \<Rightarrow> pools \<Rightarrow> 'l system \<Rightarrow> bool" where
  "starts E base auth myGaruCAs m ps y \<longleftrightarrow>
     (\<exists>lookup clk cfg ps' sc provider renewer listen tcfg srv.
        NewWithMTLS (al_pki (se_auth E)) myGaruCAs lookup clk cfg m ps = Some (ps', Inr (sc, provider, renewer)) \<and>
        tc_Start listen tcfg = Inr srv \<and> tcc_TLSConfig tcfg = Some (NewTLSConfig (se_auth E) base auth) \<and>
        y = sys_start sc provider ps' srv)"

lemma serves_mono: "serves K check ps U p \<Longrightarrow> U \<subseteq> V \<Longrightarrow> serves K check ps V p"
  unfolding serves_def by blast

lemma sys_inv_start:
  assumes "starts E base auth myGaruCAs m ps y" "check_ok (newCertCheck myGaruCAs m) ps"
  shows "sys_inv E base auth (newCertCheck myGaruCAs m) ps y \<and>
    (\<forall>s \<in> set (slots (sy_client y)). cl_conn (client_at (sy_client y) s) = None) \<and> client_ok (sy_client y)"
proof -
  obtain lookup clk cfg ps' sc provider renewer listen tcfg srv where
    c: "NewWithMTLS (al_pki (se_auth E)) myGaruCAs lookup clk cfg m ps = Some (ps', Inr (sc, provider, renewer))"
    and t: "tc_Start listen tcfg = Inr srv" "tcc_TLSConfig tcfg = Some (NewTLSConfig (se_auth E) base auth)"
    and y: "y = sys_start sc provider ps' srv"
    using assms(1) unfolding starts_def by blast
  have p: "newCertProvider (al_pki (se_auth E)) myGaruCAs clk m ps = (ps', Inr provider)"
    using c by (auto simp: NewWithMTLS_def Let_def split: prod.splits sum.splits)
  obtain tls where n: "newClient lookup cfg tls = Some sc"
    using c by (auto simp: NewWithMTLS_def Let_def split: prod.splits sum.splits)
  have srv: "srv = (NewServer (tc_normalizeConfig tcfg))\<lparr>ts_ln := ts_ln srv\<rparr>"
    using t by (auto simp: tc_Start_def Let_def split: if_splits sum.splits)
  have "ts_rpc srv = ts_rpc (NewServer (tc_normalizeConfig tcfg) :: 'a tc_server)" "ts_lastCaller srv = None"
    by (subst srv, simp add: NewServer_def)+
  then have "rpc_TLSConfig (ts_rpc srv) = Some (NewTLSConfig (se_auth E) base auth)" "ts_lastCaller srv = None"
    using t(2) by (simp_all add: NewServer_def tc_normalizeConfig_def Let_def)
  then have "sys_inv E base auth (newCertCheck myGaruCAs m) ps y"
    using newCertProvider_serves [OF p assms(2)] serves_mono
    by (auto simp: y sys_start_def sys_inv_def serves_with_def provider_inv_def)
  with new_client_layout [of lookup cfg tls] n newClient_ok [OF n] show ?thesis by (auto simp: y sys_start_def)
qed

section \<open>Properties\<close>

text \<open>
  C14. Nobody is taken for someone else. However a client built by \<open>NewWithMTLS\<close> and a server
  started with \<open>NewTLSConfig\<close> run, with dials, requests, losses, updates (failing ones included),
  automatic renewals and reconnects in any order, every open connection has at the server exactly the identity named by
  the certificate it was dialed with, which was valid at the time of its handshake; the last caller
  the server knows is the partner of a certificate that was in use; and every certificate ever
  shown had been accepted by the provider's own check.
\<close>

theorem system_identities:
  assumes "starts E base auth myGaruCAs m ps y" "check_ok (newCertCheck myGaruCAs m) ps" "plain_base base"
    and "sys_run E es y = Some y'"
  shows "(\<forall>n \<in> set (sy_live y'). n < length (sy_opened y') \<and>
      (\<exists>uid. identity E auth (sy_times y' ! n) (sy_opened y' ! n) = Inr uid \<and>
         GetUUID (sy_conns y') n = (uid, uid \<noteq> uuid_Nil))) \<and>
    (ts_lastCaller (sy_server y') = None \<or>
      (\<exists>n < length (sy_opened y'). identity E auth (sy_times y' ! n) (sy_opened y' ! n) = Inr (LastCaller (sy_server y')))) \<and>
    (\<forall>cert \<in> set (sy_opened y'). vetted (al_pki (se_auth E)) (newCertCheck myGaruCAs m) ps cert)"
proof -
  have "sys_inv E base auth (newCertCheck myGaruCAs m) ps y" using sys_inv_start [OF assms(1,2)] by blast
  from sys_inv_run [OF assms(3) this assms(4)] show ?thesis
    by (cases "ts_lastCaller (sy_server y')") (auto simp: sys_inv_def LastCaller_def admitted_def)
qed

text \<open>
  C15. Reconnecting moves a slot to the certificate in use. Take any state the system can be in, for
  instance right after an update, and let it run on without a further update, in any order, but
  so that a \<open>Reconnect\<close> has loaded the slot's connection and closed it. Whatever request the server
  then handles on the slot's connection comes as the partner of the certificate that was served
  in the first state, and no longer as that of an older one.
\<close>

theorem reconnect_moves_to_current_certificate:
  assumes "starts E base auth myGaruCAs m ps y0" "check_ok (newCertCheck myGaruCAs m) ps" "plain_base base"
    and "sys_run E es0 y0 = Some y" "GetClientCertificate (sy_provider y) = Some cert"
    and "sys_run E es y = Some y'" "\<forall>e \<in> set es. \<not> renews e"
    and "s \<in> set (slots (sy_client y))" "reconnected E s es y"
    and "cl_conn (client_at (sy_client y') s) = Some n" "sys_step E (Serve n msg) y' = Some y''"
  shows "\<exists>uid. identity E auth (sy_times y' ! n) cert = Inr uid \<and> GetUUID (sy_conns y') n = (uid, uid \<noteq> uuid_Nil) \<and>
    (uid \<noteq> uuid_Nil \<longrightarrow> LastCaller (sy_server y'') = uid)"
proof -
  have "sys_inv E base auth (newCertCheck myGaruCAs m) ps y0" using sys_inv_start [OF assms(1,2)] by blast
  from sys_inv_run [OF assms(3) sys_inv_run [OF assms(3) this assms(4)] assms(6)]
  have "sys_inv E base auth (newCertCheck myGaruCAs m) ps y'" .
  moreover from reconnected_moves [OF since_now [OF assms(5)] assms(8,6,7,9)]
  have "since (length (sy_opened y)) cert y'" "moved (length (sy_opened y)) None s y'" by blast+
  ultimately show ?thesis using assms(10,11) by (rule current_serves)
qed

text \<open>
  C16. And the client as a whole moves: once a \<open>Reconnect\<close> has run over all its slots and they are
  connected again, a \<open>Touch\<close> through the client's round robins, frames and pools comes to the server
  as the partner of the current certificate. Where that partner is granted it, it is answered OK
  with the user the server knows, and it bills nobody: all it changes at the server is the last
  caller, and no rule of any request.
\<close>

theorem touch_after_reconnect:
  assumes "starts E base auth myGaruCAs m ps y0" "check_ok (newCertCheck myGaruCAs m) ps" "plain_base base"
    and "sys_run E es0 y0 = Some y" "GetClientCertificate (sy_provider y) = Some cert"
    and "sys_run E es y = Some y'" "\<forall>e \<in> set es. \<not> renews e"
    and "\<forall>s \<in> set (slots (sy_client y)). reconnected E s es y \<and>
      (\<exists>n \<in> set (sy_live y'). cl_conn (client_at (sy_client y') s) = Some n)"
    and "identity E auth clk cert = Inr u" "u \<noteq> uuid_Nil" "u \<in> set (tcc_TouchPartners (ts_cfg (sy_server y')))"
    and "served_by X (se_tc E) (sy_conns y') (\<lambda>s. the (cl_conn (client_at (sy_client y') s)))"
    and "world_ready w" "w_net w = sy_server y'"
    and "marshal_touch X req = Inr bs" "bs \<noteq> []" "length bs \<le> maxBytesSize" "tl_unmarshal_touch (se_tc E) bs = Inr msg"
    and "tl_marshal_touch (se_tc E) touch_reply = Inr rb" "length rb \<le> maxBytesSize" "unmarshal_touch X rb = Inr touch_reply"
  shows "\<exists>sc' w'. Sharded_Touch X k req (sy_client y') w = Some (sc', w', Some touch_reply, RPC_OK, None) \<and>
    client_ok sc' \<and> w_net w' = (w_net w)\<lparr>ts_lastCaller := Some u\<rparr> \<and>
    w_match w' = w_match w \<and> w_report w' = w_report w"
proof -
  have start: "sys_inv E base auth (newCertCheck myGaruCAs m) ps y0" "client_ok (sy_client y0)"
    using sys_inv_start [OF assms(1,2)] by blast+
  from sys_inv_run [OF assms(3) sys_inv_run [OF assms(3) start(1) assms(4)] assms(6)]
  have inv: "sys_inv E base auth (newCertCheck myGaruCAs m) ps y'" .
  have ok: "client_ok (sy_client y')" using run_frame [OF assms(4)] run_frame [OF assms(6)] start(2) by simp
  let ?conn = "\<lambda>s. the (cl_conn (client_at (sy_client y') s))"
  have granted: "\<forall>s \<in> set (slots (sy_client y')). GetUUID (sy_conns y') (?conn s) = (u, True) \<and>
      u \<in> set (tcc_TouchPartners (ts_cfg (w_net w)))"
  proof
    fix s assume "s \<in> set (slots (sy_client y'))"
    then have s: "s \<in> set (slots (sy_client y))" using run_frame [OF assms(6)] by simp
    with assms(8) obtain n where n: "n \<in> set (sy_live y')" "cl_conn (client_at (sy_client y') s) = Some n" by blast
    from reconnected_moves [OF since_now [OF assms(5)] s assms(6,7)] assms(8) s n have "sy_opened y' ! n = cert"
      by (auto simp: since_def moved_def)
    with inv n obtain uid where "identity E auth (sy_times y' ! n) cert = Inr uid"
      "GetUUID (sy_conns y') n = (uid, uid \<noteq> uuid_Nil)" by (auto simp: sys_inv_def admitted_def)
    with authenticates_same [OF assms(9)] n(2) assms(10,11,14) show "GetUUID (sy_conns y') (?conn s) = (u, True) \<and>
      u \<in> set (tcc_TouchPartners (ts_cfg (w_net w)))" by auto
  qed
  from touch_end_to_end [OF assms(12) ok assms(13) granted assms(15-21), of k]
  show ?thesis by auto
qed


section \<open>A concrete system\<close>

text \<open>
  One connection; the certificates are those of \<open>pki_lib\<close>, named by their partner's UUID. Partner 7's
  client becomes partner 11's.
\<close>

definition partner_pem :: "uuid \<Rightarrow> bytes" where
  "partner_pem u = bytes_of_string (sample_uuid_string u)"

definition partner_cert :: "uuid \<Rightarrow> tls_certificate" where
  "partner_cert u = \<lparr>Certificate = [partner_pem u], Leaf = pki_cert (partner_pem u)\<rparr>"

definition demo_env :: sys_env where
  "demo_env = \<lparr>se_auth = pki_lib, se_tc = touch_lib, se_lib_ok = (\<lambda>_ _. True), se_pem = Some\<rparr>"

definition demo_base :: "server_tls option" where
  "demo_base = Some (ServerTLS NoClientCert VersionTLS12 None None)"

definition demo_auth :: server_mtls where
  "demo_auth = \<lparr>sm_Roots = [pki_cert []], sm_Intermediates = [], sm_CurrentTime = None, sm_Issuer = None,
     sm_StatusClient = None, sm_RequireOCSP = False\<rparr>"

definition demo_mtls :: mtls_config where
  "demo_mtls = sample_mtls\<lparr>CertPEM := partner_pem 7, KeyPEM := [], ServerName := ''x''\<rparr>"

definition demo_pools :: pools where
  "demo_pools = [[pki_cert []], []]"

definition demo_check :: cert_check where
  "demo_check = newCertCheck sample_cas demo_mtls"

definition demo_config :: "configuration option" where
  "demo_config = Some (zero_configuration\<lparr>MaximumSimultaneousConnections := 1\<rparr>)"

definition demo_provider :: "uuid \<Rightarrow> cert_provider" where
  "demo_provider u = \<lparr>cp_check = demo_check,
     cp_current = Some \<lparr>pc_cert = partner_cert u, pc_certPEM = partner_pem u\<rparr>, cp_pollInterval = 0\<rparr>"

definition demo_client :: "tls_config sharded_client" where
  "demo_client = the (newClient sample_lookup demo_config
     \<lparr>tls_RootCAs = None, tls_ServerName = ''x'', tls_MinVersion = VersionTLS12\<rparr>)"

definition demo_tc_config :: tc_config where
  "demo_tc_config = sample_tc_config\<lparr>tcc_TLSConfig := Some (NewTLSConfig pki_lib demo_base demo_auth),
     tcc_TouchPartners := [11]\<rparr>"

definition demo_server :: "unit tc_server" where
  "demo_server = (NewServer (tc_normalizeConfig demo_tc_config))\<lparr>ts_ln := Some ()\<rparr>"

definition demo_system :: "unit system" where
  "demo_system = sys_start demo_client (demo_provider 7) demo_pools demo_server"

lemma demo_identity: "identity demo_env demo_auth clk (partner_cert u) = Inr u"
  by (simp add: authenticateClientCertificate_def check_time_def demo_env_def demo_auth_def partner_cert_def partner_pem_def pki_lib_def
      pki_cert_def sample_uuid_simps Let_def)

lemma demo_load:
  "load_pair (al_pki pki_lib) clk demo_check (partner_pem u) key demo_pools = (demo_pools, Inr (partner_cert u))"
  unfolding partner_cert_def
  by (rule single_pair_loads [where rs = "[pki_cert []]"])
    (simp_all add: pki_lib_def demo_check_def newCertCheck_def sample_cas_def demo_mtls_def sample_mtls_def demo_pools_def)

lemma demo_update:
  "Update (al_pki pki_lib) clk (partner_pem u) key (demo_provider v, demo_pools) = ((demo_provider u, demo_pools), None)"
  by (simp add: Update_def demo_provider_def demo_load)

lemma demo_new: "newCertProvider (al_pki (se_auth demo_env)) sample_cas 5 demo_mtls demo_pools = (demo_pools, Inr (demo_provider 7))"
  using demo_load [of 5 7 "[]"]
  by (simp add: newCertProvider_def Update_def demo_provider_def demo_env_def demo_check_def)
    (simp add: demo_mtls_def demo_check_def)

lemma demo_check_ok: "check_ok (newCertCheck sample_cas demo_mtls) demo_pools"
  by (simp add: check_ok_def newCertCheck_def sample_cas_def demo_mtls_def sample_mtls_def demo_pools_def)

lemma demo_starts: "starts demo_env demo_base demo_auth sample_cas demo_mtls demo_pools demo_system"
proof -
  have "NewWithMTLS (al_pki (se_auth demo_env)) sample_cas sample_lookup 5 demo_config demo_mtls demo_pools =
      Some (demo_pools, Inr (demo_client, demo_provider 7, newAutoRenewer demo_mtls))"
    using demo_new newClient_groups [of sample_lookup demo_config
        "\<lparr>tls_RootCAs = None, tls_ServerName = ''x'', tls_MinVersion = VersionTLS12\<rparr>"]
    by (auto simp: NewWithMTLS_def demo_client_def demo_mtls_def sample_mtls_def resolveServerName_def Let_def)
  moreover have "tc_Start (\<lambda>_. Inr ()) demo_tc_config = Inr demo_server"
    by (simp add: tc_Start_def demo_server_def demo_tc_config_def tc_normalizeConfig_def Let_def)
  moreover have "tcc_TLSConfig demo_tc_config = Some (NewTLSConfig (se_auth demo_env) demo_base demo_auth)"
    by (simp add: demo_tc_config_def demo_env_def)
  ultimately show ?thesis unfolding starts_def demo_system_def by blast
qed

lemma demo_slots: "slots demo_client = [(0, 0)]"
proof -
  let ?tls = "\<lparr>tls_RootCAs = None, tls_ServerName = ''x'', tls_MinVersion = VersionTLS12\<rparr>"
  have "client_addrs demo_config = [defaultCloudAddr]"
    by (simp add: client_addrs_def config_of_def demo_config_def zero_configuration_def addr_list_def)
  moreover have "MaximumSimultaneousConnections (normalizeConfiguration demo_config) = 1"
    by (simp add: demo_config_def normalizeConfiguration_fields default_if_def config_of_def Let_def)
  ultimately have one: "length (slots demo_client) = 1" "client_ok demo_client"
    using new_client_layout [of sample_lookup demo_config ?tls] by (auto simp: demo_client_def)
  then have "sh_clients demo_client \<noteq> []" "group_ok (hd (sh_clients demo_client))" by (simp_all add: client_ok_def)
  then have "(0, 0) \<in> set (slots demo_client)" by (simp add: slots_iff group_ok_def hd_conv_nth)
  with one(1) show ?thesis by (cases "slots demo_client") auto
qed

lemma demo_no_conn: "cl_conn (client_at demo_client (0, 0)) = None"
  using sys_inv_start [OF demo_starts demo_check_ok] by (simp add: demo_system_def sys_start_def demo_slots)

lemma demo_plain: "plain_base demo_base"
  by (simp add: plain_base_def demo_base_def base_tls_def pure_verify_def)

text \<open>The first connection, opened as partner 7.\<close>

definition demo_ready :: "uuid \<Rightarrow> unit system \<Rightarrow> bool" where
  "demo_ready u y \<longleftrightarrow> sy_provider y = demo_provider u \<and> sy_pools y = demo_pools \<and> sy_server y = demo_server \<and>
     slots (sy_client y) = [(0, 0)] \<and> cl_conn (client_at (sy_client y) (0, 0)) = Some 0 \<and>
     sy_live y = [0] \<and> sy_opened y = [partner_cert 7] \<and> sy_times y = [5] \<and> sy_reconnecting y = []"

lemma demo_ready_facts:
  assumes "demo_ready u y"
  shows "GetClientCertificate (sy_provider y) = Some (partner_cert u)" "(0, 0) \<in> set (slots (sy_client y))"
    "slots (sy_client y) = [(0, 0)]" "cl_conn (client_at (sy_client y) (0, 0)) = Some 0"
  using assms by (simp_all add: demo_ready_def demo_provider_def GetClientCertificate_def)

lemma demo_dialed:
  "\<exists>y. sys_step demo_env (Dial (0, 0) 5) demo_system = Some y \<and> demo_ready 7 y \<and> sy_asked y = None \<and> sy_kept y = None \<and>
     sy_saved y = [] \<and> sy_started y = []"
proof -
  have w: "serves_with demo_env demo_base demo_auth demo_system"
    using sys_inv_start [OF demo_starts demo_check_ok] by (simp add: sys_inv_def)
  have c: "GetClientCertificate (sy_provider demo_system) = Some (partner_cert 7)"
    by (simp add: demo_system_def sys_start_def demo_provider_def GetClientCertificate_def)
  from dial_admits [OF w [unfolded demo_base_def] c demo_identity, of "(0, 0)" 5] obtain conns where
    "sys_dial demo_env (0, 0) 5 demo_system = Some (demo_system\<lparr>sy_client := at_slot (0, 0) (onConnDialed 0) demo_client,
      sy_conns := conns, sy_live := [0], sy_opened := [partner_cert 7], sy_times := [5]\<rparr>)"
    by (auto simp: partner_cert_def demo_env_def demo_system_def sys_start_def)
  then show ?thesis
    by (simp add: demo_system_def sys_start_def demo_slots demo_no_conn client_at_slot onConnDialed_def demo_ready_def)
qed

text \<open>The update to partner 11's certificate; a reconnect of the one slot, and the dial of the next request.\<close>

definition demo_before :: "sys_event list" where
  "demo_before = [Dial (0, 0) 5, Renew 5 (partner_pem 11) [], Reconnect]"

definition demo_after :: "sys_event list" where
  "demo_after = [Load (0, 0), Close (0, 0) 0, Dial (0, 0) 6]"

lemma demo_run_before:
  "\<exists>y. sys_run demo_env demo_before demo_system = Some y \<and> demo_ready 11 y \<and> sy_started y = [(0, 0)]"
proof -
  obtain y where y: "sys_step demo_env (Dial (0, 0) 5) demo_system = Some y" "demo_ready 7 y" "sy_started y = []"
    using demo_dialed by blast
  from y(2) demo_update [of 5 11 "[]" 7] have "sys_step demo_env (Renew 5 (partner_pem 11) []) y =
      Some (y\<lparr>sy_provider := demo_provider 11, sy_pools := demo_pools\<rparr>)"
    by (simp add: demo_ready_def demo_env_def)
  moreover have "sys_step demo_env Reconnect (y\<lparr>sy_provider := demo_provider 11, sy_pools := demo_pools\<rparr>) =
      Some (y\<lparr>sy_provider := demo_provider 11, sy_pools := demo_pools, sy_started := [(0, 0)]\<rparr>)"
    using y(2,3) by (simp add: demo_ready_def)
  ultimately show ?thesis using y by (simp add: demo_before_def demo_ready_def del: sys_step.simps)
qed







lemma demo_run_after:
  assumes "sys_run demo_env es demo_system = Some y" "demo_ready 11 y" "sy_started y = [(0, 0)]"
  shows "\<exists>y'. sys_run demo_env demo_after y = Some y' \<and> sy_server y' = demo_server \<and> sy_live y' = [1] \<and>
    slots (sy_client y') = [(0, 0)] \<and> cl_conn (client_at (sy_client y') (0, 0)) = Some 1 \<and>
    sy_started y' = [] \<and> sy_reconnecting y' = []"
proof -
  have y: "sy_provider y = demo_provider 11" "sy_server y = demo_server" "slots (sy_client y) = [(0, 0)]"
    "cl_conn (client_at (sy_client y) (0, 0)) = Some 0" "sy_live y = [0]" "sy_opened y = [partner_cert 7]" "sy_times y = [5]"
    "sy_reconnecting y = []"
    using assms(2) by (simp_all add: demo_ready_def)
  let ?y = "y\<lparr>sy_client := at_slot (0, 0) (unserve 0) (sy_client y), sy_live := [], sy_started := [], sy_reconnecting := []\<rparr>"
  have closed: "sys_run demo_env [Load (0, 0), Close (0, 0) 0] y = Some ?y" using y assms(3) by (simp add: Let_def)
  have w: "serves_with demo_env demo_base demo_auth y"
    using sys_inv_run [OF demo_plain _ assms(1)] sys_inv_start [OF demo_starts demo_check_ok] by (auto simp: sys_inv_def)
  have "serves_with demo_env (Some (ServerTLS NoClientCert VersionTLS12 None None)) demo_auth ?y"
    "GetClientCertificate (sy_provider ?y) = Some (partner_cert 11)"
    using w y(1) by (simp_all add: serves_with_def demo_base_def demo_provider_def GetClientCertificate_def)
  from dial_admits [OF this demo_identity, of "(0, 0)" 6] obtain conns where
    "sys_dial demo_env (0, 0) 6 ?y = Some (?y\<lparr>sy_client := at_slot (0, 0) (onConnDialed 1) (sy_client ?y),
      sy_conns := conns, sy_live := [1], sy_opened := [partner_cert 7, partner_cert 11], sy_times := [5, 6]\<rparr>)"
    by (auto simp: partner_cert_def demo_env_def y(6,7))
  then have "sys_run demo_env [Dial (0, 0) 6] ?y = Some (?y\<lparr>sy_client := at_slot (0, 0) (onConnDialed 1) (sy_client ?y),
      sy_conns := conns, sy_live := [1], sy_opened := [partner_cert 7, partner_cert 11], sy_times := [5, 6]\<rparr>)"
    using y by (simp add: client_at_slot unserve_def)
  with closed sys_run_append [of demo_env "[Load (0, 0), Close (0, 0) 0]" "[Dial (0, 0) 6]" y]
  have "sys_run demo_env demo_after y = Some (?y\<lparr>sy_client := at_slot (0, 0) (onConnDialed 1) (sy_client ?y),
      sy_conns := conns, sy_live := [1], sy_opened := [partner_cert 7, partner_cert 11], sy_times := [5, 6]\<rparr>)"
    by (simp only: demo_after_def append.simps option.case)
  then show ?thesis using y by (simp add: client_at_slot onConnDialed_def)
qed

lemma demo_reconnected:
  assumes "cl_conn (client_at (sy_client y) (0, 0)) = Some 0"
  shows "reconnected demo_env (0, 0) demo_after y"
  unfolding reconnected_def demo_after_def
  by (rule exI [of _ "[]"], rule exI [of _ "[Close (0, 0) 0]"], rule exI [of _ "[Dial (0, 0) 6]"], rule exI [of _ y])
    (simp add: assms)

lemma demo_quiet: "\<forall>e \<in> set demo_after. \<not> renews e"
  by (simp add: demo_after_def)

theorem system_identities_witness:
  "\<exists>y. sys_run demo_env demo_before demo_system = Some y \<and> sy_live y = [0] \<and> GetUUID (sy_conns y) 0 = (7, True)"
proof -
  obtain y where y: "sys_run demo_env demo_before demo_system = Some y" "sy_live y = [0]" "sy_opened y = [partner_cert 7]"
    using demo_run_before by (auto simp: demo_ready_def)
  from system_identities [OF demo_starts demo_check_ok demo_plain y(1)] y demo_identity [of _ 7] show ?thesis
    by (auto simp: uuid_Nil_def)
qed

theorem reconnect_moves_to_current_certificate_witness:
  "\<exists>y y' y''. sys_run demo_env demo_before demo_system = Some y \<and> sys_run demo_env demo_after y = Some y' \<and>
     sys_step demo_env (Serve 1 (Touch, [3])) y' = Some y'' \<and> LastCaller (sy_server y'') = 11"
proof -
  obtain y where y: "sys_run demo_env demo_before demo_system = Some y" "demo_ready 11 y" "sy_started y = [(0, 0)]"
    using demo_run_before by blast
  note c = demo_ready_facts [OF y(2)]
  obtain y' where y': "sys_run demo_env demo_after y = Some y'" "sy_live y' = [1]"
    "cl_conn (client_at (sy_client y') (0, 0)) = Some 1" using demo_run_after [OF y] by blast
  obtain y'' where y'': "sys_step demo_env (Serve 1 (Touch, [3])) y' = Some y''" using y'(2) by simp
  from reconnect_moves_to_current_certificate [OF demo_starts demo_check_ok demo_plain y(1) c(1) y'(1) demo_quiet c(2)
      demo_reconnected [OF c(4)] y'(3) y''] demo_identity [of _ 11]
  have "LastCaller (sy_server y'') = 11" by (simp add: uuid_Nil_def)
  with y(1) y'(1) y'' show ?thesis by blast
qed

theorem touch_after_reconnect_witness:
  "\<exists>y y' X w sc' w'. sys_run demo_env demo_before demo_system = Some y \<and> sys_run demo_env demo_after y = Some y' \<and>
     w_net w = sy_server y' \<and>
     Sharded_Touch X sample_call None (sy_client y') w = Some (sc', w', Some touch_reply, RPC_OK, None) \<and>
     LastCaller (w_net w') = 11"
proof -
  obtain y where y: "sys_run demo_env demo_before demo_system = Some y" "demo_ready 11 y" "sy_started y = [(0, 0)]"
    using demo_run_before by blast
  note c = demo_ready_facts [OF y(2)]
  obtain y' where y': "sys_run demo_env demo_after y = Some y'" "sy_server y' = demo_server" "sy_live y' = [1]"
    "cl_conn (client_at (sy_client y') (0, 0)) = Some 1" using demo_run_after [OF y] by blast
  have all: "\<forall>s \<in> set (slots (sy_client y)). reconnected demo_env s demo_after y \<and>
      (\<exists>n \<in> set (sy_live y'). cl_conn (client_at (sy_client y') s) = Some n)"
    using c(3) y'(3,4) demo_reconnected [OF c(4)] by simp
  define X where "X = touch_ext\<lparr>do_deadline := (\<lambda>s req resp dl t. exchange touch_lib (sy_conns y')
      (the (cl_conn (client_at (sy_client y') s))) req resp t)\<rparr>"
  define w where "w = touch_world\<lparr>w_net := sy_server y'\<rparr>"
  have served: "served_by X (se_tc demo_env) (sy_conns y') (\<lambda>s. the (cl_conn (client_at (sy_client y') s)))"
    using cloud_served by (simp add: served_by_def X_def touch_ext_def demo_env_def touch_lib_def)
  have w: "world_ready w" "w_net w = sy_server y'"
    by (simp_all add: world_ready_def pools_ok_def w_def touch_world_def cloud_world_def)
  have "(11 :: uuid) \<noteq> uuid_Nil" "11 \<in> set (tcc_TouchPartners (ts_cfg (sy_server y')))"
    by (simp_all add: uuid_Nil_def y'(2) demo_server_def NewServer_def demo_tc_config_def tc_normalizeConfig_def Let_def)
  note t = touch_after_reconnect [OF demo_starts demo_check_ok demo_plain y(1) c(1) y'(1) demo_quiet all demo_identity this
      served w]
  have "\<exists>sc' w'. Sharded_Touch X sample_call None (sy_client y') w = Some (sc', w', Some touch_reply, RPC_OK, None) \<and>
      client_ok sc' \<and> w_net w' = (w_net w)\<lparr>ts_lastCaller := Some 11\<rparr> \<and> w_match w' = w_match w \<and> w_report w' = w_report w"
    by (rule t [where bs = "[3]" and rb = "bytes_of_string TouchUserID" and
          msg = "\<lparr>TouchRequest_Uids = [], TouchRequest_Context = None, TouchRequest_Inventory = None\<rparr>"])
      (simp_all add: X_def touch_ext_def cloud_ext_def demo_env_def touch_lib_def sample_tc_lib_def touch_reply_def
        maxBytesSize_def bytes_of_string_def TouchUserID_def)
  with y(1) y'(1) w(2) show ?thesis by (fastforce simp: LastCaller_def)
qed


end
