(* ===== verification/Session.thy ===== *)
theory Session
  imports EndToEnd "HOL-Library.Sublist"
begin

text \<open>
  A client over time, next to everybody else: a run of its calls of any kind, with the requests of
  other clients handled in between, over a network that may lose a request on the way there or
  its answer on the way back, and over connections that come and go. What is shown: the client
  never panics and stays usable, and no two of its Target calls are ever given the same
  tracking id.
\<close>

section \<open>Activity\<close>

text \<open>
  fastrpc's exchange as far as a client can rely on it: it is the exchange with the server on some
  connection, or fails, and then the server has handled the request or never saw it. What a
  failed exchange leaves in the response is anything, but a response.
\<close>

definition lossy :: "tc_lib \<Rightarrow> 'l tc_server ext \<Rightarrow> bool" where
  "lossy L X \<longleftrightarrow> (\<forall>slot req resp dl s. response_ok resp \<longrightarrow> (\<exists>conns conn lost e. response_ok lost \<and>
     do_deadline X slot req resp dl s \<in>
       {exchange L conns conn req resp s, (fst (exchange L conns conn req resp s), lost, Some e), (s, lost, Some e)}))"

datatype 'l act =
    CallTarget "'l tc_server ext" call "addr option target_request option"
  | CallReport "'l tc_server ext" call "addr option report_request"
  | CallTouch "'l tc_server ext" call "touch_request option"
  | Elsewhere auth_store nat "RPCRegister \<times> bytes"

definition given_ids :: "target_response option \<Rightarrow> bytes list" where
  "given_ids m = (case m of None \<Rightarrow> [] | Some r \<Rightarrow> [TargetResponse_TrackingId r])"

fun act_step :: "tc_lib \<Rightarrow> 'l act \<Rightarrow> 'tls sharded_client \<times> 'l tc_server world \<Rightarrow>
    (bytes list \<times> 'tls sharded_client \<times> 'l tc_server world) option" where
  "act_step L (CallTarget X k req) (sc, w) =
     map_option (\<lambda>(sc', w', m, st, err). (given_ids m, sc', w')) (Sharded_Target X k req sc w)"
| "act_step L (CallReport X k req) (sc, w) =
     map_option (\<lambda>(sc', w', req', st, err). ([], sc', w')) (Sharded_Report X k (Some req) sc w)"
| "act_step L (CallTouch X k req) (sc, w) =
     map_option (\<lambda>(sc', w', m, st, err). ([], sc', w')) (Sharded_Touch X k req sc w)"
| "act_step L (Elsewhere conns conn m) (sc, w) =
     Some ([], sc, w\<lparr>w_net := fst (handle_request L conns (arrived conn m) (w_net w))\<rparr>)"

fun activity :: "tc_lib \<Rightarrow> 'l act list \<Rightarrow> 'tls sharded_client \<times> 'l tc_server world \<Rightarrow>
    (bytes list \<times> 'tls sharded_client \<times> 'l tc_server world) option" where
  "activity L [] c = Some ([], c)"
| "activity L (a # as) c =
     (case act_step L a c of
        None \<Rightarrow> None
      | Some (ids, c') \<Rightarrow> map_option (\<lambda>(ids', c''). (ids @ ids', c'')) (activity L as c'))"

text \<open>Every call goes over such a network and decodes answers alike.\<close>

fun act_ok :: "tc_lib \<Rightarrow> (bytes \<Rightarrow> target_response result) \<Rightarrow> 'l act \<Rightarrow> bool" where
  "act_ok L un (CallTarget X k req) \<longleftrightarrow> lossy L X \<and> unmarshal_target X = un"
| "act_ok L un (CallReport X k req) \<longleftrightarrow> lossy L X"
| "act_ok L un (CallTouch X k req) \<longleftrightarrow> lossy L X"
| "act_ok L un (Elsewhere conns conn m) \<longleftrightarrow> True"

section \<open>Lemmas: one exchange over such a network\<close>

lemma readBytes_sizeBuf: "readBytes br b sb = (br', v, sb', err) \<Longrightarrow> length sb' = length sb"
  by (auto simp: readBytes_def Let_def dest!: read_full_consumes split: prod.splits option.splits if_splits)

lemma ReadResponse_keeps:
  "response_ok resp \<Longrightarrow> ReadResponse resp br = (br', resp', err) \<Longrightarrow> response_ok resp'"
  by (auto simp: ReadResponse_def response_ok_def dest: readBytes_sizeBuf split: prod.splits sum.splits)

text \<open>A value that does not fit a frame is refused, after the head byte.\<close>

lemma oversized_refused:
  "\<not> length (Request_Value req) \<le> maxBytesSize \<Longrightarrow> \<exists>w' req' e. WriteRequest req w = (w', req', Some e)"
  "\<not> length (Response_Value resp) \<le> maxBytesSize \<Longrightarrow> \<exists>w' resp' e. WriteResponse resp w = (w', resp', Some e)"
proof -
  assume "\<not> length (Request_Value req) \<le> maxBytesSize"
  then have big: "\<exists>e. writeBytes w1 (vis (req_value req)) (req_sizeBuf req) = (w1, req_sizeBuf req, Some e)" for w1
    by (intro writeBytes_too_big) (simp add: Request_Value_def)
  obtain w1 err where b: "bw_write_byte w (req_code req) = (w1, err)" by fastforce
  obtain e where "writeBytes w1 (vis (req_value req)) (req_sizeBuf req) = (w1, req_sizeBuf req, Some e)" using big by blast
  with b show "\<exists>w' req' e. WriteRequest req w = (w', req', Some e)" by (cases err) (simp_all add: WriteRequest_def)
next
  assume "\<not> length (Response_Value resp) \<le> maxBytesSize"
  then have big: "\<exists>e. writeBytes w1 (vis (resp_value resp)) (resp_sizeBuf resp) = (w1, resp_sizeBuf resp, Some e)" for w1
    by (intro writeBytes_too_big) (simp add: Response_Value_def)
  obtain w1 err where b: "bw_write_byte w (ucast (resp_statusCode resp)) = (w1, err)" by fastforce
  obtain e where "writeBytes w1 (vis (resp_value resp)) (resp_sizeBuf resp) = (w1, resp_sizeBuf resp, Some e)" using big by blast
  with b show "\<exists>w' resp' e. WriteResponse resp w = (w', resp', Some e)" by (cases err) (simp_all add: WriteResponse_def)
qed

lemma handle_request_status:
  assumes "handle_request L conns (arrived conn m) s = (s', ctx')" "unat (tcc_TargetStatus (ts_cfg s)) < 256"
  shows "unat (GetStatusCode (ctx_Response ctx')) < 256"
proof -
  have cfg: "ts_cfg t' = ts_cfg t" if "check_rule_payers L what k ps t = (t', e)" for what k ps t t' e
    using that check_rule_payers_refuses [of L what k ps t t'] only_refused_fields [of t t'] by (cases e) auto
  have T: "unat (GetStatusCode (ctx_Response (snd (handleTarget L (arrived conn m) t)))) < 256"
    if "ts_cfg t = ts_cfg s" for t
    using that assms(2)
    by (auto simp: handleTarget_def rpc_codes Let_def split: sum.splits prod.splits option.splits dest: cfg)
  have R: "unat (GetStatusCode (ctx_Response (snd (handleReport L (arrived conn m) t)))) < 256" for t
    by (auto simp: handleReport_def rpc_codes Let_def split: sum.splits prod.splits option.splits)
  have U: "unat (GetStatusCode (ctx_Response (snd (handleTouch L (arrived conn m) u t)))) < 256" for u t
    by (auto simp: handleTouch_def rpc_codes split: sum.splits)
  from assms(1) show ?thesis
  proof (cases rule: handle_request_cases)
    case (target u)
    with T [of "s\<lparr>ts_lastCaller := Some u\<rparr>"] show ?thesis by simp
  next
    case (report u)
    with R [of "s\<lparr>ts_lastCaller := Some u\<rparr>"] show ?thesis by simp
  next
    case (touch u)
    with U [of u "s\<lparr>ts_lastCaller := Some u\<rparr>"] show ?thesis by simp
  qed (simp_all add: rpc_codes)
qed

text \<open>An exchange has the handler's effect or none, and an answer that arrives is the handler's.\<close>

lemma exchange_effect:
  assumes "request_ok req" "response_ok resp" "unat (tcc_TargetStatus (ts_cfg s)) < 256"
    and "handle_request L conns (arrived conn (request_obs req)) s = (s1, ctx')"
    and "exchange L conns conn req resp s = (s', resp', err)"
  shows "response_ok resp' \<and> (s' = s \<and> err \<noteq> None \<or>
    s' = s1 \<and> (err = None \<longrightarrow> response_obs resp' = response_obs (ctx_Response ctx')))"
proof (cases "length (Request_Value req) \<le> maxBytesSize")
  case False
  then obtain w r e where "WriteRequest req wire = (w, r, Some e)" using oversized_refused(1) by blast
  with assms(2,5) show ?thesis by (auto simp: exchange_def)
next
  case True
  with assms(1) have send: "request_sendable req" by (simp add: request_sendable_def)
  obtain w req' ctx where w: "WriteRequest req wire = (w, req', None)"
    "Ctx_ReadRequest (fresh_ctx conn) \<lparr>rest = stream w, rend = EOF\<rparr> = (\<lparr>rest = [], rend = EOF\<rparr>, ctx, None)"
    "same_ctx ctx (arrived conn (request_obs req))"
    using request_crosses [OF send] by blast
  obtain t c where h: "handle_request L conns ctx s = (t, c)" by fastforce
  from handle_request_same [OF w(3), of L conns s] h assms(4) have t: "t = s1" by (simp add: same_run_def)
  have ok: "response_ok resp'"
    using assms(2,5) w(1) by (auto simp: exchange_def split: prod.splits sum.splits intro: ReadResponse_keeps)
  have s1: "s' = s1"
    using assms(5) w h t by (auto simp: exchange_def server_turn_def Let_def split: prod.splits sum.splits option.splits)
  show ?thesis
  proof (cases "length (Response_Value (ctx_Response ctx')) \<le> maxBytesSize")
    case fits: True
    from exchange_handles [OF send assms(2,4) fits handle_request_status [OF assms(4,3)]] assms(5) ok s1
    show ?thesis by auto
  next
    case False
    with handle_request_same [OF w(3), of L conns s] h assms(4)
    have "\<not> length (Response_Value (ctx_Response c)) \<le> maxBytesSize"
      by (simp add: same_run_def same_ctx_def response_obs_def)
    from oversized_refused(2) [OF this] obtain w' r e where "WriteResponse (ctx_Response c) wire = (w', r, Some e)" by blast
    then have "Ctx_WriteResponse c wire = (w', c\<lparr>ctx_Response := r\<rparr>, Some e)" by (simp add: Ctx_WriteResponse_def)
    with assms(5) w h have "err \<noteq> None" by (auto simp: exchange_def server_turn_def Let_def)
    with ok s1 show ?thesis by auto
  qed
qed

text \<open>So does an exchange over the network, and response buffers stay response buffers.\<close>

lemma lossy_effect:
  assumes "lossy L X" "request_ok req" "response_ok resp" "unat (tcc_TargetStatus (ts_cfg s)) < 256"
    and "do_deadline X slot req resp dl s = (s', resp', err)"
  shows "response_ok resp' \<and> (s' = s \<and> err \<noteq> None \<or>
    (\<exists>conns conn ctx'. handle_request L conns (arrived conn (request_obs req)) s = (s', ctx') \<and>
       (err = None \<longrightarrow> response_obs resp' = response_obs (ctx_Response ctx'))))"
proof -
  obtain conns conn lost e where l: "response_ok lost"
    "(s', resp', err) \<in> {exchange L conns conn req resp s, (fst (exchange L conns conn req resp s), lost, Some e), (s, lost, Some e)}"
    using assms(1,3,5) unfolding lossy_def by metis
  obtain t r f where x: "exchange L conns conn req resp s = (t, r, f)" using prod_cases3 by blast
  obtain s1 ctx' where h: "handle_request L conns (arrived conn (request_obs req)) s = (s1, ctx')" by fastforce
  from exchange_effect [OF assms(2-4) h x] l h x show ?thesis by auto
qed

lemma doUnary_keeps:
  assumes "lossy L X" "pools_ok w" "list_all response_ok (w_responses w)" "unat (tcc_TargetStatus (ts_cfg (w_net w))) < 256"
    and "doUnary X k slot c raw un reqn w = Some (w', res)"
  shows "list_all response_ok (w_responses w')"
proof -
  obtain req0 reqs where a: "AcquireRequest (pick_request k) (w_requests w) = (req0, reqs)" by fastforce
  obtain resp resps where b: "AcquireResponse (pick_response k) (w_responses w) = (resp, resps)" by fastforce
  have "request_ok req0"
    using pool_acquire_all [of "\<lambda>r. request_clean r \<and> request_ok r" "w_requests w" new_Request "pick_request k" req0 reqs]
      a fresh_request_ok assms(2) by (simp add: pools_ok_def pool_steps)
  then have req: "request_ok (Request_Append (grow X) bs (Request_SetName reqn req0))" for bs
    by (simp add: request_ok_def request_ops)
  have resp: "response_ok resp" "list_all response_ok resps"
    using pool_acquire_all [of response_ok "w_responses w" new_Response "pick_response k" resp resps] b assms(3)
    by (simp_all add: pool_steps response_ok_def response_ops)
  have released: "list_all response_ok (ReleaseResponse r resps)" if "response_ok r" for r
    using resp(2) that by (simp add: pool_steps pool_release_all response_ok_def response_ops)
  have sent: "response_ok r" if "do_deadline X slot (Request_Append (grow X) bs (Request_SetName reqn req0)) resp dl (w_net w) = (n, r, e)"
    for bs dl n r e
    using lossy_effect [OF assms(1) req resp(1) assms(4) that] by blast
  show ?thesis
  proof (cases "\<exists>bs mg. raw = Inr bs \<and> bs \<noteq> [] \<and> metric_group c reqn = Some mg")
    case False
    with assms(3,5) show ?thesis by (auto simp: doUnary_def split: sum.splits if_splits option.splits)
  next
    case True
    then obtain bs mg where raw: "raw = Inr bs" "bs \<noteq> []" "metric_group c reqn = Some mg" by blast
    obtain n r e where d: "do_deadline X slot (Request_Append (grow X) bs (Request_SetName reqn req0)) resp
      (now k + maxRequestDuration c) (w_net w) = (n, r, e)" using prod_cases3 by blast
    from assms(5) raw a b d have "w_responses w' = ReleaseResponse r resps"
      by (auto simp: doUnary_def Let_def split: option.splits if_splits sum.splits)
    with released [OF sent [OF d]] show ?thesis by simp
  qed
qed

section \<open>Lemmas: one call\<close>

lemma handle_request_keeps_request:
  assumes "handle_request L conns ctx s = (s', ctx')"
  shows "ctx_Request ctx' = ctx_Request ctx"
  using assms
proof (cases rule: handle_request_cases)
  case (target u)
  from target(3) show ?thesis by (cases rule: handleTarget_cases) simp_all
next
  case (report u)
  from report(3) show ?thesis by (cases rule: handleReport_cases) simp_all
next
  case (touch u)
  from touch(3) show ?thesis by (cases rule: handleTouch_cases) simp_all
qed simp_all

abbreviation statuses_fit :: "'l tc_server \<Rightarrow> bool" where
  "statuses_fit s \<equiv> unat (tcc_TargetStatus (ts_cfg s)) < 256"

text \<open>What a call does to the server: nothing, or it is handled; and a message comes from its answer.\<close>

definition reached :: "tc_lib \<Rightarrow> RPCRegister \<Rightarrow> (bytes \<Rightarrow> 'r result) \<Rightarrow> 'r option \<Rightarrow> 'l tc_server \<Rightarrow> 'l tc_server \<Rightarrow> bool" where
  "reached L reqn un m s s' \<longleftrightarrow> s' = s \<and> m = None \<or>
     (\<exists>conns conn bs ctx'. handle_request L conns (arrived conn (reqn, bs)) s = (s', ctx') \<and>
        (\<forall>x. m = Some x \<longrightarrow> GetStatusCode (ctx_Response ctx') = RPC_OK \<and> un (Response_Value (ctx_Response ctx')) = Inr x))"

lemma call_effect:
  assumes "lossy L X" "client_ok sc" "world_ready w" "statuses_fit (w_net w)" "reqn \<in> {Target, Report, Touch}"
  shows "\<exists>sc' w' m st err. call_picked X k raw un reqn sc w = Some (sc', w', m, st, err) \<and> client_ok sc' \<and> world_ready w' \<and>
    reached L reqn un m (w_net w) (w_net w')"
proof -
  have pools: "pools_ok w" "list_all response_ok (w_responses w)" using assms(3) by (simp_all add: world_ready_def)
  from call_picked_total [OF assms(2) pools(1) assms(5)] obtain sc' w' m st err where
    run: "call_picked X k raw un reqn sc w = Some (sc', w', m, st, err)"
    and r: "marshalled_call X k reqn raw un sc w (sc', w', m, st, err)" by fastforce
  have ok: "client_ok sc'" using r by (simp add: marshalled_call_def)
  show ?thesis
  proof (cases "not_sent w (sc', w', m, st, err)")
    case True
    with run ok assms(3) show ?thesis by (auto simp: not_sent_def reached_def)
  next
    case False
    with r obtain bs where bs: "raw = Inr bs" and one: "one_exchange X k reqn bs un sc w (sc', w', m, st, err)"
      by (auto simp: marshalled_call_def split: sum.splits if_splits)
    have "list_all response_ok (w_responses w')"
      using run doUnary_keeps [OF assms(1) pools assms(4)] by (auto simp: call_picked_def split: option.splits)
    from one [unfolded one_exchange_def prod.case] show ?thesis
    proof (elim exE conjE, goal_cases)
      case (1 slot c req resp net resp' derr)
      then have "world_ready w'" using \<open>list_all response_ok (w_responses w')\<close> by (simp add: world_ready_def)
      moreover have "response_ok resp" using 1 pools(2) by simp
      note eff = lossy_effect [OF assms(1) \<open>request_ok req\<close> this assms(4) \<open>do_deadline X slot req resp _ (w_net w) = _\<close>]
      have "reached L reqn un m (w_net w) (w_net w')"
      proof (cases "net = w_net w \<and> derr \<noteq> None")
        case True
        with 1 show ?thesis by (auto simp: reached_def)
      next
        case False
        with eff obtain conns conn ctx' where h: "handle_request L conns (arrived conn (request_obs req)) (w_net w) = (net, ctx')"
          "derr = None \<longrightarrow> response_obs resp' = response_obs (ctx_Response ctx')" by blast
        have "GetStatusCode (ctx_Response ctx') = RPC_OK \<and> un (Response_Value (ctx_Response ctx')) = Inr x" if "m = Some x" for x
          using 1 that h(2) by (auto simp: response_obs_def split: option.splits if_splits sum.splits)
        moreover have "handle_request L conns (arrived conn (reqn, bs)) (w_net w) = (w_net w', ctx')" using 1 h(1) by simp
        ultimately show ?thesis unfolding reached_def by blast
      qed
      ultimately show ?case using run ok by blast
    qed
  qed
qed

section \<open>Lemmas: activity\<close>

lemma tc_serve_append:
  "tc_serve L (as @ bs) s = (case tc_serve L as s of (s1, xs) \<Rightarrow> case tc_serve L bs s1 of (s2, ys) \<Rightarrow> (s2, xs @ ys))"
  by (induction as arbitrary: s) (auto simp: Let_def split: prod.splits)

text \<open>
  What the server sees of some activity: a run of requests that arrive as such, no longer than the
  activity, and among whose answers are the ones the client's ids come from.
\<close>

definition seen :: "tc_lib \<Rightarrow> (bytes \<Rightarrow> target_response result) \<Rightarrow> nat \<Rightarrow> bytes list \<Rightarrow> 'l tc_server \<Rightarrow> 'l tc_server \<Rightarrow> bool" where
  "seen L un n ids s s' \<longleftrightarrow> (\<exists>reqs answers. tc_serve L reqs s = (s', answers) \<and> length reqs \<le> n \<and>
     (\<forall>r \<in> set reqs. Response_Value (ctx_Response (snd r)) = []) \<and>
     subseq ids (concat (map (answered_ids un) answers)))"

lemma seen_nothing: "seen L un n [] s s"
  unfolding seen_def by (intro exI [of _ "[]"]) simp

lemma seen_request:
  assumes "handle_request L conns (arrived conn m) s = (s', ctx')" "ids \<in> {[], answered_ids un ctx'}" "0 < n"
  shows "seen L un n ids s s'"
  unfolding seen_def
  by (rule exI [of _ "[(conns, arrived conn m)]"], rule exI [of _ "[ctx']"]) (use assms in auto)

lemma seen_append:
  assumes "seen L un m xs s s1" "seen L un n ys s1 s2"
  shows "seen L un (m + n) (xs @ ys) s s2"
proof -
  obtain as xa where a: "tc_serve L as s = (s1, xa)" "length as \<le> m" "\<forall>r \<in> set as. Response_Value (ctx_Response (snd r)) = []"
    "subseq xs (concat (map (answered_ids un) xa))" using assms(1) unfolding seen_def by blast
  obtain bs ya where b: "tc_serve L bs s1 = (s2, ya)" "length bs \<le> n" "\<forall>r \<in> set bs. Response_Value (ctx_Response (snd r)) = []"
    "subseq ys (concat (map (answered_ids un) ya))" using assms(2) unfolding seen_def by blast
  show ?thesis unfolding seen_def
    by (rule exI [of _ "as @ bs"], rule exI [of _ "xa @ ya"])
      (use a b in \<open>auto simp: tc_serve_append intro: list_emb_append_mono\<close>)
qed


lemma reached_seen: "reached L reqn un' m s s' \<Longrightarrow> seen L un 1 [] s s'"
  unfolding reached_def using seen_nothing seen_request by (metis insertI1 zero_less_one)

lemma reached_given:
  assumes r: "reached L Target un m s s'"
  shows "seen L un 1 (given_ids m) s s'"
proof -
  show "seen L un 1 (given_ids m) s s'"
  proof (cases "s' = s \<and> m = None")
    case True
    then show ?thesis by (simp add: given_ids_def seen_nothing)
  next
    case False
    with r obtain conns conn bs ctx' where h: "handle_request L conns (arrived conn (Target, bs)) s = (s', ctx')"
      "\<forall>x. m = Some x \<longrightarrow> GetStatusCode (ctx_Response ctx') = RPC_OK \<and> un (Response_Value (ctx_Response ctx')) = Inr x"
      unfolding reached_def by blast
    have "given_ids m \<in> {[], answered_ids un ctx'}"
      using h(2) handle_request_keeps_request [OF h(1)] by (auto simp: given_ids_def answered_ids_def split: option.split)
    from seen_request [OF h(1) this] show ?thesis by simp
  qed
qed

lemma Sharded_Report_branches:
  "(\<exists>h req' st err. Sharded_Report X k (Some req) sc w = Some (sc, w\<lparr>w_report := h\<rparr>, req', st, err)) \<or>
   (\<exists>h req' raw. Sharded_Report X k (Some req) sc w = map_option (\<lambda>(sc', w', m, st, err). (sc', w', req', st, err))
      (call_picked X k raw (\<lambda>_. Inr ()) Report sc (w\<lparr>w_report := h\<rparr>)))"
proof (cases "ReportRequest_TrackingId req = None")
  case True
  then have "Sharded_Report X k (Some req) sc w = Some (sc, w\<lparr>w_report := w_report w\<rparr>, req, RPC_UNKNOWN,
      Some (Errorf ''tracking id is required'' []))" by (simp add: Sharded_Report_def)
  then show ?thesis by blast
next
  case False
  let ?stamped = "applyPayers (uuid_parse X) (ReportRequest_GetPayer (Some req))
      (\<lambda>payer (req, h). let req = req\<lparr>ReportRequest_Payer := uuid_string X payer\<rparr>;
         (h', err) = applyReportRulePayers (uuid_parse X) (uuid_string X) (ReportRequest_GetRules (Some req)) payer h
       in ((req, h'), err)) (req, w_report w)"
  obtain q perr where st: "?stamped = (q, perr)" by (rule prod.exhaust)
  obtain req' h where "q = (req', h)" by (rule prod.exhaust)
  with st have "?stamped = ((req', h), perr)" by (simp only:)
  then have r: "Sharded_Report X k (Some req) sc w = (case perr of
      Some err \<Rightarrow> Some (sc, w\<lparr>w_report := h\<rparr>, req', RPC_INVALID_REQUEST, Some err)
    | None \<Rightarrow> map_option (\<lambda>(sc', w', m, st, err). (sc', w', req', st, err))
        (call_picked X k (marshal_report X (deref_report h req')) (\<lambda>_. Inr ()) Report sc (w\<lparr>w_report := h\<rparr>)))"
    by (simp only: Sharded_Report_def option.case if_not_P [OF False] prod.case)
  show ?thesis
  proof (cases perr)
    case None
    show ?thesis unfolding r None option.case by (intro disjI2 exI) (rule refl)
  next
    case (Some err)
    show ?thesis unfolding r Some option.case by (intro disjI1 exI) (rule refl)
  qed
qed

text \<open>The calls, whatever is asked: none panics.\<close>

lemma world_ready_stores [simp]:
  "world_ready (w\<lparr>w_match := h\<rparr>) = world_ready w" "world_ready (w\<lparr>w_report := g\<rparr>) = world_ready w"
  "world_ready (w\<lparr>w_net := n\<rparr>) = world_ready w"
  by (simp_all add: world_ready_def pools_ok_def)

lemma act_effect:
  assumes "client_ok sc" "world_ready w" "statuses_fit (w_net w)" "act_ok L un a"
  shows "\<exists>ids sc' w'. act_step L a (sc, w) = Some (ids, sc', w') \<and> client_ok sc' \<and> world_ready w' \<and>
    seen L un 1 ids (w_net w) (w_net w')"
proof (cases a)
  case (CallTarget X k req)
  then have X: "lossy L X" "unmarshal_target X = un" using assms(4) by simp_all
  obtain h perr where stamp: "applyMatchRulePayers (uuid_parse X) (uuid_string X) (TargetRequest_GetMatch req) uuid_Nil (w_match w) = (h, perr)"
    by fastforce
  show ?thesis
  proof (cases perr)
    case (Some e)
    with stamp assms(1,2) seen_nothing show ?thesis by (simp add: CallTarget Sharded_Target_def given_ids_def)
  next
    case None
    from call_effect [OF X(1) assms(1), of "w\<lparr>w_match := h\<rparr>" Target k "marshal_target X (deref_target h req)" un] assms(2,3)
    obtain sc' w' m st err where "call_picked X k (marshal_target X (deref_target h req)) un Target sc (w\<lparr>w_match := h\<rparr>) =
        Some (sc', w', m, st, err)" "client_ok sc'" "world_ready w'" "reached L Target un m (w_net w) (w_net w')"
      by auto
    with stamp None X(2) reached_given [of L un m "w_net w" "w_net w'"] show ?thesis by (simp add: CallTarget Sharded_Target_def)
  qed
next
  case (CallReport X k req)
  then have X: "lossy L X" using assms(4) by simp
  from Sharded_Report_branches [of X k req sc w] show ?thesis
  proof (elim disjE exE)
    fix h req' st err assume "Sharded_Report X k (Some req) sc w = Some (sc, w\<lparr>w_report := h\<rparr>, req', st, err)"
    with assms(1,2) seen_nothing show ?thesis by (simp add: CallReport)
  next
    fix h req' raw assume r: "Sharded_Report X k (Some req) sc w = map_option (\<lambda>(sc', w', m, st, err). (sc', w', req', st, err))
      (call_picked X k raw (\<lambda>_. Inr ()) Report sc (w\<lparr>w_report := h\<rparr>))"
    from call_effect [OF X assms(1), of "w\<lparr>w_report := h\<rparr>" Report k raw "\<lambda>_. Inr ()"] assms(2,3)
    obtain sc' w' m st err where "call_picked X k raw (\<lambda>_. Inr ()) Report sc (w\<lparr>w_report := h\<rparr>) = Some (sc', w', m, st, err)"
      "client_ok sc'" "world_ready w'" "reached L Report (\<lambda>_. Inr ()) m (w_net w) (w_net w')" by auto
    with r reached_seen [of L Report "\<lambda>_. Inr ()" m "w_net w" "w_net w'" un] show ?thesis by (simp add: CallReport)
  qed
next
  case (CallTouch X k req)
  then have X: "lossy L X" using assms(4) by simp
  from call_effect [OF X assms(1-3), of Touch k "marshal_touch X req" "unmarshal_touch X"]
  obtain sc' w' m st err where "call_picked X k (marshal_touch X req) (unmarshal_touch X) Touch sc w = Some (sc', w', m, st, err)"
    "client_ok sc'" "world_ready w'" "reached L Touch (unmarshal_touch X) m (w_net w) (w_net w')" by auto
  with reached_seen [of L Touch "unmarshal_touch X" m "w_net w" "w_net w'" un] show ?thesis by (simp add: CallTouch Sharded_Touch_def)
next
  case (Elsewhere conns conn m)
  have "handle_request L conns (arrived conn m) (w_net w) =
    (fst (handle_request L conns (arrived conn m) (w_net w)), snd (handle_request L conns (arrived conn m) (w_net w)))" by simp
  from seen_request [OF this, of "[]" un 1] assms(1,2) show ?thesis by (simp add: Elsewhere)
qed

lemma seen_cfg:
  assumes "seen L un n ids s s'" "\<forall>r bs. tl_marshal_target L r = Inr bs \<longrightarrow> un bs = Inr r"
  shows "ts_cfg s' = ts_cfg s"
proof -
  have "tc_serve L reqs s = (s', answers) \<Longrightarrow> \<forall>r \<in> set reqs. Response_Value (ctx_Response (snd r)) = [] \<Longrightarrow> ts_cfg s' = ts_cfg s"
    for reqs answers
  proof (induction reqs arbitrary: s answers)
    case (Cons r reqs)
    then show ?case
      using handle_request_id [OF _ _ assms(2)] by (cases r) (fastforce simp: Let_def split: prod.splits)
  qed simp
  with assms(1) show ?thesis unfolding seen_def by blast
qed

lemma activity_effect:
  assumes "\<forall>r bs. tl_marshal_target L r = Inr bs \<longrightarrow> un bs = Inr r"
  shows "client_ok sc \<Longrightarrow> world_ready w \<Longrightarrow> statuses_fit (w_net w) \<Longrightarrow> \<forall>a \<in> set acts. act_ok L un a \<Longrightarrow>
    \<exists>ids sc' w'. activity L acts (sc, w) = Some (ids, sc', w') \<and> client_ok sc' \<and> world_ready w' \<and>
      seen L un (length acts) ids (w_net w) (w_net w')"
proof (induction acts arbitrary: sc w)
  case Nil
  then show ?case by (simp add: seen_nothing)
next
  case (Cons a acts)
  from act_effect [OF Cons.prems(1-3)] Cons.prems(4) obtain ids sc1 w1 where
    a: "act_step L a (sc, w) = Some (ids, sc1, w1)" "client_ok sc1" "world_ready w1" and s: "seen L un 1 ids (w_net w) (w_net w1)"
    by fastforce
  have "statuses_fit (w_net w1)" using Cons.prems(3) seen_cfg [OF s assms] by simp
  with Cons.IH [OF a(2,3)] Cons.prems(4) obtain ids' sc' w' where
    b: "activity L acts (sc1, w1) = Some (ids', sc', w')" "client_ok sc'" "world_ready w'"
      "seen L un (length acts) ids' (w_net w1) (w_net w')" by auto
  with a seen_append [OF s b(4)] show ?case by simp
qed

lemma subseq_distinct: "subseq xs ys \<Longrightarrow> distinct ys \<Longrightarrow> distinct xs"
  by (induction rule: list_emb.induct) (auto dest: list_emb_set)

section \<open>Properties\<close>

text \<open>
  C13. A client's tracking ids are its own. However a client's Target, Report and Touch calls and
  the requests of everybody else follow each other, over a network that may lose any request or
  answer and over whatever connections, no call panics, the client stays usable, and the ids its
  Target calls return are pairwise different, each the server's id with a number the server had
  not reached before the run.
\<close>

theorem client_tracking_ids_differ:
  assumes "client_ok sc" "world_ready w" "unat (tcc_TargetStatus (ts_cfg (w_net w))) < 256"
    and "\<forall>a \<in> set acts. act_ok L un a"
    and "\<forall>r bs. tl_marshal_target L r = Inr bs \<longrightarrow> un bs = Inr r"
    and "unat (ts_counter (w_net w)) + length acts < 2 ^ 48"
  shows "\<exists>ids sc' w'. activity L acts (sc, w) = Some (ids, sc', w') \<and> client_ok sc' \<and> world_ready w' \<and> distinct ids \<and>
    (\<forall>id \<in> set ids. \<exists>n. id = tracking_id (tcc_ServerID (ts_cfg (w_net w))) n \<and>
       unat (ts_counter (w_net w)) < unat n \<and> unat n \<le> unat (ts_counter (w_net w)) + length acts)"
proof -
  let ?sid = "tcc_ServerID (ts_cfg (w_net w))"
  from activity_effect [OF assms(5,1-4)] obtain ids sc' w' where
    run: "activity L acts (sc, w) = Some (ids, sc', w')" "client_ok sc'" "world_ready w'"
    and "seen L un (length acts) ids (w_net w) (w_net w')" by blast
  then obtain reqs answers where r: "tc_serve L reqs (w_net w) = (w_net w', answers)" "length reqs \<le> length acts"
    "\<forall>r \<in> set reqs. Response_Value (ctx_Response (snd r)) = []" "subseq ids (concat (map (answered_ids un) answers))"
    unfolding seen_def by blast
  have "unat (ts_counter (w_net w)) + length reqs < 2 ^ 48" using assms(6) r(2) by simp
  from tc_serve_ids [OF r(1,3) assms(5) this] obtain ns where
    ns: "concat (map (answered_ids un) answers) = map (tracking_id ?sid) ns" "distinct ns"
    "\<forall>n \<in> set ns. unat (ts_counter (w_net w)) < unat n \<and> unat n \<le> unat (ts_counter (w_net w)) + length reqs" by blast
  have "distinct (map (tracking_id ?sid) ns)" using ns(2) by (simp add: distinct_map inj_on_def tracking_id_inject)
  with r(4) ns(1) have "distinct ids" using subseq_distinct by metis
  moreover have "set ids \<subseteq> tracking_id ?sid ` set ns" using r(4) ns(1) by (auto dest: list_emb_set)
  ultimately show ?thesis using run ns(3) r(2) by fastforce
qed

section \<open>Witness\<close>

text \<open>Two Targets of one client with somebody else's in between.\<close>

definition sample_acts :: "unit act list" where
  "sample_acts = [CallTarget cloud_ext sample_call (Some sample_target), Elsewhere sample_conns 0 (Target, [1]),
     CallTarget cloud_ext sample_call (Some sample_target)]"

lemma served_lossy:
  assumes "served_by X L conns conn"
  shows "lossy L X"
  unfolding lossy_def
proof (intro allI impI)
  fix slot req resp dl s assume "response_ok resp"
  moreover have "do_deadline X slot req resp dl s = exchange L conns (conn slot) req resp s"
    using assms unfolding served_by_def by blast
  ultimately show "\<exists>conns conn lost e. response_ok lost \<and> do_deadline X slot req resp dl s \<in>
      {exchange L conns conn req resp s, (fst (exchange L conns conn req resp s), lost, Some e), (s, lost, Some e)}" by blast
qed

theorem client_tracking_ids_differ_witness:
  "\<exists>ids sc' w'. activity sample_tc_lib sample_acts (sample_sharded, cloud_world) = Some (ids, sc', w') \<and> distinct ids"
proof -
  have "lossy sample_tc_lib cloud_ext" using served_lossy [OF cloud_served] .
  then have acts: "\<forall>a \<in> set sample_acts. act_ok sample_tc_lib sample_unmarshal a" by (simp add: sample_acts_def)
  have s: "tcc_TargetStatus (ts_cfg sample_server) = RPC_OK" "ts_counter sample_server = 0"
    by (simp_all add: sample_server_def NewServer_def tc_normalizeConfig_def sample_tc_config_def default_if_def rpc_codes Let_def)
  from client_tracking_ids_differ [OF sample_client_ok cloud_ready _ acts sample_codec] s show ?thesis
    by (fastforce simp: sample_acts_def RPC_OK_def)
qed

end
