(* ===== verification/Getters.thy ===== *)
theory Getters
  imports ProtoTypes
begin

text \<open>
  The rest of what protoc generates for the messages: \<^verbatim>\<open>Reset\<close>, which makes a message empty (its part
  on the runtime's own state is the protobuf library's), and the getters, which read a nil message
  as the empty one (\<open>nil_reads_as_empty\<close>). Those of \<^verbatim>\<open>Match_Rule\<close>, \<^verbatim>\<open>TargetRequest\<close> and \<^verbatim>\<open>ReportRequest\<close> the code calls
  itself are in \<open>ProtoTypes\<close>.
\<close>

section \<open>\<^verbatim>\<open>user.pb.go\<close>\<close>

definition Context_Reset :: "request_context \<Rightarrow> request_context" where
  "Context_Reset x = \<lparr>Context_Ip = [], Context_Ua = [], Context_Url = [],
     Context_Referrer = [], Context_Bundle = []\<rparr>"

definition Context_GetIp :: "request_context option \<Rightarrow> bytes" where
  "Context_GetIp x = (case x of Some m \<Rightarrow> Context_Ip m | None \<Rightarrow> [])"

definition Context_GetUa :: "request_context option \<Rightarrow> bytes" where
  "Context_GetUa x = (case x of Some m \<Rightarrow> Context_Ua m | None \<Rightarrow> [])"

definition Context_GetUrl :: "request_context option \<Rightarrow> bytes" where
  "Context_GetUrl x = (case x of Some m \<Rightarrow> Context_Url m | None \<Rightarrow> [])"

definition Context_GetReferrer :: "request_context option \<Rightarrow> bytes" where
  "Context_GetReferrer x = (case x of Some m \<Rightarrow> Context_Referrer m | None \<Rightarrow> [])"

definition Context_GetBundle :: "request_context option \<Rightarrow> bytes" where
  "Context_GetBundle x = (case x of Some m \<Rightarrow> Context_Bundle m | None \<Rightarrow> [])"

definition UID_Reset :: "uid \<Rightarrow> uid" where
  "UID_Reset x = \<lparr>UID_Id = [], UID_Type = 0, UID_Source = ''''\<rparr>"

definition UID_GetId :: "uid option \<Rightarrow> bytes" where
  "UID_GetId x = (case x of Some m \<Rightarrow> UID_Id m | None \<Rightarrow> [])"

definition UID_GetType :: "uid option \<Rightarrow> int32" where
  "UID_GetType x = (case x of Some m \<Rightarrow> UID_Type m | None \<Rightarrow> UID_OTP)"

definition UID_GetSource :: "uid option \<Rightarrow> string" where
  "UID_GetSource x = (case x of Some m \<Rightarrow> UID_Source m | None \<Rightarrow> '''')"

section \<open>\<^verbatim>\<open>frequency.pb.go\<close>\<close>

definition Frequency_Rule_Reset :: "frequency_rule \<Rightarrow> frequency_rule" where
  "Frequency_Rule_Reset x = \<lparr>Frequency_Key = 0, Frequency_Limit = None\<rparr>"

definition Frequency_Rule_GetKey :: "frequency_rule option \<Rightarrow> uint64" where
  "Frequency_Rule_GetKey x = (case x of Some m \<Rightarrow> Frequency_Key m | None \<Rightarrow> 0)"

definition Frequency_Rule_GetLimit :: "frequency_rule option \<Rightarrow> frequency_limit option" where
  "Frequency_Rule_GetLimit x = (case x of Some m \<Rightarrow> Frequency_Limit m | None \<Rightarrow> None)"

definition Frequency_Limit_Reset :: "frequency_limit \<Rightarrow> frequency_limit" where
  "Frequency_Limit_Reset x = \<lparr>Limit_AdsPerUser = 0, Limit_Period = 0, Limit_PeriodType = 0,
     Limit_Event = 0, Limit_CapMode = 0, Limit_FreezePeriodSeconds = 0\<rparr>"

definition Frequency_Limit_GetAdsPerUser :: "frequency_limit option \<Rightarrow> uint32" where
  "Frequency_Limit_GetAdsPerUser x = (case x of Some m \<Rightarrow> Limit_AdsPerUser m | None \<Rightarrow> 0)"

definition Frequency_Limit_GetPeriod :: "frequency_limit option \<Rightarrow> uint32" where
  "Frequency_Limit_GetPeriod x = (case x of Some m \<Rightarrow> Limit_Period m | None \<Rightarrow> 0)"

definition Frequency_Limit_GetPeriodType :: "frequency_limit option \<Rightarrow> int32" where
  "Frequency_Limit_GetPeriodType x = (case x of Some m \<Rightarrow> Limit_PeriodType m | None \<Rightarrow> 0)"

definition Frequency_Limit_GetEvent :: "frequency_limit option \<Rightarrow> int32" where
  "Frequency_Limit_GetEvent x = (case x of Some m \<Rightarrow> Limit_Event m | None \<Rightarrow> 0)"

definition Frequency_Limit_GetCapMode :: "frequency_limit option \<Rightarrow> int32" where
  "Frequency_Limit_GetCapMode x = (case x of Some m \<Rightarrow> Limit_CapMode m | None \<Rightarrow> 0)"

definition Frequency_Limit_GetFreezePeriodSeconds :: "frequency_limit option \<Rightarrow> uint32" where
  "Frequency_Limit_GetFreezePeriodSeconds x = (case x of Some m \<Rightarrow> Limit_FreezePeriodSeconds m | None \<Rightarrow> 0)"

section \<open>\<^verbatim>\<open>match.pb.go\<close>\<close>

definition Match_Rule_Reset :: "match_rule \<Rightarrow> match_rule" where
  "Match_Rule_Reset x = \<lparr>Match_TrafficType = 0, Match_SegmentIds = [], Match_Payer = ''''\<rparr>"

definition Match_Rule_GetTrafficType :: "match_rule option \<Rightarrow> int32" where
  "Match_Rule_GetTrafficType x = (case x of Some m \<Rightarrow> Match_TrafficType m | None \<Rightarrow> 0)"

definition Match_Rule_GetSegmentIds :: "match_rule option \<Rightarrow> uint32 list" where
  "Match_Rule_GetSegmentIds x = (case x of Some m \<Rightarrow> Match_SegmentIds m | None \<Rightarrow> [])"

section \<open>\<^verbatim>\<open>rpc.target.pb.go\<close>\<close>

definition TargetRequest_Reset :: "'r target_request \<Rightarrow> 'r target_request" where
  "TargetRequest_Reset x = \<lparr>TargetRequest_Uids = [], TargetRequest_Frequency = [], TargetRequest_Match = [],
     TargetRequest_IndividualErrors = False, TargetRequest_Context = None, TargetRequest_Inventory = None\<rparr>"

definition TargetRequest_GetUids :: "'r target_request option \<Rightarrow> uid option list" where
  "TargetRequest_GetUids x = (case x of Some m \<Rightarrow> TargetRequest_Uids m | None \<Rightarrow> [])"

definition TargetRequest_GetFrequency :: "'r target_request option \<Rightarrow> frequency_rule option list" where
  "TargetRequest_GetFrequency x = (case x of Some m \<Rightarrow> TargetRequest_Frequency m | None \<Rightarrow> [])"

definition TargetRequest_GetIndividualErrors :: "'r target_request option \<Rightarrow> bool" where
  "TargetRequest_GetIndividualErrors x = (case x of Some m \<Rightarrow> TargetRequest_IndividualErrors m | None \<Rightarrow> False)"

definition TargetRequest_GetContext :: "'r target_request option \<Rightarrow> request_context option" where
  "TargetRequest_GetContext x = (case x of Some m \<Rightarrow> TargetRequest_Context m | None \<Rightarrow> None)"

definition TargetRequest_GetInventory :: "'r target_request option \<Rightarrow> inventory option" where
  "TargetRequest_GetInventory x = (case x of Some m \<Rightarrow> TargetRequest_Inventory m | None \<Rightarrow> None)"

definition TargetResponse_Reset :: "target_response \<Rightarrow> target_response" where
  "TargetResponse_Reset x = \<lparr>TargetResponse_TrackingId = [], TargetResponse_StatusCode = 0,
     TargetResponse_Frequency = [], TargetResponse_Match = []\<rparr>"

definition TargetResponse_GetTrackingId :: "target_response option \<Rightarrow> bytes" where
  "TargetResponse_GetTrackingId x = (case x of Some m \<Rightarrow> TargetResponse_TrackingId m | None \<Rightarrow> [])"

definition TargetResponse_GetStatusCode :: "target_response option \<Rightarrow> int32" where
  "TargetResponse_GetStatusCode x = (case x of Some m \<Rightarrow> TargetResponse_StatusCode m | None \<Rightarrow> RPC_UNKNOWN)"

definition TargetResponse_GetFrequency :: "target_response option \<Rightarrow> int32 list" where
  "TargetResponse_GetFrequency x = (case x of Some m \<Rightarrow> TargetResponse_Frequency m | None \<Rightarrow> [])"

definition TargetResponse_GetMatch :: "target_response option \<Rightarrow> int32 list" where
  "TargetResponse_GetMatch x = (case x of Some m \<Rightarrow> TargetResponse_Match m | None \<Rightarrow> [])"

definition TargetRequest_Inventory_Reset :: "inventory \<Rightarrow> inventory" where
  "TargetRequest_Inventory_Reset x = \<lparr>Inventory_Id = 0, Inventory_AccountID = 0,
     Inventory_PublisherID = 0, Inventory_Aid = 0\<rparr>"

definition TargetRequest_Inventory_GetId :: "inventory option \<Rightarrow> uint64" where
  "TargetRequest_Inventory_GetId x = (case x of Some m \<Rightarrow> Inventory_Id m | None \<Rightarrow> 0)"

definition TargetRequest_Inventory_GetAccountID :: "inventory option \<Rightarrow> uint64" where
  "TargetRequest_Inventory_GetAccountID x = (case x of Some m \<Rightarrow> Inventory_AccountID m | None \<Rightarrow> 0)"

definition TargetRequest_Inventory_GetPublisherID :: "inventory option \<Rightarrow> uint64" where
  "TargetRequest_Inventory_GetPublisherID x = (case x of Some m \<Rightarrow> Inventory_PublisherID m | None \<Rightarrow> 0)"

definition TargetRequest_Inventory_GetAid :: "inventory option \<Rightarrow> uint64" where
  "TargetRequest_Inventory_GetAid x = (case x of Some m \<Rightarrow> Inventory_Aid m | None \<Rightarrow> 0)"

section \<open>\<^verbatim>\<open>rpc.report.pb.go\<close>\<close>

definition ReportRequest_Reset :: "'r report_request \<Rightarrow> 'r report_request" where
  "ReportRequest_Reset x = \<lparr>ReportRequest_Payer = '''', ReportRequest_TrackingId = None,
     ReportRequest_Event = 0, ReportRequest_Rules = []\<rparr>"

definition ReportRequest_GetTrackingId :: "'r report_request option \<Rightarrow> bytes option" where
  "ReportRequest_GetTrackingId x = (case x of Some m \<Rightarrow> ReportRequest_TrackingId m | None \<Rightarrow> None)"

definition ReportRequest_GetEvent :: "'r report_request option \<Rightarrow> int32" where
  "ReportRequest_GetEvent x = (case x of Some m \<Rightarrow> ReportRequest_Event m | None \<Rightarrow> 0)"

definition ReportRequest_Rule_Reset :: "report_rule \<Rightarrow> report_rule" where
  "ReportRequest_Rule_Reset x = \<lparr>ReportRule_TrafficType = 0, ReportRule_EventsCount = 0, ReportRule_SegmentIds = [], ReportRule_Frequency = [],
     ReportRule_LI = 0, ReportRule_CmpID = 0, ReportRule_Payer = ''''\<rparr>"

definition ReportRequest_Rule_GetTrafficType :: "report_rule option \<Rightarrow> int32" where
  "ReportRequest_Rule_GetTrafficType x = (case x of Some m \<Rightarrow> ReportRule_TrafficType m | None \<Rightarrow> 0)"

definition ReportRequest_Rule_GetEventsCount :: "report_rule option \<Rightarrow> uint32" where
  "ReportRequest_Rule_GetEventsCount x = (case x of Some m \<Rightarrow> ReportRule_EventsCount m | None \<Rightarrow> 0)"

definition ReportRequest_Rule_GetSegmentIds :: "report_rule option \<Rightarrow> uint32 list" where
  "ReportRequest_Rule_GetSegmentIds x = (case x of Some m \<Rightarrow> ReportRule_SegmentIds m | None \<Rightarrow> [])"

definition ReportRequest_Rule_GetFrequency :: "report_rule option \<Rightarrow> uint64 list" where
  "ReportRequest_Rule_GetFrequency x = (case x of Some m \<Rightarrow> ReportRule_Frequency m | None \<Rightarrow> [])"

definition ReportRequest_Rule_GetLI :: "report_rule option \<Rightarrow> uint32" where
  "ReportRequest_Rule_GetLI x = (case x of Some m \<Rightarrow> ReportRule_LI m | None \<Rightarrow> 0)"

definition ReportRequest_Rule_GetCmpID :: "report_rule option \<Rightarrow> uint32" where
  "ReportRequest_Rule_GetCmpID x = (case x of Some m \<Rightarrow> ReportRule_CmpID m | None \<Rightarrow> 0)"

section \<open>\<^verbatim>\<open>rpc.touch.pb.go\<close>\<close>

definition TouchRequest_Reset :: "touch_request \<Rightarrow> touch_request" where
  "TouchRequest_Reset x = \<lparr>TouchRequest_Uids = [], TouchRequest_Context = None,
     TouchRequest_Inventory = None\<rparr>"

definition TouchRequest_GetUids :: "touch_request option \<Rightarrow> uid option list" where
  "TouchRequest_GetUids x = (case x of Some m \<Rightarrow> TouchRequest_Uids m | None \<Rightarrow> [])"

definition TouchRequest_GetContext :: "touch_request option \<Rightarrow> request_context option" where
  "TouchRequest_GetContext x = (case x of Some m \<Rightarrow> TouchRequest_Context m | None \<Rightarrow> None)"

definition TouchRequest_GetInventory :: "touch_request option \<Rightarrow> inventory option" where
  "TouchRequest_GetInventory x = (case x of Some m \<Rightarrow> TouchRequest_Inventory m | None \<Rightarrow> None)"

definition TouchResponse_Reset :: "touch_response \<Rightarrow> touch_response" where
  "TouchResponse_Reset x = \<lparr>TouchResponse_UserId = [], TouchResponse_Accuracy = 0,
     TouchResponse_Label = []\<rparr>"

definition TouchResponse_GetUserId :: "touch_response option \<Rightarrow> bytes" where
  "TouchResponse_GetUserId x = (case x of Some m \<Rightarrow> TouchResponse_UserId m | None \<Rightarrow> [])"

definition TouchResponse_GetAccuracy :: "touch_response option \<Rightarrow> int32" where
  "TouchResponse_GetAccuracy x = (case x of Some m \<Rightarrow> TouchResponse_Accuracy m | None \<Rightarrow> 0)"

definition TouchResponse_GetLabel :: "touch_response option \<Rightarrow> bytes" where
  "TouchResponse_GetLabel x = (case x of Some m \<Rightarrow> TouchResponse_Label m | None \<Rightarrow> [])"

lemmas resets = Context_Reset_def Frequency_Limit_Reset_def Frequency_Rule_Reset_def
  Match_Rule_Reset_def ReportRequest_Reset_def ReportRequest_Rule_Reset_def
  TargetRequest_Inventory_Reset_def TargetRequest_Reset_def TargetResponse_Reset_def
  TouchRequest_Reset_def TouchResponse_Reset_def UID_Reset_def

lemmas all_getters = getters Context_GetIp_def Context_GetUa_def Context_GetUrl_def
  Context_GetReferrer_def Context_GetBundle_def UID_GetId_def UID_GetType_def UID_GetSource_def
  Frequency_Rule_GetKey_def Frequency_Rule_GetLimit_def Frequency_Limit_GetAdsPerUser_def
  Frequency_Limit_GetPeriod_def Frequency_Limit_GetPeriodType_def Frequency_Limit_GetEvent_def
  Frequency_Limit_GetCapMode_def Frequency_Limit_GetFreezePeriodSeconds_def
  Match_Rule_GetTrafficType_def Match_Rule_GetSegmentIds_def TargetRequest_GetUids_def
  TargetRequest_GetFrequency_def TargetRequest_GetIndividualErrors_def
  TargetRequest_GetContext_def TargetRequest_GetInventory_def TargetResponse_GetTrackingId_def
  TargetResponse_GetStatusCode_def TargetResponse_GetFrequency_def TargetResponse_GetMatch_def
  TargetRequest_Inventory_GetId_def TargetRequest_Inventory_GetAccountID_def
  TargetRequest_Inventory_GetPublisherID_def TargetRequest_Inventory_GetAid_def
  ReportRequest_GetTrackingId_def ReportRequest_GetEvent_def ReportRequest_Rule_GetTrafficType_def
  ReportRequest_Rule_GetEventsCount_def ReportRequest_Rule_GetSegmentIds_def
  ReportRequest_Rule_GetFrequency_def ReportRequest_Rule_GetLI_def ReportRequest_Rule_GetCmpID_def
  TouchRequest_GetUids_def TouchRequest_GetContext_def TouchRequest_GetInventory_def
  TouchResponse_GetUserId_def TouchResponse_GetAccuracy_def TouchResponse_GetLabel_def

text \<open>A nil message reads as the one \<open>Reset\<close> leaves, whatever it held.\<close>

lemma nil_reads_as_empty:
  "Context_GetIp None = Context_GetIp (Some (Context_Reset x1))"
  "Context_GetUa None = Context_GetUa (Some (Context_Reset x1))"
  "Context_GetUrl None = Context_GetUrl (Some (Context_Reset x1))"
  "Context_GetReferrer None = Context_GetReferrer (Some (Context_Reset x1))"
  "Context_GetBundle None = Context_GetBundle (Some (Context_Reset x1))"
  "UID_GetId None = UID_GetId (Some (UID_Reset x0))"
  "UID_GetType None = UID_GetType (Some (UID_Reset x0))"
  "UID_GetSource None = UID_GetSource (Some (UID_Reset x0))"
  "Frequency_Rule_GetKey None = Frequency_Rule_GetKey (Some (Frequency_Rule_Reset x3))"
  "Frequency_Rule_GetLimit None = Frequency_Rule_GetLimit (Some (Frequency_Rule_Reset x3))"
  "Frequency_Limit_GetAdsPerUser None = Frequency_Limit_GetAdsPerUser (Some (Frequency_Limit_Reset x2))"
  "Frequency_Limit_GetPeriod None = Frequency_Limit_GetPeriod (Some (Frequency_Limit_Reset x2))"
  "Frequency_Limit_GetPeriodType None = Frequency_Limit_GetPeriodType (Some (Frequency_Limit_Reset x2))"
  "Frequency_Limit_GetEvent None = Frequency_Limit_GetEvent (Some (Frequency_Limit_Reset x2))"
  "Frequency_Limit_GetCapMode None = Frequency_Limit_GetCapMode (Some (Frequency_Limit_Reset x2))"
  "Frequency_Limit_GetFreezePeriodSeconds None = Frequency_Limit_GetFreezePeriodSeconds (Some (Frequency_Limit_Reset x2))"
  "Match_Rule_GetTrafficType None = Match_Rule_GetTrafficType (Some (Match_Rule_Reset x4))"
  "Match_Rule_GetSegmentIds None = Match_Rule_GetSegmentIds (Some (Match_Rule_Reset x4))"
  "Match_Rule_GetPayer None = Match_Rule_GetPayer (Some (Match_Rule_Reset x4))"
  "TargetRequest_GetUids None = TargetRequest_GetUids (Some (TargetRequest_Reset x6))"
  "TargetRequest_GetFrequency None = TargetRequest_GetFrequency (Some (TargetRequest_Reset x6))"
  "TargetRequest_GetMatch None = TargetRequest_GetMatch (Some (TargetRequest_Reset x6))"
  "TargetRequest_GetIndividualErrors None = TargetRequest_GetIndividualErrors (Some (TargetRequest_Reset x6))"
  "TargetRequest_GetContext None = TargetRequest_GetContext (Some (TargetRequest_Reset x6))"
  "TargetRequest_GetInventory None = TargetRequest_GetInventory (Some (TargetRequest_Reset x6))"
  "TargetResponse_GetTrackingId None = TargetResponse_GetTrackingId (Some (TargetResponse_Reset x7))"
  "TargetResponse_GetStatusCode None = TargetResponse_GetStatusCode (Some (TargetResponse_Reset x7))"
  "TargetResponse_GetFrequency None = TargetResponse_GetFrequency (Some (TargetResponse_Reset x7))"
  "TargetResponse_GetMatch None = TargetResponse_GetMatch (Some (TargetResponse_Reset x7))"
  "TargetRequest_Inventory_GetId None = TargetRequest_Inventory_GetId (Some (TargetRequest_Inventory_Reset x5))"
  "TargetRequest_Inventory_GetAccountID None = TargetRequest_Inventory_GetAccountID (Some (TargetRequest_Inventory_Reset x5))"
  "TargetRequest_Inventory_GetPublisherID None = TargetRequest_Inventory_GetPublisherID (Some (TargetRequest_Inventory_Reset x5))"
  "TargetRequest_Inventory_GetAid None = TargetRequest_Inventory_GetAid (Some (TargetRequest_Inventory_Reset x5))"
  "ReportRequest_GetPayer None = ReportRequest_GetPayer (Some (ReportRequest_Reset x8))"
  "ReportRequest_GetTrackingId None = ReportRequest_GetTrackingId (Some (ReportRequest_Reset x8))"
  "ReportRequest_GetEvent None = ReportRequest_GetEvent (Some (ReportRequest_Reset x8))"
  "ReportRequest_GetRules None = ReportRequest_GetRules (Some (ReportRequest_Reset x8))"
  "ReportRequest_Rule_GetTrafficType None = ReportRequest_Rule_GetTrafficType (Some (ReportRequest_Rule_Reset x9))"
  "ReportRequest_Rule_GetEventsCount None = ReportRequest_Rule_GetEventsCount (Some (ReportRequest_Rule_Reset x9))"
  "ReportRequest_Rule_GetSegmentIds None = ReportRequest_Rule_GetSegmentIds (Some (ReportRequest_Rule_Reset x9))"
  "ReportRequest_Rule_GetFrequency None = ReportRequest_Rule_GetFrequency (Some (ReportRequest_Rule_Reset x9))"
  "ReportRequest_Rule_GetLI None = ReportRequest_Rule_GetLI (Some (ReportRequest_Rule_Reset x9))"
  "ReportRequest_Rule_GetCmpID None = ReportRequest_Rule_GetCmpID (Some (ReportRequest_Rule_Reset x9))"
  "ReportRequest_Rule_GetPayer None = ReportRequest_Rule_GetPayer (Some (ReportRequest_Rule_Reset x9))"
  "TouchRequest_GetUids None = TouchRequest_GetUids (Some (TouchRequest_Reset x10))"
  "TouchRequest_GetContext None = TouchRequest_GetContext (Some (TouchRequest_Reset x10))"
  "TouchRequest_GetInventory None = TouchRequest_GetInventory (Some (TouchRequest_Reset x10))"
  "TouchResponse_GetUserId None = TouchResponse_GetUserId (Some (TouchResponse_Reset x11))"
  "TouchResponse_GetAccuracy None = TouchResponse_GetAccuracy (Some (TouchResponse_Reset x11))"
  "TouchResponse_GetLabel None = TouchResponse_GetLabel (Some (TouchResponse_Reset x11))"
  by (simp_all add: all_getters resets UID_OTP_def RPC_UNKNOWN_def)

end
