(* ===== verification/Spec2Isabelle.thy ===== *)
theory Spec2Isabelle
  imports Tools System Session Getters
begin

text \<open>
  The DCR SDK: a Go client of the myGaru DCR cloud, and the in-process test cloud it is tested
  against. A partner's application builds a client (\<^verbatim>\<open>NewWithMTLS\<close>) and calls Target (which
  segments does this user match), Report (an event happened, bill it) and Touch (identify the
  user). Calls go out over pooled fastrpc connections in mTLS; the client renews its certificate
  by itself.

  \<^bold>\<open>Parts and theories.\<close> Each theory opens with a note on the part it models.

  \<^item> \<open>Prelude\<close>, \<open>GoStd\<close>, \<open>NetIP\<close>, \<open>GoBuf\<close>, \<open>Rotation\<close>: machine types and Go errors as values; the
    parts of \<^verbatim>\<open>strings\<close>, \<^verbatim>\<open>fmt\<close>, \<^verbatim>\<open>net\<close>, \<^verbatim>\<open>bufio\<close>, \<^verbatim>\<open>io\<close> and \<^verbatim>\<open>sync.Pool\<close> the code uses, by
    their documented behaviour; slices with their spare capacity; the shared interfaces.
  \<^item> \<open>Wire\<close>: \<^verbatim>\<open>pkg/contract\<close>. A request is one byte of register, a response one byte of status, each
    followed by a little-endian length and a value of at most 1 MiB.
  \<^item> \<open>ProtoTypes\<close>, \<open>Getters\<close>: the messages and enums of \<^verbatim>\<open>gen/base1\<close>, with what is generated for each.
  \<^item> \<open>Payer\<close>: \<^verbatim>\<open>pkg/client/payer.go\<close> and the stamping loops of \<^verbatim>\<open>shardedClient.go\<close>.
  \<^item> \<open>RpcClient\<close>: \<^verbatim>\<open>pkg/client/client.go\<close> and \<^verbatim>\<open>metrics.go\<close>, one connection's client.
  \<^item> \<open>DnsDialer\<close>: \<^verbatim>\<open>pkg/client/dnsDialer.go\<close>, the connections of one address.
  \<^item> \<open>Sharded\<close>: \<^verbatim>\<open>pkg/client/shardedClient.go\<close>, the client the application holds.
  \<^item> \<open>Mtls\<close>, \<open>CertFetch\<close>, \<open>AutoRenew\<close>, \<open>SaveFiles\<close>: \<^verbatim>\<open>mtls.go\<close>, \<^verbatim>\<open>certprovider.go\<close>,
    \<^verbatim>\<open>autorenew.go\<close>, \<^verbatim>\<open>savefiles.go\<close> of \<^verbatim>\<open>pkg/client\<close>, a certificate's life.
  \<^item> \<open>ServerAuth\<close>: \<^verbatim>\<open>pkg/serverauth/auth.go\<close>, who is at the other end of a server's connection.
  \<^item> \<open>TestCloud\<close>: \<^verbatim>\<open>internal/testcloud/server.go\<close>, the handlers.
  \<^item> \<open>EndToEnd\<close>: client, frames and server put together.
  \<^item> \<open>Session\<close>: a client over time, next to other clients, over a network that loses messages.
  \<^item> \<open>TestPKI\<close>: \<^verbatim>\<open>internal/testcloud/certs.go\<close>, the certificates the test cloud is run with.
  \<^item> \<open>System\<close>: client, certificate and cloud as one system, whose events (dial, request, loss, update,
    the three steps of an automatic renewal, and a reconnect's start and two sections) happen in any
    order. The events compose the definitions of the other theories: a dial is \<^verbatim>\<open>Listener.Accept\<close>, the Dial
    hook of \<^verbatim>\<open>newClient\<close> and a full handshake with the certificate the provider serves then.
  \<^item> \<open>Tools\<close>: \<^verbatim>\<open>sdk.go\<close> and the commands \<^verbatim>\<open>touch-check\<close>, \<^verbatim>\<open>test-cloud\<close>, \<^verbatim>\<open>client-example\<close> and
    \<^verbatim>\<open>proto-verify\<close> under \<^verbatim>\<open>cmd\<close>.

  \<^bold>\<open>How state is represented.\<close> Structs are records and every method that changes one returns it
  updated. What Go shares through pointers is a store: the rules of a request (\<open>Payer\<close>), the
  certificate pools (\<open>Mtls\<close>), the server's connections (\<open>ServerAuth\<close>). A Go error is \<open>Inl\<close> of a
  result or \<open>Some\<close> of an option; a panic is \<open>None\<close> of the outer option. Integers are words
  where they wrap (round robins, counters, lengths, status codes), and integers with the
  wrap-around written out for durations. Where goroutines interleave, the atomic sections of the code
  are the steps of an inductive relation (\<open>dialer_step\<close>, \<open>tc_step\<close>) or the events of a run (\<open>sys_run\<close>);
  map iteration takes any order.
  Loops without a bound of their own (\<open>wait_idle\<close>, \<open>fetch_loop\<close>) are partial functions with a
  theorem that they return; no fuel is used anywhere.

  \<^bold>\<open>Interfaces.\<close> The locales \<open>byte_sink\<close>, \<open>message_codec\<close> and \<open>clean_pool\<close> (\<open>GoBuf\<close>, interpreted on
  the contract's writers, messages and pools in \<open>Wire\<close>), \<open>payer_rule\<close> (\<open>Payer\<close>, on both kinds of
  rules) and \<open>rotation\<close> (\<open>Rotation\<close>, on the address rotation in \<open>DnsDialer\<close> and the two round robins in
  \<open>Sharded\<close>) carry the lemmas their instances share.

  \<^bold>\<open>What is shown.\<close> \<open>Wire\<close>: pipelined messages are read back in order, oversized frames are refused
  unread, a message acquired from a pool is clean, and what an oversized request leaves behind. \<open>Payer\<close>: who is
  billed, on success and on failure, shared rules included. \<open>RpcClient\<close> and \<open>Sharded\<close>: what one call
  sends and returns on every branch, metrics, even spreading, and that reconnecting returns.
  \<open>DnsDialer\<close>: no connection is lost or closed twice, and a refresh closes exactly the surplus.
  The certificate theories: \<open>NewWithMTLS\<close> builds what was configured, only checked certificates are served, saved before use, atomically,
  every renewal check returns, and the loop around it never stops. \<open>ServerAuth\<close> and \<open>TestCloud\<close>: the identity of a connection is its
  certificate's as of the handshake (a resumed session has none), nothing is answered OK without authority, tracking ids never repeat, the server's
  state stays well formed. \<open>EndToEnd\<close>: one exchange over the frames refines the bare handler, and a
  client's Target and Report end in the server's answer and, room permitting, its channel. \<open>Session\<close>: whatever calls follow each
  other and whatever the network loses, none panics and no tracking id is given out twice. \<open>TestPKI\<close>: client
  pairs are made for the partner asked for by the one CA the server admits clients of. \<open>System\<close>: over
  runs of client and cloud together nobody is taken for someone a certificate in use did not
  name, after an update a completed reconnect makes every request come as the new partner, and the
  pair of an automatic renewal is the CA's answer, is saved, and becomes the identity the server
  sees by the reconnect the renewal starts.
  \<open>Tools\<close>: the test cloud process authenticates every full handshake, and a tool that lacks a flag or
  a file sends nothing.

  \<^bold>\<open>Parameters.\<close> Libraries outside the repository are arguments: fastrpc's exchange, the protobuf
  codec, UUID text, the resolver, X.509, certificate generation, OCSP and \<^verbatim>\<open>mtls.CheckTLS\<close>, HTTP and JSON at the CA,
  the operating system's file calls, the clock. Hypotheses about them are their documented
  behaviour (\<open>uuid_lib\<close>: a UUID's text parses back to it; a codec decodes what it encoded), and
  every property that needs one has a witness on concrete functions.

  \<^bold>\<open>Not modelled.\<close> The reflection code protoc generates, the loggers underneath, and the TLS and compression layers
  of the connections: they are calls of libraries, printing or generated code. Of TLS, \<open>handshake\<close>
  is what the callbacks of \<open>ServerAuth\<close> see, resumed sessions included.
\<close>

end
